(* ===== verification/Prelude.thy ===== *)
theory Prelude
  imports Main "HOL-Library.Word" "HOL-Library.Sublist" "HOL-Library.Char_ord"
begin

text \<open>
  What the components share: results as sums (\<open>Inl\<close> the error), Rust strings as their
  UTF-8 byte lists (so \<open>length\<close> is \<open>str::len\<close> and \<open>chars_count\<close> is
  \<open>str.chars().count()\<close>), the pieces of \<open>str\<close> and \<open>format!\<close> the sources use,
  and fixed-width integers: \<open>i32\<close> values are integers brought back into range by
  two's-complement wrap-around (the release profile of \<open>src/Cargo.toml\<close> leaves
  overflow checks off), \<open>u64\<close> values that are only compared, counted or used as keys
  are 64-bit words.
\<close>

section \<open>Results\<close>

type_synonym ('e, 'a) result = "'e + 'a"

definition bind_res :: "('e, 'a) result \<Rightarrow> ('a \<Rightarrow> ('e, 'b) result) \<Rightarrow> ('e, 'b) result" where
  "bind_res r f = (case r of Inl e \<Rightarrow> Inl e | Inr x \<Rightarrow> f x)"

lemma bind_res_simps [simp]:
  "bind_res (Inl e) f = Inl e"
  "bind_res (Inr x) f = f x"
  by (simp_all add: bind_res_def)

lemma bind_res_InrE [elim!]:
  assumes "bind_res r f = Inr y"
  obtains x where "r = Inr x" and "f x = Inr y"
  using assms by (cases r) auto

lemma bind_res_assoc: "bind_res (bind_res r f) g = bind_res r (\<lambda>x. bind_res (f x) g)"
  by (cases r) simp_all

fun is_ok :: "('e, 'a) result \<Rightarrow> bool" where
  "is_ok (Inl _) = False"
| "is_ok (Inr _) = True"

definition map_err :: "('e \<Rightarrow> 'f) \<Rightarrow> ('e, 'a) result \<Rightarrow> ('f, 'a) result" where
  "map_err f r = (case r of Inl e \<Rightarrow> Inl (f e) | Inr x \<Rightarrow> Inr x)"

lemma map_err_simps [simp]:
  "map_err f (Inl e) = Inl (f e)"
  "map_err f (Inr x) = Inr x"
  "(map_err f r = Inr y) = (r = Inr y)"
  by (auto simp: map_err_def split: sum.splits)

definition ok_or :: "'e \<Rightarrow> 'a option \<Rightarrow> ('e, 'a) result" where
  "ok_or e x = (case x of None \<Rightarrow> Inl e | Some v \<Rightarrow> Inr v)"

lemma ok_or_simps [simp]:
  "ok_or e None = Inl e"
  "ok_or e (Some v) = Inr v"
  "(ok_or e x = Inr y) = (x = Some y)"
  by (auto simp: ok_or_def split: option.splits)

text \<open>\<open>iter().map(f).collect::<Result<Vec<_>, _>>()\<close> with a state threaded through.\<close>

fun map_state :: "('a \<Rightarrow> 's \<Rightarrow> 'b \<times> 's) \<Rightarrow> 'a list \<Rightarrow> 's \<Rightarrow> 'b list \<times> 's" where
  "map_state f [] s = ([], s)"
| "map_state f (x # xs) s =
     (let (y, s1) = f x s; (ys, s2) = map_state f xs s1 in (y # ys, s2))"

lemma length_map_state [simp]: "length (fst (map_state f xs s)) = length xs"
  by (induction xs arbitrary: s) (simp_all add: Let_def case_prod_beta)

section \<open>Strings as UTF-8 bytes\<close>

type_synonym rstr = string

definition code :: "char \<Rightarrow> nat" where
  "code c = of_char c"

text \<open>\<open>str.chars().count()\<close>: every byte but the continuation bytes \<open>10xxxxxx\<close>.\<close>

definition is_continuation :: "char \<Rightarrow> bool" where
  "is_continuation c \<longleftrightarrow> 128 \<le> code c \<and> code c < 192"

definition chars_count :: "rstr \<Rightarrow> nat" where
  "chars_count s = length (filter (\<lambda>c. \<not> is_continuation c) s)"

lemma chars_count_simps [simp]:
  "chars_count [] = 0"
  "chars_count (s @ t) = chars_count s + chars_count t"
  by (simp_all add: chars_count_def)

lemma chars_count_le: "chars_count s \<le> length s"
  by (simp add: chars_count_def)

text \<open>
  \<open>str.trim()\<close> removes the characters with the Unicode property White_Space at both
  ends; these are their UTF-8 encodings.
\<close>

definition whitespace_encodings :: "nat list list" where
  "whitespace_encodings =
     [[9], [10], [11], [12], [13], [32], [194, 133], [194, 160], [225, 154, 128],
      [226, 128, 128], [226, 128, 129], [226, 128, 130], [226, 128, 131], [226, 128, 132],
      [226, 128, 133], [226, 128, 134], [226, 128, 135], [226, 128, 136], [226, 128, 137],
      [226, 128, 138], [226, 128, 168], [226, 128, 169], [226, 128, 175], [226, 129, 159],
      [227, 128, 128]]"

definition prefix_len :: "nat list list \<Rightarrow> rstr \<Rightarrow> nat" where
  "prefix_len encs s =
     (case filter (\<lambda>e. prefix e (map code s)) encs of [] \<Rightarrow> 0 | e # _ \<Rightarrow> length e)"

function strip_leading :: "nat list list \<Rightarrow> rstr \<Rightarrow> rstr" where
  "strip_leading encs s =
     (let n = prefix_len encs s in if n = 0 \<or> s = [] then s else strip_leading encs (drop n s))"
  by pat_completeness auto
termination
  by (relation "measure (\<lambda>(encs, s). length s)") auto

declare strip_leading.simps [simp del]

definition trim_start :: "rstr \<Rightarrow> rstr" where
  "trim_start s = strip_leading whitespace_encodings s"

definition trim_end :: "rstr \<Rightarrow> rstr" where
  "trim_end s = rev (strip_leading (map rev whitespace_encodings) (rev s))"

definition trim :: "rstr \<Rightarrow> rstr" where
  "trim s = trim_end (trim_start s)"

lemma trim_Nil [simp]: "trim [] = []"
  by (simp add: trim_def trim_end_def trim_start_def strip_leading.simps)

lemma strip_leading_suffix: "suffix (strip_leading encs s) s"
proof (induction encs s rule: strip_leading.induct)
  case (1 encs s)
  show ?case
    using 1 by (subst strip_leading.simps) (auto simp: Let_def intro: suffix_order.trans suffix_drop)
qed

lemma prefix_len_strip_leading:
  "prefix_len encs (strip_leading encs s) = 0 \<or> strip_leading encs s = []"
proof (induction encs s rule: strip_leading.induct)
  case (1 encs s)
  show ?case
    using 1 by (subst (1 2) strip_leading.simps) (auto simp: Let_def)
qed

lemma strip_leading_idem [simp]: "strip_leading encs (strip_leading encs s) = strip_leading encs s"
  using prefix_len_strip_leading [of encs s] by (subst strip_leading.simps) (auto simp: Let_def)

lemma length_trim: "length (trim s) \<le> length s"
proof -
  have *: "length (strip_leading e t) \<le> length t" for e t
    by (rule suffix_length_le [OF strip_leading_suffix])
  have "length (trim s) \<le> length (trim_start s)"
    using * [of "map rev whitespace_encodings" "rev (trim_start s)"] by (simp add: trim_def trim_end_def)
  also have "\<dots> \<le> length s"
    using * by (simp add: trim_start_def)
  finally show ?thesis .
qed

lemma prefix_len_prefix:
  assumes "[] \<notin> set encs" "prefix_len encs s = 0" "prefix t s"
  shows "prefix_len encs t = 0"
proof -
  have none: "filter (\<lambda>e. prefix e (map code s)) encs = []"
    using assms(1,2) by (auto simp: prefix_len_def filter_empty_conv split: list.splits)
      (metis filter_eq_ConsD in_set_conv_decomp)
  from assms(3) have "prefix (map code t) (map code s)" by (rule map_mono_prefix)
  with none have "filter (\<lambda>e. prefix e (map code t)) encs = []"
    by (auto simp: filter_empty_conv dest: prefix_order.trans)
  then show ?thesis by (simp add: prefix_len_def)
qed

lemma strip_leading_fixed: "prefix_len encs s = 0 \<Longrightarrow> strip_leading encs s = s"
  by (subst strip_leading.simps) simp

lemma trim_idem [simp]: "trim (trim s) = trim s"
proof -
  have pre: "prefix (trim_end t) t" for t
    using strip_leading_suffix [of "map rev whitespace_encodings" "rev t"]
    by (simp add: trim_end_def suffix_to_prefix)
  have "trim_start (trim s) = trim s"
  proof (cases "trim_start s = []")
    case True
    then show ?thesis
      by (simp add: trim_def trim_end_def trim_start_def strip_leading.simps)
  next
    case False
    then have "prefix_len whitespace_encodings (trim_start s) = 0"
      using prefix_len_strip_leading [of whitespace_encodings s] by (simp add: trim_start_def)
    with pre have "prefix_len whitespace_encodings (trim s) = 0"
      by (auto simp: trim_def whitespace_encodings_def intro: prefix_len_prefix)
    then show ?thesis by (simp add: trim_start_def strip_leading_fixed)
  qed
  moreover have "trim_end (trim_end t) = trim_end t" for t
    by (simp add: trim_end_def)
  ultimately show ?thesis by (metis trim_def)
qed

definition is_blank :: "rstr \<Rightarrow> bool" where
  "is_blank s \<longleftrightarrow> trim s = []"

text \<open>\<open>to_ascii_lowercase\<close>, \<open>strip_prefix\<close>, \<open>contains\<close>, \<open>replace\<close> with a one-byte pattern.\<close>

definition ascii_lower_char :: "char \<Rightarrow> char" where
  "ascii_lower_char c = (if 65 \<le> code c \<and> code c \<le> 90 then char_of (code c + 32) else c)"

definition to_ascii_lowercase :: "rstr \<Rightarrow> rstr" where
  "to_ascii_lowercase s = map ascii_lower_char s"

definition strip_pre :: "rstr \<Rightarrow> rstr \<Rightarrow> rstr option" where
  "strip_pre p s = (if prefix p s then Some (drop (length p) s) else None)"

lemma strip_pre_Some: "strip_pre p s = Some t \<longleftrightarrow> s = p @ t"
  by (auto simp: strip_pre_def prefix_def)

definition contains :: "rstr \<Rightarrow> rstr \<Rightarrow> bool" where
  "contains s p \<longleftrightarrow> sublist p s"

definition replace_char :: "char \<Rightarrow> char \<Rightarrow> rstr \<Rightarrow> rstr" where
  "replace_char a b s = map (\<lambda>c. if c = a then b else c) s"

lemma length_replace_char [simp]: "length (replace_char a b s) = length s"
  by (simp add: replace_char_def)

section \<open>Numbers in decimal and hexadecimal\<close>

definition digit_char :: "nat \<Rightarrow> char" where
  "digit_char d = char_of (if d < 10 then d + 48 else d + 87)"

text \<open>The digits of \<open>n\<close> in base \<open>b\<close>, as \<open>{}\<close> and \<open>{:x}\<close> print them.\<close>

function to_base :: "nat \<Rightarrow> nat \<Rightarrow> rstr" where
  "to_base b n = (if n < b \<or> b < 2 then [digit_char n] else to_base b (n div b) @ [digit_char (n mod b)])"
  by pat_completeness auto
termination
  by (relation "measure snd") auto

declare to_base.simps [simp del]

definition show_nat :: "nat \<Rightarrow> rstr" where
  "show_nat n = to_base 10 n"

text \<open>For evaluation: one digit at a time.\<close>

lemma digit_chars:
  "digit_char 0 = CHR ''0''" "digit_char (Suc 0) = CHR ''1''" "digit_char 1 = CHR ''1''" "digit_char 2 = CHR ''2''"
  "digit_char 3 = CHR ''3''" "digit_char 4 = CHR ''4''" "digit_char 5 = CHR ''5''" "digit_char 6 = CHR ''6''"
  "digit_char 7 = CHR ''7''" "digit_char 8 = CHR ''8''" "digit_char 9 = CHR ''9''"
  by code_simp+

lemma to_base_10:
  "n < 10 \<Longrightarrow> to_base 10 n = [digit_char n]"
  "10 \<le> n \<Longrightarrow> to_base 10 n = to_base 10 (n div 10) @ [digit_char (n mod 10)]"
  by (simp_all add: to_base.simps [of 10 n])

lemmas show_nat_eval = show_nat_def to_base_10 digit_chars

definition show_int :: "int \<Rightarrow> rstr" where
  "show_int i = (if i < 0 then ''-'' @ show_nat (nat (- i)) else show_nat (nat i))"

definition pad_left :: "char \<Rightarrow> nat \<Rightarrow> rstr \<Rightarrow> rstr" where
  "pad_left c w s = replicate (w - length s) c @ s"

lemma length_pad_left [simp]: "length (pad_left c w s) = max w (length s)"
  by (simp add: pad_left_def)

lemma length_to_base: "1 < b \<Longrightarrow> 0 < k \<Longrightarrow> n < b ^ k \<Longrightarrow> length (to_base b n) \<le> k"
proof (induction k arbitrary: n)
  case 0
  then show ?case by simp
next
  case (Suc k)
  show ?case
  proof (cases "n < b")
    case True
    then show ?thesis by (simp add: to_base.simps)
  next
    case False
    with Suc.prems have "n div b < b ^ k"
      by (simp add: less_mult_imp_div_less mult.commute)
    moreover from this False Suc.prems have "0 < k"
      by (cases k) (auto simp: div_eq_0_iff)
    ultimately have "length (to_base b (n div b)) \<le> k"
      using Suc by blast
    with False Suc.prems show ?thesis
      by (subst to_base.simps) simp
  qed
qed

lemma length_to_base_lower: "1 < b \<Longrightarrow> b ^ k \<le> n \<Longrightarrow> k < length (to_base b n)"
proof (induction k arbitrary: n)
  case 0
  then show ?case by (subst to_base.simps) simp
next
  case (Suc k)
  from Suc.prems have "b \<le> n" using self_le_power [of b "Suc k"] by linarith
  moreover have "b ^ k \<le> n div b" using Suc.prems by (simp add: less_eq_div_iff_mult_less_eq mult.commute)
  ultimately show ?case using Suc.IH [of "n div b"] Suc.prems(1) by (subst to_base.simps) simp
qed

text \<open>
  \<open>str::parse\<close> for the unsigned types: an optional \<open>+\<close>, then at least one decimal
  digit, and the value must fit.
\<close>

definition is_digit :: "char \<Rightarrow> bool" where
  "is_digit c \<longleftrightarrow> 48 \<le> code c \<and> code c \<le> 57"

definition digits_value :: "rstr \<Rightarrow> nat" where
  "digits_value s = foldl (\<lambda>acc c. 10 * acc + (code c - 48)) 0 s"

definition parse_digits :: "rstr \<Rightarrow> nat option" where
  "parse_digits s = (if s \<noteq> [] \<and> list_all is_digit s then Some (digits_value s) else None)"

definition parse_unsigned :: "nat \<Rightarrow> rstr \<Rightarrow> nat option" where
  "parse_unsigned bound s =
     (case parse_digits (if prefix ''+'' s then tl s else s) of
        None \<Rightarrow> None
      | Some n \<Rightarrow> if n < bound then Some n else None)"

definition parse_i32 :: "rstr \<Rightarrow> int option" where
  "parse_i32 s =
     (if prefix ''-'' s
      then (case parse_digits (tl s) of
              None \<Rightarrow> None
            | Some n \<Rightarrow> if n \<le> 2 ^ 31 then Some (- int n) else None)
      else map_option int (parse_unsigned (2 ^ 31) s))"

lemma parse_unsigned_bound: "parse_unsigned bound s = Some n \<Longrightarrow> n < bound"
  by (auto simp: parse_unsigned_def split: option.splits if_splits)

section \<open>Fixed-width integers\<close>

type_synonym u64 = "64 word"

definition i32 :: "int \<Rightarrow> int" where
  "i32 x = signed_take_bit 31 x"

definition in_i32 :: "int \<Rightarrow> bool" where
  "in_i32 x \<longleftrightarrow> - (2 ^ 31) \<le> x \<and> x < 2 ^ 31"

lemma i32_id [simp]: "in_i32 x \<Longrightarrow> i32 x = x"
  by (simp add: i32_def in_i32_def signed_take_bit_int_eq_self_iff)

lemma in_i32_i32 [simp]: "in_i32 (i32 x)"
  using signed_take_bit_int_greater_eq_minus_exp [of 31 x] signed_take_bit_int_less_exp [of 31 x]
  by (simp add: i32_def in_i32_def)

lemma i32_wraps: "i32 (2 ^ 31) = - (2 ^ 31)"
  by (simp add: i32_def)

lemma i32_i32_ops [simp]:
  "i32 (i32 x) = i32 x"
  "i32 (i32 x + y) = i32 (x + y)"
  "i32 (x + i32 y) = i32 (x + y)"
  "i32 (i32 x - y) = i32 (x - y)"
  "i32 (x - i32 y) = i32 (x - y)"
  by (simp_all add: i32_def signed_take_bit_eq_take_bit_shift take_bit_eq_mod mod_simps algebra_simps)

text \<open>Rust's \<open>/\<close> on signed integers truncates towards zero.\<close>

definition tdiv :: "int \<Rightarrow> int \<Rightarrow> int" where
  "tdiv a b = sgn a * sgn b * (\<bar>a\<bar> div \<bar>b\<bar>)"

lemma tdiv_nonneg [simp]: "0 \<le> a \<Longrightarrow> 0 < b \<Longrightarrow> tdiv a b = a div b"
  by (cases "a = 0") (simp_all add: tdiv_def)

definition trem :: "int \<Rightarrow> int \<Rightarrow> int" where
  "trem a b = a - b * tdiv a b"

lemma trem_nonneg [simp]: "0 \<le> a \<Longrightarrow> 0 < b \<Longrightarrow> trem a b = a mod b"
  by (simp add: trem_def minus_mult_div_eq_mod)

text \<open>\<open>Option<NonZeroU64>\<close>: zero is represented by \<open>None\<close>.\<close>

definition nonzero_new :: "u64 \<Rightarrow> u64 option" where
  "nonzero_new n = (if n = 0 then None else Some n)"

definition nonzero_get :: "u64 option \<Rightarrow> u64" where
  "nonzero_get x = (case x of None \<Rightarrow> 0 | Some n \<Rightarrow> n)"

lemma nonzero_get_new [simp]: "nonzero_get (nonzero_new n) = n"
  by (simp add: nonzero_get_def nonzero_new_def)

section \<open>Steps that can always lead to a goal\<close>

text \<open>
  The contract of a step relation that is never stuck short of its goal: from every state of
  the invariant some step comes nearer to it. Then a goal is reachable from everywhere.
\<close>

locale homing =
  fixes step :: "'s \<Rightarrow> 's \<Rightarrow> bool" and inv :: "'s \<Rightarrow> bool" and goal :: "'s \<Rightarrow> bool" and distance :: "'s \<Rightarrow> nat"
  assumes nearer: "inv s \<Longrightarrow> \<not> goal s \<Longrightarrow> \<exists>t. step s t \<and> inv t \<and> distance t < distance s"
begin

lemma goal_reachable: "inv s \<Longrightarrow> \<exists>t. step\<^sup>*\<^sup>* s t \<and> goal t"
proof (induction "distance s" arbitrary: s rule: less_induct)
  case less
  show ?case
  proof (cases "goal s")
    case False
    with nearer [OF less.prems] obtain u where u: "step s u" "inv u" "distance u < distance s" by blast
    from less.hyps [OF u(3,2)] u(1) show ?thesis by (meson converse_rtranclp_into_rtranclp)
  qed blast
qed

end

end
