(* ===== verification/Messaging.thy ===== *)
theory Messaging
  imports Prelude
begin

text \<open>
  The platform-neutral message models of \<open>src/src/messaging/contracts/messaging.rs\<close> and
  the list of platforms of \<open>messaging_platform.rs\<close>: parties, dialogs, mobile-originated
  (\<open>mo\<close>) and mobile-terminated (\<open>mt\<close>) messages and payloads, with their constructors
  and getters. Identifiers are \<open>Option<NonZeroU64>\<close> in the code, so 0 reads as "none".
\<close>

datatype messaging_platform = Telegram | Whatsapp | Slack | MicrosoftTeams | TestPlatform

datatype dialog_kind = Private | Group | Unspecified

datatype language = English | Portuguese | Unknown | Unspecified

record 'p party =
  inner :: 'p
  party_id_field :: "u64 option"
  address :: "rstr option"
  party_name :: "rstr option"

record dialog =
  dialog_id_field :: "u64 option"
  kind :: dialog_kind
  language :: language

record ('p, 'm) mo =
  mo_id_field :: "u64 option"
  sender :: "'p party"
  mo_dialog :: dialog
  payload :: 'm

record ('p, 'm) mt =
  edit_id :: "u64 option"
  recipient :: "'p party"
  mt_dialog :: dialog
  mt_payload :: 'm

type_synonym url = rstr

datatype payload =
    Text (pl_text: rstr)
  | Reply (pl_reference_text: rstr) (pl_new_text: rstr)
  | Pin (pl_text: rstr)
  | Photo (pl_url: url) (pl_caption: rstr)
  | Document (pl_url: url) (pl_caption: rstr)

section \<open>Mo\<close>

definition mo_new :: "u64 \<Rightarrow> 'p party \<Rightarrow> dialog \<Rightarrow> 'm \<Rightarrow> ('p, 'm) mo" where
  "mo_new i s d p = \<lparr>mo_id_field = nonzero_new i, sender = s, mo_dialog = d, payload = p\<rparr>"

definition mo_id :: "('p, 'm) mo \<Rightarrow> u64" where
  "mo_id m = nonzero_get (mo_id_field m)"

definition into_payload :: "('p, 'm) mo \<Rightarrow> 'm" where
  "into_payload m = payload m"

section \<open>Party\<close>

definition party_new :: "u64 \<Rightarrow> 'p \<Rightarrow> 'p party" where
  "party_new i p = \<lparr>inner = p, party_id_field = nonzero_new i, address = None, party_name = None\<rparr>"

definition with_address :: "rstr \<Rightarrow> 'p party \<Rightarrow> 'p party" where
  "with_address a p = (let a = trim a in if a \<noteq> [] then p\<lparr>address := Some a\<rparr> else p)"

definition with_name :: "rstr \<Rightarrow> 'p party \<Rightarrow> 'p party" where
  "with_name n p = (let n = trim n in if n \<noteq> [] then p\<lparr>party_name := Some n\<rparr> else p)"

definition party_id :: "'p party \<Rightarrow> u64" where
  "party_id p = nonzero_get (party_id_field p)"

section \<open>Dialog\<close>

definition dialog_new :: "u64 \<Rightarrow> dialog_kind \<Rightarrow> language \<Rightarrow> dialog" where
  "dialog_new i k l = \<lparr>dialog_id_field = nonzero_new i, kind = k, language = l\<rparr>"

definition dialog_id :: "dialog \<Rightarrow> u64" where
  "dialog_id d = nonzero_get (dialog_id_field d)"

section \<open>What construction guarantees\<close>

text \<open>No identifier field ever holds \<open>Some 0\<close> (the type \<open>NonZeroU64\<close> rules it out).\<close>

definition wf_party :: "'p party \<Rightarrow> bool" where
  "wf_party p \<longleftrightarrow> party_id_field p \<noteq> Some 0 \<and>
     (\<forall>a. address p = Some a \<longrightarrow> a \<noteq> [] \<and> trim a = a) \<and>
     (\<forall>n. party_name p = Some n \<longrightarrow> n \<noteq> [] \<and> trim n = n)"

lemma wf_party_new: "wf_party (party_new i p)"
  by (simp add: wf_party_def party_new_def nonzero_new_def)

lemma wf_with_address: "wf_party p \<Longrightarrow> wf_party (with_address a p)"
  by (simp add: wf_party_def with_address_def Let_def)

lemma wf_with_name: "wf_party p \<Longrightarrow> wf_party (with_name n p)"
  by (simp add: wf_party_def with_name_def Let_def)

lemma party_id_simps [simp]:
  "party_id (party_new i p) = i"
  "party_id (with_address a q) = party_id q"
  "party_id (with_name n q) = party_id q"
  by (simp_all add: party_id_def party_new_def with_address_def with_name_def Let_def)

lemma inner_simps [simp]:
  "inner (party_new i p) = p"
  "inner (with_address a q) = inner q"
  "inner (with_name n q) = inner q"
  by (simp_all add: party_new_def with_address_def with_name_def Let_def)

lemma mo_simps [simp]:
  "mo_id (mo_new i s d p) = i"
  "sender (mo_new i s d p) = s"
  "mo_dialog (mo_new i s d p) = d"
  "payload (mo_new i s d p) = p"
  by (simp_all add: mo_id_def mo_new_def)

lemma dialog_simps [simp]:
  "dialog_id (dialog_new i k l) = i"
  "kind (dialog_new i k l) = k"
  "language (dialog_new i k l) = l"
  by (simp_all add: dialog_id_def dialog_new_def)

end
