(* ===== verification/Router.thy ===== *)
theory Router
  imports Messaging "HOL-Library.Multiset" "HOL-Library.AList"
begin

text \<open>
  The per-user router of \<open>src/src/messaging/user_router.rs\<close>.

  \<open>async_channel\<close> is an external crate: its operations are the record \<open>chan_ops\<close>, an
  argument of every definition that uses a channel, and \<open>chan_laws\<close> states its documented
  behaviour (FIFO; \<open>send\<close> fails once the channel is closed; a closed channel still yields
  what it holds). Senders and receivers are handles of shared channels, so the model keeps
  the channels in a store and a \<open>Sender\<close> is an index into it; \<open>HashMap<u64, Sender>\<close> is a
  map from user ids to such indices.
\<close>

section \<open>Channels\<close>

record ('c, 'm) chan_ops =
  ch_new :: 'c
  ch_send :: "'m \<Rightarrow> 'c \<Rightarrow> 'c option"
  ch_recv :: "'c \<Rightarrow> ('m \<times> 'c) option"
  ch_close :: "'c \<Rightarrow> 'c"
  ch_closed :: "'c \<Rightarrow> bool"
  ch_items :: "'c \<Rightarrow> 'm list"

definition chan_laws :: "('c, 'm) chan_ops \<Rightarrow> bool" where
  "chan_laws ops \<longleftrightarrow>
     ch_items ops (ch_new ops) = [] \<and> \<not> ch_closed ops (ch_new ops) \<and>
     (\<forall>m c. ch_closed ops c \<longrightarrow> ch_send ops m c = None) \<and>
     (\<forall>m c. \<not> ch_closed ops c \<longrightarrow>
        (\<exists>c'. ch_send ops m c = Some c' \<and> ch_items ops c' = ch_items ops c @ [m] \<and> \<not> ch_closed ops c')) \<and>
     (\<forall>c. ch_items ops c = [] \<longrightarrow> ch_recv ops c = None) \<and>
     (\<forall>c m ms. ch_items ops c = m # ms \<longrightarrow>
        (\<exists>c'. ch_recv ops c = Some (m, c') \<and> ch_items ops c' = ms \<and> ch_closed ops c' = ch_closed ops c)) \<and>
     (\<forall>c. ch_closed ops (ch_close ops c) \<and> ch_items ops (ch_close ops c) = ch_items ops c)"

text \<open>A channel that satisfies the laws: its buffer and its closed flag.\<close>

definition list_chan :: "('m list \<times> bool, 'm) chan_ops" where
  "list_chan =
     \<lparr>ch_new = ([], False),
      ch_send = (\<lambda>m c. if snd c then None else Some (fst c @ [m], False)),
      ch_recv = (\<lambda>c. case fst c of [] \<Rightarrow> None | m # ms \<Rightarrow> Some (m, (ms, snd c))),
      ch_close = (\<lambda>c. (fst c, True)),
      ch_closed = snd,
      ch_items = fst\<rparr>"

lemma chan_laws_list_chan: "chan_laws list_chan"
  by (auto simp: chan_laws_def list_chan_def)

lemma chan_new [simp]:
  assumes "chan_laws ops"
  shows "ch_items ops (ch_new ops) = []" and "\<not> ch_closed ops (ch_new ops)"
  using assms unfolding chan_laws_def by blast+

lemma chan_close [simp]:
  assumes "chan_laws ops"
  shows "ch_items ops (ch_close ops c) = ch_items ops c" and "ch_closed ops (ch_close ops c)"
  using assms unfolding chan_laws_def by blast+

lemma chan_send_closed: "chan_laws ops \<Longrightarrow> ch_closed ops c \<Longrightarrow> ch_send ops m c = None"
  unfolding chan_laws_def by blast

lemma chan_send_open:
  assumes "chan_laws ops" and "\<not> ch_closed ops c"
  obtains c' where "ch_send ops m c = Some c'" "ch_items ops c' = ch_items ops c @ [m]"
    "\<not> ch_closed ops c'"
  using assms unfolding chan_laws_def by blast

lemma chan_send_Some:
  assumes "chan_laws ops" and "ch_send ops m c = Some c'"
  shows "ch_items ops c' = ch_items ops c @ [m]" and "\<not> ch_closed ops c'" and "\<not> ch_closed ops c"
proof -
  show o: "\<not> ch_closed ops c" using chan_send_closed assms by fastforce
  from assms(1) o obtain d where "ch_send ops m c = Some d" "ch_items ops d = ch_items ops c @ [m]"
    "\<not> ch_closed ops d" by (rule chan_send_open)
  with assms(2) show "ch_items ops c' = ch_items ops c @ [m]" and "\<not> ch_closed ops c'" by simp_all
qed

lemma chan_recv_Cons:
  assumes "chan_laws ops" and "ch_items ops c = m # ms"
  obtains c' where "ch_recv ops c = Some (m, c')" "ch_items ops c' = ms" "ch_closed ops c' = ch_closed ops c"
  using assms unfolding chan_laws_def by blast

lemma chan_recv_None:
  assumes "chan_laws ops"
  shows "(ch_recv ops c = None) = (ch_items ops c = [])"
proof (cases "ch_items ops c")
  case Nil
  with assms show ?thesis unfolding chan_laws_def by blast
next
  case (Cons m ms)
  from chan_recv_Cons [OF assms this] show ?thesis by (metis Cons list.distinct(1) option.distinct(1))
qed

lemma chan_recv_Some:
  assumes "chan_laws ops" and "ch_recv ops c = Some (m, c')"
  shows "ch_items ops c = m # ch_items ops c'" and "ch_closed ops c' = ch_closed ops c"
proof -
  from assms obtain m1 ms where i: "ch_items ops c = m1 # ms"
    using chan_recv_None [OF assms(1), of c] by (cases "ch_items ops c") auto
  obtain d where "ch_recv ops c = Some (m1, d)" "ch_items ops d = ms" "ch_closed ops d = ch_closed ops c"
    using assms(1) i by (rule chan_recv_Cons)
  with assms(2) i show "ch_items ops c = m # ch_items ops c'" and "ch_closed ops c' = ch_closed ops c"
    by simp_all
qed

section \<open>The routing table\<close>

record 'c router =
  per_user_mo_tx :: "(u64 \<times> nat) list"
  chan_store :: "nat \<Rightarrow> 'c"
  next_chan :: nat

datatype dialog_route = Existing (route_tx: nat) | New (route_tx: nat)

record 'p new_dialog_context =
  ctx_user :: "'p party"
  ctx_mo_tx :: nat
  ctx_mo_rx :: nat

text \<open>The map as the code reads it; \<open>AList.update\<close> keeps one entry per user.\<close>

definition route_of :: "'c router \<Rightarrow> u64 \<rightharpoonup> nat" where
  "route_of r = map_of (per_user_mo_tx r)"

lemma route_of_simps [simp]:
  "route_of (r\<lparr>chan_store := st\<rparr>) = route_of r"
  "route_of (r\<lparr>next_chan := n\<rparr>) = route_of r"
  "route_of (r\<lparr>per_user_mo_tx := AList.update u c (per_user_mo_tx r)\<rparr>) = (route_of r)(u \<mapsto> c)"
  "route_of (r\<lparr>per_user_mo_tx := AList.delete u (per_user_mo_tx r)\<rparr>) = (route_of r)(u := None)"
  by (simp_all add: route_of_def update_conv' delete_conv')

definition router_new :: "'c \<Rightarrow> 'c router" where
  "router_new c0 = \<lparr>per_user_mo_tx = [], chan_store = (\<lambda>_. c0), next_chan = 0\<rparr>"

definition user_of :: "('p, 'm) mo \<Rightarrow> u64" where
  "user_of m = party_id (sender m)"

text \<open>The critical section of \<open>route_mo\<close>: look the user up, or open a channel and insert it.\<close>

definition lookup_route :: "('c, ('p, 'm) mo) chan_ops \<Rightarrow> u64 \<Rightarrow> 'c router \<Rightarrow> dialog_route \<times> 'c router" where
  "lookup_route ops uid r =
     (case route_of r uid of
        Some tx \<Rightarrow> (Existing tx, r)
      | None \<Rightarrow>
          (let tx = next_chan r
           in (New tx, r\<lparr>per_user_mo_tx := AList.update uid tx (per_user_mo_tx r),
                         chan_store := (chan_store r)(tx := ch_new ops),
                         next_chan := Suc tx\<rparr>)))"

text \<open>The closure \<open>send_mo\<close>: a failed send closes the channel and hands the message back.\<close>

definition send_mo ::
  "('c, ('p, 'm) mo) chan_ops \<Rightarrow> ('p, 'm) mo \<Rightarrow> nat \<Rightarrow> 'c router \<Rightarrow> (('p, 'm) mo, unit) result \<times> 'c router" where
  "send_mo ops m tx r =
     (case ch_send ops m (chan_store r tx) of
        Some c' \<Rightarrow> (Inr (), r\<lparr>chan_store := (chan_store r)(tx := c')\<rparr>)
      | None \<Rightarrow> (Inl m, r\<lparr>chan_store := (chan_store r)(tx := ch_close ops (chan_store r tx))\<rparr>))"

definition route_mo ::
  "('c, ('p, 'm) mo) chan_ops \<Rightarrow> ('p, 'm) mo \<Rightarrow> 'c router \<Rightarrow> 'p new_dialog_context option \<times> 'c router" where
  "route_mo ops m r =
     (let (route, r1) = lookup_route ops (user_of m) r
      in case route of
           Existing tx \<Rightarrow> (let (_, r2) = send_mo ops m tx r1 in (None, r2))
         | New tx \<Rightarrow> (let (_, r2) = send_mo ops m tx r1
                      in (Some \<lparr>ctx_user = sender m, ctx_mo_tx = tx, ctx_mo_rx = tx\<rparr>, r2)))"

definition close_dialog :: "('c, 'm) chan_ops \<Rightarrow> u64 \<Rightarrow> nat \<Rightarrow> 'c router \<Rightarrow> bool \<times> 'c router" where
  "close_dialog ops uid tx r =
     (let had_dialog_route = route_of r uid \<noteq> None;
          r1 = r\<lparr>per_user_mo_tx := AList.delete uid (per_user_mo_tx r)\<rparr>
      in (had_dialog_route,
          if had_dialog_route
          then r1\<lparr>chan_store := (chan_store r1)(tx := ch_close ops (chan_store r1 tx))\<rparr>
          else r1))"

lemmas router_ops = lookup_route_def send_mo_def route_mo_def close_dialog_def Let_def

section \<open>The table as an interface\<close>

text \<open>
  What the rest of the router relies on: a message opens a dialog exactly when its user has
  no entry, entering leaves the user with an entry and the other users alone, leaving
  removes it.
\<close>

locale dialog_table =
  fixes enter :: "'x \<Rightarrow> 's \<Rightarrow> 'd option \<times> 's"
    and leave :: "u64 \<Rightarrow> nat \<Rightarrow> 's \<Rightarrow> bool \<times> 's"
    and user :: "'x \<Rightarrow> u64"
    and entry :: "'s \<Rightarrow> u64 \<rightharpoonup> nat"
  assumes enter_opens: "(fst (enter x s) = None) = (entry s (user x) \<noteq> None)"
    and enter_dom: "dom (entry (snd (enter x s))) = insert (user x) (dom (entry s))"
    and enter_keeps: "entry s v = Some c \<Longrightarrow> entry (snd (enter x s)) v = Some c"
    and leave_reports: "fst (leave v c s) = (entry s v \<noteq> None)"
    and leave_entry: "entry (snd (leave v c s)) = (entry s)(v := None)"
begin

fun enter_all :: "'x list \<Rightarrow> 's \<Rightarrow> 'd option list \<times> 's" where
  "enter_all [] s = ([], s)"
| "enter_all (x # xs) s =
     (let (d, s1) = enter x s; (ds, s2) = enter_all xs s1 in (d # ds, s2))"

lemma dom_enter_all: "dom (entry (snd (enter_all xs s))) = user ` set xs \<union> dom (entry s)"
  by (induction xs arbitrary: s) (auto simp: Let_def case_prod_beta enter_dom)

text \<open>A surge of messages opens one dialog for each user that had none, whatever its order.\<close>

lemma opened_count:
  "length (filter (\<lambda>d. d \<noteq> None) (fst (enter_all xs s))) = card (user ` set xs - dom (entry s))"
proof (induction xs arbitrary: s)
  case Nil
  then show ?case by simp
next
  case (Cons x xs)
  let ?s1 = "snd (enter x s)"
  have "user ` set (x # xs) - dom (entry s) =
    (if entry s (user x) = None then insert (user x) (user ` set xs - dom (entry ?s1))
     else user ` set xs - dom (entry ?s1))"
    by (auto simp: enter_dom)
  moreover have "finite (user ` set xs - dom (entry ?s1))" "user x \<notin> user ` set xs - dom (entry ?s1)"
    by (auto simp: enter_dom)
  ultimately show ?case
    using Cons [of ?s1] by (simp add: Let_def case_prod_beta enter_opens del: image_insert not_None_eq)
qed

lemma reenter_after_leave: "fst (enter x (snd (leave (user x) c s))) \<noteq> None"
  by (simp add: enter_opens leave_entry)

end

interpretation table: dialog_table "route_mo ops" "close_dialog ops" user_of route_of
  by unfold_locales
     (auto simp: router_ops case_prod_beta split: option.splits dialog_route.splits if_splits)

text \<open>\<open>for_each(route_mo)\<close> over a batch of messages, with what each call returned.\<close>

fun route_all ::
  "('c, ('p, 'm) mo) chan_ops \<Rightarrow> ('p, 'm) mo list \<Rightarrow> 'c router \<Rightarrow> 'p new_dialog_context option list \<times> 'c router" where
  "route_all ops [] r = ([], r)"
| "route_all ops (m # ms) r =
     (let (d, r1) = route_mo ops m r; (ds, r2) = route_all ops ms r1 in (d # ds, r2))"

lemma route_all_eq: "route_all ops ms r = table.enter_all ops ms r"
  by (induction ms arbitrary: r) (simp_all add: Let_def case_prod_beta)

end
