(* ===== verification/RouterSystem.thy ===== *)
theory RouterSystem
  imports Router
begin

text \<open>
  The tasks of \<open>src/src/messaging/user_router.rs\<close> running together: the global routing
  task (a \<open>for_each\<close>, so one message at a time, but its map lookup and its channel send
  are separate steps), one dialog processor task per opened dialog, the bounded channel of
  mobile-terminated messages, and the shut-down of \<open>start\<close>, which may come at any moment once
  no message is on its way (when it comes is the subject of \<open>RouterGuarantees\<close>). A step of the relation
  is what a task does between two awaits; the interleaving is arbitrary. The dialog
  processor itself (\<open>UserMoProcessor::process\<close>) is a parameter: a function from the
  messages it has received to the messages it has produced.
\<close>

section \<open>State\<close>

datatype phase = Running | TimedOut | Ending | Dropped | Finished

record ('p, 'm, 't) dialog_task =
  dt_user :: "'p party"
  dt_tx :: nat
  dt_phase :: phase
  dt_received :: "('p, 'm) mo list"
  dt_sent :: nat
  dt_forwarded :: "'t list"

record ('c, 'd, 'p, 'm, 't) system =
  sys_router :: "'c router"
  inbox :: "('p, 'm) mo list"
  in_flight :: "(('p, 'm) mo \<times> dialog_route) option"
  tasks :: "('p, 'm, 't) dialog_task list"
  mt_chan :: 'd
  routed :: "('p, 'm) mo list"
  lost :: "('p, 'm) mo list"

definition mt_capacity :: nat where
  "mt_capacity = 64"

definition start_system ::
  "('c, ('p, 'm) mo) chan_ops \<Rightarrow> ('d, 't) chan_ops \<Rightarrow> ('p, 'm) mo list \<Rightarrow> ('c, 'd, 'p, 'm, 't) system" where
  "start_system ops mops ms =
     \<lparr>sys_router = router_new (ch_new ops), inbox = ms, in_flight = None, tasks = [],
      mt_chan = ch_new mops, routed = [], lost = []\<rparr>"

definition task_new :: "'p party \<Rightarrow> nat \<Rightarrow> ('p, 'm, 't) dialog_task" where
  "task_new u tx =
     \<lparr>dt_user = u, dt_tx = tx, dt_phase = Running, dt_received = [], dt_sent = 0, dt_forwarded = []\<rparr>"

definition task_uid :: "('p, 'm, 't) dialog_task \<Rightarrow> u64" where
  "task_uid d = party_id (dt_user d)"

definition set_task ::
  "nat \<Rightarrow> ('p, 'm, 't) dialog_task \<Rightarrow> ('c, 'd, 'p, 'm, 't) system \<Rightarrow> ('c, 'd, 'p, 'm, 't) system" where
  "set_task i d s = s\<lparr>tasks := (tasks s)[i := d]\<rparr>"

definition task_chan :: "('c, 'd, 'p, 'm, 't) system \<Rightarrow> ('p, 'm, 't) dialog_task \<Rightarrow> 'c" where
  "task_chan s d = chan_store (sys_router s) (dt_tx d)"

text \<open>After a send: the routing task is free again, and a message that came back is dropped.\<close>

definition after_send ::
  "('p, 'm) mo \<Rightarrow> (('p, 'm) mo, unit) result \<times> 'c router \<Rightarrow> ('c, 'd, 'p, 'm, 't) system \<Rightarrow> ('c, 'd, 'p, 'm, 't) system" where
  "after_send m res s =
     s\<lparr>sys_router := snd res, in_flight := None, routed := routed s @ [m],
       lost := (case fst res of Inl m' \<Rightarrow> lost s @ [m'] | Inr _ \<Rightarrow> lost s)\<rparr>"

text \<open>One item of \<open>user_mt_stream.for_each\<close>: a failed send is logged and the loop goes on.\<close>

definition forward_mt ::
  "('d, 't) chan_ops \<Rightarrow> 't \<Rightarrow> nat \<Rightarrow> ('p, 'm, 't) dialog_task \<Rightarrow> ('c, 'd, 'p, 'm, 't) system \<Rightarrow> ('c, 'd, 'p, 'm, 't) system" where
  "forward_mt mops t i d s =
     (case ch_send mops t (mt_chan s) of
        Some c' \<Rightarrow> set_task i (d\<lparr>dt_sent := Suc (dt_sent d), dt_forwarded := dt_forwarded d @ [t]\<rparr>) (s\<lparr>mt_chan := c'\<rparr>)
      | None \<Rightarrow> set_task i (d\<lparr>dt_sent := Suc (dt_sent d)\<rparr>) s)"

text \<open>The one receiver of a dialog's channel is dropped, which closes the channel.\<close>

definition drop_rx ::
  "('c, ('p, 'm) mo) chan_ops \<Rightarrow> phase \<Rightarrow> nat \<Rightarrow> ('p, 'm, 't) dialog_task \<Rightarrow> ('c, 'd, 'p, 'm, 't) system \<Rightarrow> ('c, 'd, 'p, 'm, 't) system" where
  "drop_rx ops p i d s =
     set_task i (d\<lparr>dt_phase := p\<rparr>)
       (s\<lparr>sys_router := (sys_router s)\<lparr>chan_store :=
          (chan_store (sys_router s))(dt_tx d := ch_close ops (task_chan s d))\<rparr>\<rparr>)"

text \<open>\<open>for mo_tx in per_user_mo_tx.values() { mo_tx.close() }\<close>\<close>

definition close_all :: "('c, 'm) chan_ops \<Rightarrow> 'c router \<Rightarrow> 'c router" where
  "close_all ops r =
     r\<lparr>chan_store := foldl (\<lambda>st (u, c). st(c := ch_close ops (st c))) (chan_store r) (per_user_mo_tx r)\<rparr>"

section \<open>Steps\<close>

text \<open>
  A processor reads its stream until it ends, or stops before that, whenever it likes
  (\<open>stop_reading\<close>: its own stream may end early, or it may drop its input and go on
  producing). When its stream has ended and everything it produced is forwarded, \<open>for_each\<close>
  returns and drops the stream with the receiver inside (\<open>drop_receiver\<close>); only then, after
  waiting for the lock, is the dialog closed (\<open>finish\<close>).
\<close>

inductive step ::
  "('c, ('p, 'm) mo) chan_ops \<Rightarrow> ('d, 't) chan_ops \<Rightarrow> (('p, 'm) mo list \<Rightarrow> 't list) \<Rightarrow>
   ('c, 'd, 'p, 'm, 't) system \<Rightarrow> ('c, 'd, 'p, 'm, 't) system \<Rightarrow> bool"
  for ops mops proc
where
  lookup: "inbox s = m # rest \<Longrightarrow> in_flight s = None \<Longrightarrow>
     lookup_route ops (user_of m) (sys_router s) = (route, r') \<Longrightarrow>
     step ops mops proc s (s\<lparr>inbox := rest, in_flight := Some (m, route), sys_router := r'\<rparr>)"
| send_existing: "in_flight s = Some (m, Existing tx) \<Longrightarrow>
     step ops mops proc s (after_send m (send_mo ops m tx (sys_router s)) s)"
| send_new: "in_flight s = Some (m, New tx) \<Longrightarrow>
     step ops mops proc s
       ((after_send m (send_mo ops m tx (sys_router s)) s)\<lparr>tasks := tasks s @ [task_new (sender m) tx]\<rparr>)"
| receive: "i < length (tasks s) \<Longrightarrow> d = tasks s ! i \<Longrightarrow> dt_phase d = Running \<Longrightarrow>
     ch_recv ops (task_chan s d) = Some (m, c') \<Longrightarrow>
     step ops mops proc s
       (set_task i (d\<lparr>dt_received := dt_received d @ [m]\<rparr>)
         (s\<lparr>sys_router := (sys_router s)\<lparr>chan_store := (chan_store (sys_router s))(dt_tx d := c')\<rparr>\<rparr>))"
| idle_timeout: "i < length (tasks s) \<Longrightarrow> d = tasks s ! i \<Longrightarrow> dt_phase d = Running \<Longrightarrow>
     ch_recv ops (task_chan s d) = None \<Longrightarrow> \<not> ch_closed ops (task_chan s d) \<Longrightarrow>
     step ops mops proc s (set_task i (d\<lparr>dt_phase := TimedOut\<rparr>) s)"
| close_idle: "i < length (tasks s) \<Longrightarrow> d = tasks s ! i \<Longrightarrow> dt_phase d = TimedOut \<Longrightarrow>
     step ops mops proc s
       (set_task i (d\<lparr>dt_phase := Ending\<rparr>)
         (s\<lparr>sys_router := snd (close_dialog ops (task_uid d) (dt_tx d) (sys_router s))\<rparr>))"
| stream_end: "i < length (tasks s) \<Longrightarrow> d = tasks s ! i \<Longrightarrow> dt_phase d = Running \<Longrightarrow>
     ch_recv ops (task_chan s d) = None \<Longrightarrow> ch_closed ops (task_chan s d) \<Longrightarrow>
     step ops mops proc s (set_task i (d\<lparr>dt_phase := Ending\<rparr>) s)"
| forward: "i < length (tasks s) \<Longrightarrow> d = tasks s ! i \<Longrightarrow> dt_sent d < length (proc (dt_received d)) \<Longrightarrow>
     ch_closed mops (mt_chan s) \<or> length (ch_items mops (mt_chan s)) < mt_capacity \<Longrightarrow>
     step ops mops proc s (forward_mt mops (proc (dt_received d) ! dt_sent d) i d s)"
| stop_reading: "i < length (tasks s) \<Longrightarrow> d = tasks s ! i \<Longrightarrow> dt_phase d \<in> {Running, TimedOut} \<Longrightarrow>
     step ops mops proc s (drop_rx ops Ending i d s)"
| drop_receiver: "i < length (tasks s) \<Longrightarrow> d = tasks s ! i \<Longrightarrow> dt_phase d = Ending \<Longrightarrow>
     dt_sent d = length (proc (dt_received d)) \<Longrightarrow>
     step ops mops proc s (drop_rx ops Dropped i d s)"
| finish: "i < length (tasks s) \<Longrightarrow> d = tasks s ! i \<Longrightarrow> dt_phase d = Dropped \<Longrightarrow>
     step ops mops proc s
       (set_task i (d\<lparr>dt_phase := Finished\<rparr>)
         (s\<lparr>sys_router := snd (close_dialog ops (task_uid d) (dt_tx d) (sys_router s))\<rparr>))"
| consume_mt: "ch_recv mops (mt_chan s) = Some (t, c') \<Longrightarrow>
     step ops mops proc s (s\<lparr>mt_chan := c'\<rparr>)"
| shut_down: "inbox s = [] \<Longrightarrow> in_flight s = None \<Longrightarrow>
     step ops mops proc s
       (s\<lparr>sys_router := close_all ops (sys_router s), mt_chan := ch_close mops (mt_chan s)\<rparr>)"

inductive reachable ::
  "('c, ('p, 'm) mo) chan_ops \<Rightarrow> ('d, 't) chan_ops \<Rightarrow> (('p, 'm) mo list \<Rightarrow> 't list) \<Rightarrow>
   ('p, 'm) mo list \<Rightarrow> ('c, 'd, 'p, 'm, 't) system \<Rightarrow> bool"
  for ops mops proc ms
where
  start: "reachable ops mops proc ms (start_system ops mops ms)"
| more: "reachable ops mops proc ms s \<Longrightarrow> step ops mops proc s t \<Longrightarrow> reachable ops mops proc ms t"

lemmas sys_defs = start_system_def task_new_def task_uid_def set_task_def task_chan_def
  after_send_def forward_mt_def

section \<open>The invariant\<close>

text \<open>
  What a dialog holds is what it has received followed by what waits in its channel. The
  invariant speaks of the list of views (channel, user, held messages) of the tasks, which
  most steps leave as it is.
\<close>

definition held :: "('c, ('p, 'm) mo) chan_ops \<Rightarrow> 'c router \<Rightarrow> ('p, 'm, 't) dialog_task \<Rightarrow> ('p, 'm) mo list" where
  "held ops r d = dt_received d @ ch_items ops (chan_store r (dt_tx d))"

definition view_of :: "('c, ('p, 'm) mo) chan_ops \<Rightarrow> 'c router \<Rightarrow> ('p, 'm, 't) dialog_task \<Rightarrow> nat \<times> u64 \<times> ('p, 'm) mo list" where
  "view_of ops r d = (dt_tx d, task_uid d, held ops r d)"

definition views :: "('c, ('p, 'm) mo) chan_ops \<Rightarrow> ('c, 'd, 'p, 'm, 't) system \<Rightarrow> (nat \<times> u64 \<times> ('p, 'm) mo list) list" where
  "views ops s = map (view_of ops (sys_router s)) (tasks s)"

definition flight_ok ::
  "(nat \<times> u64 \<times> ('p, 'm) mo list) list \<Rightarrow> nat \<Rightarrow> (('p, 'm) mo \<times> dialog_route) option \<Rightarrow> ('c, ('p, 'm) mo) chan_ops \<Rightarrow> 'c router \<Rightarrow> bool" where
  "flight_ok vs n fl ops r =
     (case fl of
        None \<Rightarrow> True
      | Some (m, Existing c) \<Rightarrow> (\<exists>h. (c, user_of m, h) \<in> set vs)
      | Some (m, New c) \<Rightarrow> c < n \<and> c \<notin> fst ` set vs \<and> ch_items ops (chan_store r c) = [])"

definition table_ok ::
  "(nat \<times> u64 \<times> ('p, 'm) mo list) list \<Rightarrow> (u64 \<rightharpoonup> nat) \<Rightarrow> (('p, 'm) mo \<times> dialog_route) option \<Rightarrow> bool" where
  "table_ok vs tbl fl \<longleftrightarrow>
     (\<forall>u c. tbl u = Some c \<longrightarrow>
        (\<exists>h. (c, u, h) \<in> set vs) \<or> (\<exists>m. fl = Some (m, New c) \<and> user_of m = u))"

definition views_ok ::
  "(nat \<times> u64 \<times> ('p, 'm) mo list) list \<Rightarrow> nat \<Rightarrow> ('p, 'm) mo list \<Rightarrow> ('p, 'm) mo list \<Rightarrow> bool" where
  "views_ok vs n done gone \<longleftrightarrow>
     distinct (map fst vs) \<and>
     (\<forall>(c, u, h) \<in> set vs. c < n \<and> subseq h (filter (\<lambda>m. user_of m = u) done)) \<and>
     mset done = mset gone + (\<Sum>(c, u, h) \<leftarrow> vs. mset h)"

definition sys_inv :: "('c, ('p, 'm) mo) chan_ops \<Rightarrow> ('c, 'd, 'p, 'm, 't) system \<Rightarrow> bool" where
  "sys_inv ops s \<longleftrightarrow>
     views_ok (views ops s) (next_chan (sys_router s)) (routed s) (lost s) \<and>
     table_ok (views ops s) (route_of (sys_router s)) (in_flight s) \<and>
     flight_ok (views ops s) (next_chan (sys_router s)) (in_flight s) ops (sys_router s)"

lemma sys_inv_quiet:
  assumes "sys_inv ops s" and "views ops t = views ops s"
    and "next_chan (sys_router t) = next_chan (sys_router s)"
    and "\<And>u c. route_of (sys_router t) u = Some c \<Longrightarrow> route_of (sys_router s) u = Some c"
    and "in_flight t = in_flight s" and "routed t = routed s" and "lost t = lost s"
    and "\<And>m c. in_flight s = Some (m, New c) \<Longrightarrow>
      ch_items ops (chan_store (sys_router t) c) = ch_items ops (chan_store (sys_router s) c)"
  shows "sys_inv ops t"
proof -
  have "flight_ok (views ops t) (next_chan (sys_router t)) (in_flight t) ops (sys_router t)"
    using assms by (auto simp: sys_inv_def flight_ok_def split: option.splits dialog_route.splits)
  moreover have "table_ok (views ops t) (route_of (sys_router t)) (in_flight t)"
    using assms unfolding sys_inv_def table_ok_def by metis
  ultimately show ?thesis
    using assms by (simp add: sys_inv_def)
qed

lemma views_update:
  assumes "i < length ts" and "view_of ops r' d' = view_of ops r (ts ! i)"
    and "\<And>j. j < length ts \<Longrightarrow> j \<noteq> i \<Longrightarrow> view_of ops r' (ts ! j) = view_of ops r (ts ! j)"
  shows "map (view_of ops r') (ts[i := d']) = map (view_of ops r) ts"
  using assms by (auto intro!: nth_equalityI simp: nth_list_update)

lemma view_of_items:
  "(\<And>c. ch_items ops (chan_store r' c) = ch_items ops (chan_store r c)) \<Longrightarrow> view_of ops r' d = view_of ops r d"
  by (simp add: view_of_def held_def)

lemma close_dialog_items [simp]:
  "chan_laws ops \<Longrightarrow>
   ch_items ops (chan_store (snd (close_dialog ops u c r)) c') = ch_items ops (chan_store r c')"
  by (simp add: close_dialog_def Let_def)

lemma close_dialog_table:
  "route_of (snd (close_dialog ops u c r)) = (route_of r)(u := None)"
  "next_chan (snd (close_dialog ops u c r)) = next_chan r"
  by (simp_all add: close_dialog_def Let_def)

lemma view_of_phase [simp]:
  "view_of ops r (d\<lparr>dt_phase := p\<rparr>) = view_of ops r d"
  "view_of ops r (d\<lparr>dt_sent := n\<rparr>) = view_of ops r d"
  "view_of ops r (d\<lparr>dt_forwarded := f\<rparr>) = view_of ops r d"
  by (simp_all add: view_of_def held_def task_uid_def)

lemma sys_inv_distinct: "sys_inv ops s \<Longrightarrow> distinct (map dt_tx (tasks s))"
  by (simp add: sys_inv_def views_ok_def views_def view_of_def comp_def)

text \<open>A closed or shortened route table, and a task that changes only its own progress.\<close>

lemma inv_close_task:
  assumes "chan_laws ops" "sys_inv ops s" "i < length (tasks s)"
  shows "sys_inv ops (set_task i ((tasks s ! i)\<lparr>dt_phase := p\<rparr>)
    (s\<lparr>sys_router := snd (close_dialog ops u c (sys_router s))\<rparr>))"
  using assms
  by (intro sys_inv_quiet [OF assms(2)])
     (auto simp: views_def set_task_def close_dialog_table intro!: views_update view_of_items split: if_splits)

lemma inv_receive:
  assumes laws: "chan_laws ops" and inv: "sys_inv ops s" and i: "i < length (tasks s)"
    and d: "d = tasks s ! i" and rc: "ch_recv ops (task_chan s d) = Some (m, c')"
  shows "sys_inv ops (set_task i (d\<lparr>dt_received := dt_received d @ [m]\<rparr>)
    (s\<lparr>sys_router := (sys_router s)\<lparr>chan_store := (chan_store (sys_router s))(dt_tx d := c')\<rparr>\<rparr>))"
    (is "sys_inv ops ?t")
proof (rule sys_inv_quiet [OF inv])
  have other: "dt_tx (tasks s ! j) \<noteq> dt_tx d" if "j < length (tasks s)" "j \<noteq> i" for j
    using sys_inv_distinct [OF inv] that i d by (auto simp: distinct_conv_nth)
  have "ch_items ops (task_chan s d) = m # ch_items ops c'"
    by (rule chan_recv_Some(1) [OF laws rc])
  then show "views ops ?t = views ops s"
    unfolding views_def set_task_def using i d other
    by (simp, intro views_update) (auto simp: view_of_def held_def task_uid_def task_chan_def)
next
  fix m' c
  assume "in_flight s = Some (m', New c)"
  moreover have "dt_tx d \<in> fst ` set (views ops s)"
    using i d by (auto simp: views_def view_of_def image_iff intro!: bexI [of _ "tasks s ! i"])
  ultimately show "ch_items ops (chan_store (sys_router ?t) c) = ch_items ops (chan_store (sys_router s) c)"
    using inv by (auto simp: sys_inv_def flight_ok_def set_task_def)
qed (auto simp: set_task_def)

lemma inv_drop_rx:
  assumes "chan_laws ops" "sys_inv ops s" "i < length (tasks s)"
  shows "sys_inv ops (drop_rx ops p i (tasks s ! i) s)"
  using assms
  by (intro sys_inv_quiet [OF assms(2)])
     (auto simp: views_def set_task_def drop_rx_def task_chan_def intro!: views_update view_of_items split: if_splits)

lemma inv_forward:
  assumes "sys_inv ops s" "i < length (tasks s)"
  shows "sys_inv ops (forward_mt mops t i (tasks s ! i) s)"
  using assms
  by (intro sys_inv_quiet [OF assms(1)])
     (auto simp: views_def set_task_def forward_mt_def intro!: views_update split: option.splits)

lemma close_all_frame [simp]:
  "route_of (close_all ops r) = route_of r"
  "next_chan (close_all ops r) = next_chan r"
  by (simp_all add: close_all_def)

lemma close_all_items [simp]:
  assumes "chan_laws ops"
  shows "ch_items ops (chan_store (close_all ops r) c) = ch_items ops (chan_store r c)"
proof -
  have "ch_items ops (foldl (\<lambda>st (u, c). st(c := ch_close ops (st c))) st al c) = ch_items ops (st c)" for st al
    using assms by (induction al arbitrary: st) auto
  then show ?thesis by (simp add: close_all_def)
qed

lemma inv_close_all:
  assumes "chan_laws ops" "sys_inv ops s"
  shows "sys_inv ops (s\<lparr>sys_router := close_all ops (sys_router s), mt_chan := c\<rparr>)"
  using assms
  by (intro sys_inv_quiet [OF assms(2)]) (auto simp: views_def intro!: view_of_items)

text \<open>Looking a route up: a fresh channel is held by no task.\<close>

lemma inv_lookup:
  assumes laws: "chan_laws ops" and inv: "sys_inv ops s" and none: "in_flight s = None"
    and lk: "lookup_route ops (user_of m) (sys_router s) = (route, r')"
  shows "sys_inv ops (s\<lparr>inbox := rest, in_flight := Some (m, route), sys_router := r'\<rparr>)"
proof (cases "route_of (sys_router s) (user_of m)")
  case (Some c)
  with lk have "route = Existing c" "r' = sys_router s"
    by (auto simp: lookup_route_def)
  with Some inv none show ?thesis
    by (auto simp: sys_inv_def views_def table_ok_def flight_ok_def)
next
  case None
  let ?c = "next_chan (sys_router s)"
  from None lk have route: "route = New ?c"
    and r': "r' = (sys_router s)\<lparr>per_user_mo_tx := AList.update (user_of m) ?c (per_user_mo_tx (sys_router s)),
      chan_store := (chan_store (sys_router s))(?c := ch_new ops), next_chan := Suc ?c\<rparr>"
    by (auto simp: lookup_route_def Let_def)
  have lt: "\<forall>d \<in> set (tasks s). dt_tx d < ?c"
    using inv by (auto simp: sys_inv_def views_ok_def views_def view_of_def)
  let ?t = "s\<lparr>inbox := rest, in_flight := Some (m, route), sys_router := r'\<rparr>"
  have vs: "views ops ?t = views ops s"
    using lt by (auto simp: views_def r' view_of_def held_def)
  have ok: "views_ok (views ops s) ?c (routed s) (lost s)" "table_ok (views ops s) (route_of (sys_router s)) None"
    using inv none by (auto simp: sys_inv_def)
  from ok(1) have fresh: "?c \<notin> fst ` set (views ops s)"
    by (auto simp: views_ok_def)
  have "views_ok (views ops s) (Suc ?c) (routed s) (lost s)"
    using ok(1) by (auto simp: views_ok_def)
  moreover have "table_ok (views ops s) (route_of r') (Some (m, route))"
    using ok(2) by (auto simp: table_ok_def route r')
  moreover have "flight_ok (views ops s) (Suc ?c) (Some (m, route)) ops r'"
    using fresh laws by (simp add: flight_ok_def route r')
  ultimately show ?thesis
    unfolding sys_inv_def vs by (simp add: r')
qed

text \<open>
  Sending: the held messages of the one task that owns the channel grow by the message, or
  the message is lost.
\<close>

lemma send_mo_cases:
  assumes "chan_laws ops"
  obtains "\<not> ch_closed ops (chan_store r c)" "fst (send_mo ops m c r) = Inr ()"
      "ch_items ops (chan_store (snd (send_mo ops m c r)) c) = ch_items ops (chan_store r c) @ [m]"
  | "ch_closed ops (chan_store r c)" "fst (send_mo ops m c r) = Inl m"
      "ch_items ops (chan_store (snd (send_mo ops m c r)) c) = ch_items ops (chan_store r c)"
proof (cases "ch_send ops m (chan_store r c)")
  case None
  then have "ch_closed ops (chan_store r c)"
    using chan_send_open [OF assms] by (metis option.distinct(1))
  with None assms that(2) show ?thesis by (simp add: send_mo_def)
next
  case (Some c')
  with chan_send_Some [OF assms Some] that(1) show ?thesis by (simp add: send_mo_def)
qed

lemma send_mo_frame [simp]:
  "route_of (snd (send_mo ops m c r)) = route_of r"
  "next_chan (snd (send_mo ops m c r)) = next_chan r"
  "c' \<noteq> c \<Longrightarrow> chan_store (snd (send_mo ops m c r)) c' = chan_store r c'"
  by (simp_all add: send_mo_def split: option.splits)

lemma subseq_filter_snoc: "subseq h (filter P xs) \<Longrightarrow> subseq h (filter P (xs @ ys))"
  using list_emb_append_mono [of "(=)" h "filter P xs" "[]" "filter P ys"] by simp

lemma held_ok_snoc:
  assumes "\<forall>(c, u, h) \<in> S. c < n \<and> subseq h (filter (\<lambda>m. user_of m = u) ms)"
  shows "\<forall>(c, u, h) \<in> S. c < n \<and> subseq h (filter (\<lambda>m. user_of m = u) (ms @ ms'))"
proof (clarify)
  fix c u h
  assume "(c, u, h) \<in> S"
  with assms have "c < n" and "subseq h (filter (\<lambda>m. user_of m = u) ms)" by auto
  then show "c < n \<and> subseq h (filter (\<lambda>m. user_of m = u) (ms @ ms'))"
    by (intro conjI subseq_filter_snoc)
qed

lemma views_ok_append:
  assumes "views_ok (vs1 @ (c, u, h) # vs2) n done gone" and "user_of m = u"
  shows "views_ok (vs1 @ (c, u, h @ [m]) # vs2) n (done @ [m]) gone"
proof -
  have "subseq h (filter (\<lambda>m. user_of m = u) done)"
    using assms(1) by (simp add: views_ok_def)
  from list_emb_append_mono [OF this, of "[m]" "[m]"] assms(2)
  have "subseq (h @ [m]) (filter (\<lambda>m. user_of m = u) (done @ [m]))"
    by simp
  moreover have "\<forall>(c, u, h) \<in> set (vs1 @ vs2). c < n \<and> subseq h (filter (\<lambda>m. user_of m = u) (done @ [m]))"
    using assms(1) by (intro held_ok_snoc) (auto simp: views_ok_def)
  ultimately show ?thesis
    using assms(1) by (simp add: views_ok_def)
qed

lemma views_ok_lose:
  assumes "views_ok vs n done gone"
  shows "views_ok vs n (done @ [m]) (gone @ [m])"
proof -
  have "\<forall>(c, u, h) \<in> set vs. c < n \<and> subseq h (filter (\<lambda>m. user_of m = u) (done @ [m]))"
    using assms by (intro held_ok_snoc) (auto simp: views_ok_def)
  with assms show ?thesis by (simp add: views_ok_def)
qed

lemma views_ok_add:
  assumes "views_ok vs n done gone" and "c < n" "c \<notin> fst ` set vs"
  shows "views_ok (vs @ [(c, u, [])]) n done gone"
  using assms by (simp add: views_ok_def)

definition sent_part :: "('m, unit) result \<Rightarrow> 'm \<Rightarrow> 'm list" where
  "sent_part res m = (case res of Inl _ \<Rightarrow> [] | Inr _ \<Rightarrow> [m])"

lemma send_mo_items:
  assumes "chan_laws ops"
  shows "ch_items ops (chan_store (snd (send_mo ops m c r)) c) =
    ch_items ops (chan_store r c) @ sent_part (fst (send_mo ops m c r)) m"
  using assms by (cases rule: send_mo_cases [of ops r c m]) (auto simp: sent_part_def)

lemma send_mo_fst: "fst (send_mo ops m c r) = Inr () \<or> fst (send_mo ops m c r) = Inl m"
  by (simp add: send_mo_def split: option.splits)

lemma view_of_send:
  assumes "chan_laws ops"
  shows "view_of ops (snd (send_mo ops m c r)) d =
    (dt_tx d, task_uid d, held ops r d @ (if dt_tx d = c then sent_part (fst (send_mo ops m c r)) m else []))"
  using send_mo_items [OF assms, of m c r] by (auto simp: view_of_def held_def)

lemma views_send:
  assumes laws: "chan_laws ops" and dist: "distinct (map fst (map (view_of ops r) ts))"
    and mem: "(c, u, h) \<in> set (map (view_of ops r) ts)"
  obtains vs1 vs2 where "map (view_of ops r) ts = vs1 @ (c, u, h) # vs2"
    and "map (view_of ops (snd (send_mo ops m c r))) ts =
      vs1 @ (c, u, h @ sent_part (fst (send_mo ops m c r)) m) # vs2"
proof -
  from mem obtain d where d: "d \<in> set ts" "view_of ops r d = (c, u, h)" by auto
  then obtain ts1 ts2 where ts: "ts = ts1 @ d # ts2" by (auto dest: split_list)
  from d have c: "dt_tx d = c" "task_uid d = u" "held ops r d = h" by (auto simp: view_of_def)
  have "\<forall>e \<in> set ts1 \<union> set ts2. dt_tx e \<noteq> c"
    using dist c by (simp add: ts view_of_def comp_def) (metis UnE image_eqI)
  then have "\<forall>e \<in> set ts1 \<union> set ts2. view_of ops (snd (send_mo ops m c r)) e = view_of ops r e"
    by (auto simp: view_of_def held_def)
  moreover have "view_of ops (snd (send_mo ops m c r)) d = (c, u, h @ sent_part (fst (send_mo ops m c r)) m)"
    using c by (simp add: view_of_send [OF laws])
  ultimately show ?thesis
    using d by (intro that [of "map (view_of ops r) ts1" "map (view_of ops r) ts2"]) (auto simp: ts)
qed

lemma views_ok_send:
  assumes "views_ok (vs1 @ (c, u, h) # vs2) n done gone" and "user_of m = u"
    and "res = Inr () \<or> res = Inl m"
  shows "views_ok (vs1 @ (c, u, h @ sent_part res m) # vs2) n (done @ [m])
    (case res of Inl m' \<Rightarrow> gone @ [m'] | Inr _ \<Rightarrow> gone)"
  using assms views_ok_append [OF assms(1,2)] views_ok_lose [OF assms(1)]
  by (auto simp: sent_part_def)

lemma table_ok_mono:
  assumes "table_ok vs tbl fl"
    and "\<And>c u h. (c, u, h) \<in> set vs \<Longrightarrow> \<exists>h'. (c, u, h') \<in> set vs'"
    and "\<And>c m. fl = Some (m, New c) \<Longrightarrow> \<exists>h'. (c, user_of m, h') \<in> set vs'"
  shows "table_ok vs' tbl None"
  unfolding table_ok_def
proof (intro allI impI)
  fix u c
  assume "tbl u = Some c"
  with assms(1) consider h where "(c, u, h) \<in> set vs" | m where "fl = Some (m, New c)" "user_of m = u"
    unfolding table_ok_def by blast
  then show "(\<exists>h. (c, u, h) \<in> set vs') \<or> (\<exists>m. None = Some (m, New c) \<and> user_of m = u)"
    by cases (use assms(2,3) in blast)+
qed

lemma inv_send_existing:
  assumes laws: "chan_laws ops" and inv: "sys_inv ops s" and fl: "in_flight s = Some (m, Existing c)"
  shows "sys_inv ops (after_send m (send_mo ops m c (sys_router s)) s)" (is "sys_inv ops ?t")
proof -
  let ?r = "sys_router s" and ?res = "fst (send_mo ops m c (sys_router s))"
  from inv fl obtain h where h: "(c, user_of m, h) \<in> set (views ops s)"
    by (auto simp: sys_inv_def flight_ok_def)
  have dist: "distinct (map fst (views ops s))" and ok: "views_ok (views ops s) (next_chan ?r) (routed s) (lost s)"
    using inv by (auto simp: sys_inv_def views_ok_def)
  obtain vs1 vs2 where v: "views ops s = vs1 @ (c, user_of m, h) # vs2"
    and v': "map (view_of ops (snd (send_mo ops m c ?r))) (tasks s) = vs1 @ (c, user_of m, h @ sent_part ?res m) # vs2"
    using views_send [OF laws dist [unfolded views_def] h [unfolded views_def], of m]
    unfolding views_def by blast
  have vt: "views ops ?t = vs1 @ (c, user_of m, h @ sent_part ?res m) # vs2"
    by (simp add: views_def after_send_def v')
  have "views_ok (views ops ?t) (next_chan ?r) (routed s @ [m])
      (case ?res of Inl m' \<Rightarrow> lost s @ [m'] | Inr _ \<Rightarrow> lost s)"
    unfolding vt by (rule views_ok_send [OF ok [unfolded v] refl send_mo_fst])
  moreover have "table_ok (views ops ?t) (route_of ?r) None"
    using inv fl by (intro table_ok_mono [of "views ops s" _ "in_flight s"]) (auto simp: sys_inv_def vt v)
  ultimately show ?thesis
    by (simp add: sys_inv_def after_send_def flight_ok_def views_def)
qed

lemma inv_send_new:
  assumes laws: "chan_laws ops" and inv: "sys_inv ops s" and fl: "in_flight s = Some (m, New c)"
  shows "sys_inv ops ((after_send m (send_mo ops m c (sys_router s)) s)\<lparr>tasks := tasks s @ [task_new (sender m) c]\<rparr>)"
    (is "sys_inv ops ?t")
proof -
  let ?r = "sys_router s" and ?res = "fst (send_mo ops m c (sys_router s))"
  from inv fl have c: "c < next_chan ?r" "c \<notin> fst ` set (views ops s)" "ch_items ops (chan_store ?r c) = []"
    and ok: "views_ok (views ops s) (next_chan ?r) (routed s) (lost s)"
    by (auto simp: sys_inv_def flight_ok_def)
  have "\<forall>d \<in> set (tasks s). dt_tx d \<noteq> c"
    using c(2) by (auto simp: views_def view_of_def image_iff)
  then have old: "map (view_of ops (snd (send_mo ops m c ?r))) (tasks s) = views ops s"
    by (auto simp: views_def view_of_def held_def)
  have new: "view_of ops (snd (send_mo ops m c ?r)) (task_new (sender m) c) = (c, user_of m, [] @ sent_part ?res m)"
    using c(3) by (simp add: view_of_send [OF laws] held_def task_new_def task_uid_def user_of_def)
  have vt: "views ops ?t = views ops s @ (c, user_of m, [] @ sent_part ?res m) # []"
    using old new by (simp add: views_def after_send_def)
  have "views_ok (views ops ?t) (next_chan ?r) (routed s @ [m])
      (case ?res of Inl m' \<Rightarrow> lost s @ [m'] | Inr _ \<Rightarrow> lost s)"
    unfolding vt by (rule views_ok_send [OF _ refl send_mo_fst]) (rule views_ok_add [OF ok c(1,2)])
  moreover have "table_ok (views ops ?t) (route_of ?r) None"
    using inv fl by (intro table_ok_mono [of "views ops s" _ "in_flight s"]) (auto simp: sys_inv_def vt)
  ultimately show ?thesis
    by (simp add: sys_inv_def after_send_def flight_ok_def views_def)
qed

section \<open>Every step keeps it\<close>

lemma sys_inv_start: "sys_inv ops (start_system ops mops ms)"
  by (simp add: sys_inv_def start_system_def router_new_def route_of_def views_def views_ok_def table_ok_def flight_ok_def)

lemma step_inv:
  assumes "step ops mops proc s t" "chan_laws ops" "sys_inv ops s"
  shows "sys_inv ops t"
  using assms
proof (cases rule: step.cases)
  case (idle_timeout i d)
  with assms(3) show ?thesis
    by (intro sys_inv_quiet [OF assms(3)]) (auto simp: views_def set_task_def intro!: views_update)
next
  case (stream_end i d)
  with assms(3) show ?thesis
    by (intro sys_inv_quiet [OF assms(3)]) (auto simp: views_def set_task_def intro!: views_update)
next
  case (consume_mt m c')
  with assms(3) show ?thesis
    by (intro sys_inv_quiet [OF assms(3)]) (auto simp: views_def)
qed (use assms(2,3) in \<open>auto intro: inv_lookup inv_send_existing inv_send_new inv_receive
       inv_close_task inv_drop_rx inv_forward inv_close_all\<close>)

lemma reachable_inv: "reachable ops mops proc ms s \<Longrightarrow> chan_laws ops \<Longrightarrow> sys_inv ops s"
  by (induction rule: reachable.induct) (auto intro: sys_inv_start step_inv)

section \<open>Schedules\<close>

text \<open>
  The same steps as a function: an action names the task that moves, and \<open>perform\<close> is
  \<open>None\<close> when it cannot. A schedule is a list of actions; it evaluates.
\<close>

datatype action = Lookup | Send | Receive nat | Idle nat | CloseIdle nat | StreamEnd nat | Forward nat | StopReading nat | DropReceiver nat | Finish nat
  | ConsumeMt | ShutDown

definition task_at :: "nat \<Rightarrow> phase \<Rightarrow> ('c, 'd, 'p, 'm, 't) system \<Rightarrow> ('p, 'm, 't) dialog_task option" where
  "task_at i p s = (if i < length (tasks s) \<and> dt_phase (tasks s ! i) = p then Some (tasks s ! i) else None)"

definition end_dialog ::
  "('c, ('p, 'm) mo) chan_ops \<Rightarrow> phase \<Rightarrow> nat \<Rightarrow> ('p, 'm, 't) dialog_task \<Rightarrow> ('c, 'd, 'p, 'm, 't) system \<Rightarrow> ('c, 'd, 'p, 'm, 't) system" where
  "end_dialog ops p i d s =
     set_task i (d\<lparr>dt_phase := p\<rparr>)
       (s\<lparr>sys_router := snd (close_dialog ops (task_uid d) (dt_tx d) (sys_router s))\<rparr>)"

fun perform ::
  "('c, ('p, 'm) mo) chan_ops \<Rightarrow> ('d, 't) chan_ops \<Rightarrow> (('p, 'm) mo list \<Rightarrow> 't list) \<Rightarrow> action \<Rightarrow>
   ('c, 'd, 'p, 'm, 't) system \<Rightarrow> ('c, 'd, 'p, 'm, 't) system option" where
  "perform ops mops proc Lookup s =
     (case inbox s of
        [] \<Rightarrow> None
      | m # rest \<Rightarrow>
          if in_flight s = None
          then (case lookup_route ops (user_of m) (sys_router s) of (route, r') \<Rightarrow>
                  Some (s\<lparr>inbox := rest, in_flight := Some (m, route), sys_router := r'\<rparr>))
          else None)"
| "perform ops mops proc Send s =
     (case in_flight s of
        None \<Rightarrow> None
      | Some (m, Existing tx) \<Rightarrow> Some (after_send m (send_mo ops m tx (sys_router s)) s)
      | Some (m, New tx) \<Rightarrow>
          Some ((after_send m (send_mo ops m tx (sys_router s)) s)\<lparr>tasks := tasks s @ [task_new (sender m) tx]\<rparr>))"
| "perform ops mops proc (Receive i) s =
     (case task_at i Running s of
        None \<Rightarrow> None
      | Some d \<Rightarrow>
          (case ch_recv ops (task_chan s d) of
             None \<Rightarrow> None
           | Some (m, c') \<Rightarrow>
               Some (set_task i (d\<lparr>dt_received := dt_received d @ [m]\<rparr>)
                 (s\<lparr>sys_router := (sys_router s)\<lparr>chan_store := (chan_store (sys_router s))(dt_tx d := c')\<rparr>\<rparr>))))"
| "perform ops mops proc (Idle i) s =
     (case task_at i Running s of
        None \<Rightarrow> None
      | Some d \<Rightarrow>
          if ch_recv ops (task_chan s d) = None \<and> \<not> ch_closed ops (task_chan s d)
          then Some (set_task i (d\<lparr>dt_phase := TimedOut\<rparr>) s) else None)"
| "perform ops mops proc (CloseIdle i) s =
     (case task_at i TimedOut s of
        None \<Rightarrow> None
      | Some d \<Rightarrow> Some (end_dialog ops Ending i d s))"
| "perform ops mops proc (StreamEnd i) s =
     (case task_at i Running s of
        None \<Rightarrow> None
      | Some d \<Rightarrow>
          if ch_recv ops (task_chan s d) = None \<and> ch_closed ops (task_chan s d)
          then Some (set_task i (d\<lparr>dt_phase := Ending\<rparr>) s) else None)"
| "perform ops mops proc (Forward i) s =
     (if i < length (tasks s) \<and> dt_sent (tasks s ! i) < length (proc (dt_received (tasks s ! i))) \<and>
         (ch_closed mops (mt_chan s) \<or> length (ch_items mops (mt_chan s)) < mt_capacity)
      then Some (forward_mt mops (proc (dt_received (tasks s ! i)) ! dt_sent (tasks s ! i)) i (tasks s ! i) s)
      else None)"
| "perform ops mops proc (Finish i) s =
     (case task_at i Dropped s of
        None \<Rightarrow> None
      | Some d \<Rightarrow> Some (end_dialog ops Finished i d s))"
| "perform ops mops proc (StopReading i) s =
     (if i < length (tasks s) \<and> dt_phase (tasks s ! i) \<in> {Running, TimedOut}
      then Some (drop_rx ops Ending i (tasks s ! i) s) else None)"
| "perform ops mops proc (DropReceiver i) s =
     (case task_at i Ending s of
        None \<Rightarrow> None
      | Some d \<Rightarrow>
          if dt_sent d = length (proc (dt_received d)) then Some (drop_rx ops Dropped i d s) else None)"
| "perform ops mops proc ConsumeMt s =
     (case ch_recv mops (mt_chan s) of None \<Rightarrow> None | Some (t, c') \<Rightarrow> Some (s\<lparr>mt_chan := c'\<rparr>))"
| "perform ops mops proc ShutDown s =
     (if inbox s = [] \<and> in_flight s = None
      then Some (s\<lparr>sys_router := close_all ops (sys_router s), mt_chan := ch_close mops (mt_chan s)\<rparr>)
      else None)"

fun perform_all ::
  "('c, ('p, 'm) mo) chan_ops \<Rightarrow> ('d, 't) chan_ops \<Rightarrow> (('p, 'm) mo list \<Rightarrow> 't list) \<Rightarrow> action list \<Rightarrow>
   ('c, 'd, 'p, 'm, 't) system \<Rightarrow> ('c, 'd, 'p, 'm, 't) system option" where
  "perform_all ops mops proc [] s = Some s"
| "perform_all ops mops proc (a # as) s =
     (case perform ops mops proc a s of None \<Rightarrow> None | Some t \<Rightarrow> perform_all ops mops proc as t)"

lemma perform_step: "perform ops mops proc a s = Some t \<Longrightarrow> step ops mops proc s t"
  by (cases a)
     (auto simp: task_at_def end_dialog_def
        intro: step.lookup step.send_existing step.send_new step.receive step.idle_timeout step.close_idle
          step.stream_end step.forward step.stop_reading step.drop_receiver step.finish step.consume_mt step.shut_down
        split: list.splits option.splits dialog_route.splits if_splits prod.splits)

lemma step_perform: "step ops mops proc s t \<Longrightarrow> \<exists>a. perform ops mops proc a s = Some t"
proof (induction rule: step.induct)
  case (lookup s m rest route r')
  then show ?case by (auto intro!: exI [of _ Lookup])
next
  case (send_existing s m tx)
  then show ?case by (auto intro!: exI [of _ Send])
next
  case (send_new s m tx)
  then show ?case by (auto intro!: exI [of _ Send])
next
  case (receive i s d m c')
  then show ?case by (auto simp: task_at_def intro!: exI [of _ "Receive i"])
next
  case (idle_timeout i s d)
  then show ?case by (auto simp: task_at_def end_dialog_def intro!: exI [of _ "Idle i"])
next
  case (close_idle i s d)
  then show ?case by (auto simp: task_at_def end_dialog_def intro!: exI [of _ "CloseIdle i"])
next
  case (stream_end i s d)
  then show ?case by (auto simp: task_at_def intro!: exI [of _ "StreamEnd i"])
next
  case (forward i s d)
  then show ?case by (auto intro!: exI [of _ "Forward i"])
next
  case (stop_reading i s d)
  then show ?case by (intro exI [of _ "StopReading i"]) simp
next
  case (drop_receiver i s d)
  then show ?case by (intro exI [of _ "DropReceiver i"]) (simp add: task_at_def)
next
  case (finish i s d)
  then show ?case by (auto simp: task_at_def end_dialog_def intro!: exI [of _ "Finish i"])
next
  case (consume_mt s t c')
  then show ?case by (auto intro!: exI [of _ ConsumeMt])
next
  case (shut_down s)
  then show ?case by (auto intro!: exI [of _ ShutDown])
qed

lemma perform_all_reachable:
  "perform_all ops mops proc as s = Some t \<Longrightarrow> reachable ops mops proc ms s \<Longrightarrow> reachable ops mops proc ms t"
proof (induction as arbitrary: s)
  case (Cons a as)
  then obtain u where "perform ops mops proc a s = Some u" "perform_all ops mops proc as u = Some t"
    by (auto split: option.splits)
  with Cons show ?case by (blast intro: reachable.more perform_step)
qed simp

lemma schedule_reachable:
  "perform_all ops mops proc as (start_system ops mops ms) = Some t \<Longrightarrow> reachable ops mops proc ms t"
  by (rule perform_all_reachable [OF _ reachable.start])

section \<open>Further invariants\<close>

definition in_hand :: "('c, 'd, 'p, 'm, 't) system \<Rightarrow> ('p, 'm) mo list" where
  "in_hand s = (case in_flight s of None \<Rightarrow> [] | Some (m, _) \<Rightarrow> [m])"

lemma step_arrivals:
  "step ops mops proc s t \<Longrightarrow> routed t @ in_hand t @ inbox t = routed s @ in_hand s @ inbox s"
  by (induction rule: step.induct)
     (auto simp: in_hand_def after_send_def set_task_def drop_rx_def forward_mt_def split: option.splits)

lemma reachable_arrivals:
  "reachable ops mops proc ms s \<Longrightarrow> routed s @ in_hand s @ inbox s = ms"
proof (induction rule: reachable.induct)
  case start
  show ?case by (simp add: start_system_def in_hand_def)
next
  case (more s t)
  then show ?case using step_arrivals by metis
qed

lemma step_mt_bound:
  assumes "step ops mops proc s t" "chan_laws mops" "length (ch_items mops (mt_chan s)) \<le> mt_capacity"
  shows "length (ch_items mops (mt_chan t)) \<le> mt_capacity"
  using assms
proof (cases rule: step.cases)
  case (forward i d)
  with assms show ?thesis
    using chan_send_Some [OF assms(2)]
    by (auto simp: forward_mt_def set_task_def split: option.splits)
next
  case (consume_mt m c')
  with chan_recv_Some(1) [OF assms(2)] assms(3) show ?thesis by fastforce
qed (use assms(2,3) in \<open>auto simp: after_send_def set_task_def drop_rx_def\<close>)

text \<open>A processor that never takes back what it has produced.\<close>

definition causal :: "('a list \<Rightarrow> 'b list) \<Rightarrow> bool" where
  "causal proc \<longleftrightarrow> (\<forall>xs ys. prefix (proc xs) (proc (xs @ ys)))"

definition mts_ok :: "('d, 't) chan_ops \<Rightarrow> (('p, 'm) mo list \<Rightarrow> 't list) \<Rightarrow> ('c, 'd, 'p, 'm, 't) system \<Rightarrow> bool" where
  "mts_ok mops proc s \<longleftrightarrow>
     (\<forall>d \<in> set (tasks s). dt_sent d \<le> length (proc (dt_received d)) \<and>
        (if ch_closed mops (mt_chan s) then prefix (dt_forwarded d) (proc (dt_received d))
         else dt_forwarded d = take (dt_sent d) (proc (dt_received d))))"

lemma mts_ok_same:
  assumes "mts_ok mops proc s" and "ch_closed mops (mt_chan t) = ch_closed mops (mt_chan s)"
    and "\<And>d. d \<in> set (tasks t) \<Longrightarrow>
      (\<exists>e \<in> set (tasks s). dt_sent d = dt_sent e \<and> dt_forwarded d = dt_forwarded e \<and>
         (\<exists>ys. dt_received d = dt_received e @ ys)) \<or> dt_sent d = 0 \<and> dt_forwarded d = []"
    and "causal proc"
  shows "mts_ok mops proc t"
  unfolding mts_ok_def
proof
  fix d
  assume "d \<in> set (tasks t)"
  from assms(3) [OF this] show "dt_sent d \<le> length (proc (dt_received d)) \<and>
    (if ch_closed mops (mt_chan t) then prefix (dt_forwarded d) (proc (dt_received d))
     else dt_forwarded d = take (dt_sent d) (proc (dt_received d)))"
  proof
    assume "\<exists>e \<in> set (tasks s). dt_sent d = dt_sent e \<and> dt_forwarded d = dt_forwarded e \<and>
      (\<exists>ys. dt_received d = dt_received e @ ys)"
    then obtain e ys where e: "e \<in> set (tasks s)" "dt_sent d = dt_sent e" "dt_forwarded d = dt_forwarded e"
      "dt_received d = dt_received e @ ys" by blast
    from assms(4) obtain zs where "proc (dt_received d) = proc (dt_received e) @ zs"
      unfolding causal_def e(4) by (meson prefixE)
    with e assms(1,2) show ?thesis by (auto simp: mts_ok_def)
  qed simp
qed

lemma mts_ok_set_task:
  assumes "mts_ok mops proc s" "causal proc" "i < length (tasks s)"
    and "dt_sent d' = dt_sent (tasks s ! i)" "dt_forwarded d' = dt_forwarded (tasks s ! i)"
    and "dt_received d' = dt_received (tasks s ! i) @ ys"
  shows "mts_ok mops proc (set_task i d' (s\<lparr>sys_router := r\<rparr>))"
  using assms
  by (intro mts_ok_same [OF assms(1)])
     (auto simp: set_task_def dest!: set_update_subset_insert [THEN subsetD]
        intro: bexI [of _ "tasks s ! i"])

lemma step_mts_ok:
  assumes "step ops mops proc s t" "chan_laws mops" "causal proc" "mts_ok mops proc s"
  shows "mts_ok mops proc t"
  using assms
proof (cases rule: step.cases)
  case (forward i d)
  have d: "dt_sent d < length (proc (dt_received d))"
    "if ch_closed mops (mt_chan s) then prefix (dt_forwarded d) (proc (dt_received d))
     else dt_forwarded d = take (dt_sent d) (proc (dt_received d))"
    using forward assms(4) by (auto simp: mts_ok_def)
  show ?thesis
  proof (cases "ch_send mops (proc (dt_received d) ! dt_sent d) (mt_chan s)")
    case None
    then have "ch_closed mops (mt_chan s)"
      using chan_send_open [OF assms(2)] by (metis option.distinct(1))
    with None forward d assms(4) show ?thesis
      by (auto simp: mts_ok_def forward_mt_def set_task_def dest!: set_update_subset_insert [THEN subsetD])
  next
    case (Some c')
    with chan_send_Some [OF assms(2) Some] forward d assms(4) show ?thesis
      by (auto simp: mts_ok_def forward_mt_def set_task_def take_Suc_conv_app_nth
          dest!: set_update_subset_insert [THEN subsetD])
  qed
next
  case (consume_mt m c')
  with chan_recv_Some(2) [OF assms(2)] assms(3,4) show ?thesis
    by (intro mts_ok_same [OF assms(4)]) (auto intro: exI [of _ "[]"])
next
  case shut_down
  with assms(2,4) show ?thesis
    by (auto simp: mts_ok_def take_is_prefix split: if_splits)
next
  case (receive i d m c')
  show ?thesis
    unfolding receive(1) by (rule mts_ok_set_task [OF assms(4,3) receive(2)]) (simp_all add: receive(3))
next
  case (idle_timeout i d)
  have "mts_ok mops proc (set_task i (d\<lparr>dt_phase := TimedOut\<rparr>) (s\<lparr>sys_router := sys_router s\<rparr>))"
    by (rule mts_ok_set_task [OF assms(4,3) idle_timeout(2), where ys = "[]"]) (simp_all add: idle_timeout(3))
  then show ?thesis unfolding idle_timeout(1) by simp
next
  case (close_idle i d)
  show ?thesis
    unfolding close_idle(1)
    by (rule mts_ok_set_task [OF assms(4,3) close_idle(2), where ys = "[]"]) (simp_all add: close_idle(3))
next
  case (stop_reading i d)
  show ?thesis
    unfolding stop_reading(1) drop_rx_def
    by (rule mts_ok_set_task [OF assms(4,3) stop_reading(2), where ys = "[]"]) (simp_all add: stop_reading(3))
next
  case (drop_receiver i d)
  show ?thesis
    unfolding drop_receiver(1) drop_rx_def
    by (rule mts_ok_set_task [OF assms(4,3) drop_receiver(2), where ys = "[]"]) (simp_all add: drop_receiver(3))
next
  case (finish i d)
  show ?thesis
    unfolding finish(1)
    by (rule mts_ok_set_task [OF assms(4,3) finish(2), where ys = "[]"]) (simp_all add: finish(3))
next
  case (stream_end i d)
  have "mts_ok mops proc (set_task i (d\<lparr>dt_phase := Ending\<rparr>) (s\<lparr>sys_router := sys_router s\<rparr>))"
    by (rule mts_ok_set_task [OF assms(4,3) stream_end(2), where ys = "[]"]) (simp_all add: stream_end(3))
  then show ?thesis unfolding stream_end(1) by simp
qed (use assms(4) in \<open>auto simp: after_send_def task_new_def mts_ok_def\<close>)

lemma reachable_mts_ok:
  "reachable ops mops proc ms s \<Longrightarrow> chan_laws mops \<Longrightarrow> causal proc \<Longrightarrow> mts_ok mops proc s"
proof (induction rule: reachable.induct)
  case start
  show ?case by (simp add: mts_ok_def start_system_def)
next
  case (more s t)
  then show ?case by (blast intro: step_mts_ok)
qed

end
