(* ===== verification/RouterGuarantees.thy ===== *)
theory RouterGuarantees
  imports RouterSystem
begin

text \<open>
  What \<open>src/src/messaging/user_router.rs\<close> promises, over the step relation of
  \<open>RouterSystem\<close>: isolation, order and conservation of the messages of a user, the bound
  of the outgoing channel, and the end of shutting down; and the schedules on which it opens a
  second live dialog for a user or drops a message.
\<close>

section \<open>Shutting down\<close>

text \<open>
  What \<open>start\<close> does once the stream of messages has ended. The world of that task is the
  record below: the clock in nanoseconds, \<open>tokio::time::sleep\<close>, the await of the table's lock,
  the table with its channels, and the channel of mobile-terminated messages. \<open>sd_run\<close> is what
  the other threads do between two statements of this task.
\<close>

record ('w, 'c, 'd) shutdown_env =
  sd_now :: "'w \<Rightarrow> int"
  sd_sleep :: "int \<Rightarrow> 'w \<Rightarrow> 'w"
  sd_lock :: "'w \<Rightarrow> 'w"
  sd_run :: "'w \<Rightarrow> 'w"
  sd_router :: "'w \<Rightarrow> 'c router"
  sd_put_router :: "'c router \<Rightarrow> 'w \<Rightarrow> 'w"
  sd_mts :: "'w \<Rightarrow> 'd"
  sd_put_mts :: "'d \<Rightarrow> 'w \<Rightarrow> 'w"

definition millis :: "int \<Rightarrow> int" where
  "millis n = n * 1000000"

text \<open>\<open>Instant::elapsed\<close> never goes below zero.\<close>

definition elapsed_since :: "('w, 'c, 'd) shutdown_env \<Rightarrow> int \<Rightarrow> 'w \<Rightarrow> int" where
  "elapsed_since env t0 w = max 0 (sd_now env w - t0)"

text \<open>\<open>values().fold(0, |acc, mo_tx| acc + mo_tx.len())\<close>: only the channels in the table count.\<close>

definition queued_mos :: "('c, 'm) chan_ops \<Rightarrow> 'c router \<Rightarrow> nat" where
  "queued_mos ops r = foldl (\<lambda>acc (u, tx). acc + length (ch_items ops (chan_store r tx))) 0 (per_user_mo_tx r)"

text \<open>Closing each user's channel under the lock, then both ends of the global one.\<close>

definition close_channels ::
  "('c, ('p, 'm) mo) chan_ops \<Rightarrow> ('d, 't) chan_ops \<Rightarrow> ('w, 'c, 'd) shutdown_env \<Rightarrow> 'w \<Rightarrow> 'w" where
  "close_channels ops mops env w =
     (let w1 = sd_lock env w;
          w2 = sd_run env (sd_put_router env (close_all ops (sd_router env w1)) w1)
      in sd_put_mts env (ch_close mops (ch_close mops (sd_mts env w2))) w2)"

text \<open>
  The loop. A round is the states in which it counts the messages of the users, counts the
  outgoing messages and reads the clock; \<open>rs\<close> lists the rounds behind, and the result lists
  them all with the state at the end. \<open>None\<close> would be a loop that never ends.
\<close>

type_synonym 'w round = "'w \<times> 'w \<times> 'w"

definition left_in :: "('c, 'm) chan_ops \<Rightarrow> ('d, 't) chan_ops \<Rightarrow> ('w, 'c, 'd) shutdown_env \<Rightarrow> 'w round \<Rightarrow> nat" where
  "left_in ops mops env r =
     (case r of (a, b, c) \<Rightarrow> queued_mos ops (sd_router env a) + length (ch_items mops (sd_mts env b)))"

partial_function (option) shutdown_loop ::
  "('c, ('p, 'm) mo) chan_ops \<Rightarrow> ('d, 't) chan_ops \<Rightarrow> ('w, 'c, 'd) shutdown_env \<Rightarrow> int \<Rightarrow> int \<Rightarrow>
   'w round list \<Rightarrow> 'w \<Rightarrow> ('w round list \<times> 'w) option" where
  "shutdown_loop ops mops env grace t0 rs w =
     (let a = sd_lock env w; b = sd_run env a; c = sd_run env b
      in if grace \<le> elapsed_since env t0 c then Some (rs @ [(a, b, c)], close_channels ops mops env c)
         else if 0 < left_in ops mops env (a, b, c)
         then shutdown_loop ops mops env grace t0 (rs @ [(a, b, c)]) (sd_sleep env (millis 1000) c)
         else Some (rs @ [(a, b, c)], close_channels ops mops env c))"

declare shutdown_loop.simps [code]

definition shut_down ::
  "('c, ('p, 'm) mo) chan_ops \<Rightarrow> ('d, 't) chan_ops \<Rightarrow> ('w, 'c, 'd) shutdown_env \<Rightarrow> int \<Rightarrow>
   'w \<Rightarrow> ('w round list \<times> 'w) option" where
  "shut_down ops mops env grace w =
     (let w1 = sd_sleep env (millis 100) w
      in shutdown_loop ops mops env grace (sd_now env w1) [] w1)"

text \<open>
  What the loop relies on: the clock never goes back, a sleep lasts what it is asked for, and
  no wait is late by more than \<open>j\<close>; the state is read back as it was written; and while this
  task closes, no other opens a route or a channel again (the routing task has ended).
\<close>

definition on_time :: "('w, 'c, 'd) shutdown_env \<Rightarrow> int \<Rightarrow> bool" where
  "on_time env j \<longleftrightarrow> 0 \<le> j \<and>
     (\<forall>w. sd_now env w \<le> sd_now env (sd_lock env w) \<and> sd_now env (sd_lock env w) \<le> sd_now env w + j) \<and>
     (\<forall>w. sd_now env w \<le> sd_now env (sd_run env w) \<and> sd_now env (sd_run env w) \<le> sd_now env w + j) \<and>
     (\<forall>d w. 0 \<le> d \<longrightarrow> sd_now env w + d \<le> sd_now env (sd_sleep env d w) \<and>
        sd_now env (sd_sleep env d w) \<le> sd_now env w + d + j)"

definition stores_kept :: "('c, 'm) chan_ops \<Rightarrow> ('w, 'c, 'd) shutdown_env \<Rightarrow> bool" where
  "stores_kept ops env \<longleftrightarrow>
     (\<forall>w r. sd_router env (sd_put_router env r w) = r \<and> sd_now env (sd_put_router env r w) = sd_now env w) \<and>
     (\<forall>w d. sd_mts env (sd_put_mts env d w) = d \<and> sd_router env (sd_put_mts env d w) = sd_router env w \<and>
        sd_now env (sd_put_mts env d w) = sd_now env w) \<and>
     (\<forall>w u c. route_of (sd_router env (sd_run env w)) u = Some c \<longrightarrow> route_of (sd_router env w) u = Some c) \<and>
     (\<forall>w c. ch_closed ops (chan_store (sd_router env w) c) \<longrightarrow>
        ch_closed ops (chan_store (sd_router env (sd_run env w)) c))"

lemma on_timeD:
  assumes "on_time env j"
  shows "0 \<le> j" "sd_now env w \<le> sd_now env (sd_lock env w)" "sd_now env (sd_lock env w) \<le> sd_now env w + j"
    "sd_now env w \<le> sd_now env (sd_run env w)" "sd_now env (sd_run env w) \<le> sd_now env w + j"
    "0 \<le> d \<Longrightarrow> sd_now env w + d \<le> sd_now env (sd_sleep env d w)"
    "0 \<le> d \<Longrightarrow> sd_now env (sd_sleep env d w) \<le> sd_now env w + d + j"
  using assms by (simp_all add: on_time_def)

lemma stores_keptD:
  assumes "stores_kept ops env"
  shows "sd_router env (sd_put_router env r w) = r" "sd_now env (sd_put_router env r w) = sd_now env w"
    "sd_mts env (sd_put_mts env d w) = d" "sd_router env (sd_put_mts env d w) = sd_router env w"
    "sd_now env (sd_put_mts env d w) = sd_now env w"
    "route_of (sd_router env (sd_run env w)) u = Some c \<Longrightarrow> route_of (sd_router env w) u = Some c"
    "ch_closed ops (chan_store (sd_router env w) c) \<Longrightarrow> ch_closed ops (chan_store (sd_router env (sd_run env w)) c)"
  using assms unfolding stores_kept_def by blast+

lemma close_all_closes:
  assumes laws: "chan_laws ops" and r: "route_of r u = Some c"
  shows "ch_closed ops (chan_store (close_all ops r) c)"
proof -
  have "ch_closed ops (foldl (\<lambda>st (u, c). st(c := ch_close ops (st c))) st al c)"
    if "ch_closed ops (st c) \<or> c \<in> snd ` set al" for st and al :: "(u64 \<times> nat) list"
    using that laws by (induction al arbitrary: st) auto
  moreover have "c \<in> snd ` set (per_user_mo_tx r)"
    using r by (force simp: route_of_def dest: map_of_SomeD)
  ultimately show ?thesis by (simp add: close_all_def)
qed

lemma close_channels_spec:
  fixes w :: 'w
  assumes laws: "chan_laws ops" "chan_laws mops" and t: "on_time env j" and s: "stores_kept ops env"
  defines "w' \<equiv> close_channels ops mops env w"
  shows "sd_now env w \<le> sd_now env w'" "sd_now env w' \<le> sd_now env w + 2 * j"
    "ch_closed mops (sd_mts env w')"
    "route_of (sd_router env w') u = Some c \<Longrightarrow> ch_closed ops (chan_store (sd_router env w') c)"
proof -
  let ?w1 = "sd_lock env w"
  let ?w2 = "sd_put_router env (close_all ops (sd_router env ?w1)) ?w1"
  have w': "sd_now env w' = sd_now env (sd_run env ?w2)" "sd_router env w' = sd_router env (sd_run env ?w2)"
    "sd_mts env w' = ch_close mops (ch_close mops (sd_mts env (sd_run env ?w2)))"
    by (simp_all add: w'_def close_channels_def Let_def stores_keptD(3-5) [OF s])
  have now2: "sd_now env ?w2 = sd_now env ?w1" by (rule stores_keptD(2) [OF s])
  show "sd_now env w \<le> sd_now env w'" "sd_now env w' \<le> sd_now env w + 2 * j"
    using w'(1) now2 on_timeD(2,3) [OF t, of w] on_timeD(4,5) [OF t, of ?w2] by linarith+
  show "ch_closed mops (sd_mts env w')" using laws(2) w'(3) by simp
  assume "route_of (sd_router env w') u = Some c"
  then have "route_of (sd_router env ?w2) u = Some c" unfolding w'(2) by (rule stores_keptD(6) [OF s])
  then have "route_of (sd_router env ?w1) u = Some c" unfolding stores_keptD(1) [OF s] by simp
  from close_all_closes [OF laws(1) this]
  have "ch_closed ops (chan_store (sd_router env ?w2) c)" unfolding stores_keptD(1) [OF s] .
  then show "ch_closed ops (chan_store (sd_router env w') c)" unfolding w'(2) by (rule stores_keptD(7) [OF s])
qed

text \<open>The rounds of a finished loop: why each but the last went on, and why the last closed.\<close>

definition rounds_ok ::
  "('c, ('p, 'm) mo) chan_ops \<Rightarrow> ('d, 't) chan_ops \<Rightarrow> ('w, 'c, 'd) shutdown_env \<Rightarrow> int \<Rightarrow> int \<Rightarrow> 'w round list \<Rightarrow> bool" where
  "rounds_ok ops mops env grace t0 rs \<longleftrightarrow> rs \<noteq> [] \<and>
     (\<forall>r \<in> set (butlast rs). elapsed_since env t0 (snd (snd r)) < grace \<and> 0 < left_in ops mops env r) \<and>
     (elapsed_since env t0 (snd (snd (last rs))) < grace \<longrightarrow> left_in ops mops env (last rs) = 0)"

section \<open>What the router guarantees\<close>

text \<open>A message as the unit tests build it: user 97's message number \<open>i\<close> (any numbers).\<close>

definition test_mo :: "u64 \<Rightarrow> u64 \<Rightarrow> (unit, unit) mo" where
  "test_mo uid i = mo_new i (party_new uid ()) (dialog_new 777 Private English) ()"

lemma user_of_test_mo [simp]: "user_of (test_mo u i) = u"
  by (simp add: user_of_def test_mo_def)

lemma reachable_held:
  assumes "reachable ops mops proc ms s" "chan_laws ops" "d \<in> set (tasks s)"
  shows "subseq (held ops (sys_router s) d) (filter (\<lambda>m. user_of m = task_uid d) (routed s))"
  using reachable_inv [OF assms(1,2)] assms(3)
  by (auto simp: sys_inv_def views_ok_def views_def view_of_def)

text \<open>C1: A surge of messages opens exactly one dialog per user: starting from an empty
  routing table, the number of calls of \<open>route_mo\<close> that ask for a new dialog processor is
  the number of distinct senders, whatever the order and number of the messages.\<close>

theorem one_dialog_per_user:
  "length (filter (\<lambda>d. d \<noteq> None) (fst (route_all ops ms (router_new c0)))) = card (user_of ` set ms)"
proof -
  have "dom (route_of (router_new c0)) = {}"
    by (simp add: route_of_def router_new_def)
  then show ?thesis
    unfolding route_all_eq table.opened_count by simp
qed

text \<open>C2: User isolation: in every reachable state of the concurrent router, whatever a
  dialog task has received or will receive from its channel was sent by that task's user.\<close>

theorem dialog_isolation:
  assumes "reachable ops mops proc ms s" "chan_laws ops"
    and "d \<in> set (tasks s)" "m \<in> set (held ops (sys_router s) d)"
  shows "user_of m = task_uid d"
proof -
  have "set (held ops (sys_router s) d) \<subseteq> set (filter (\<lambda>m. user_of m = task_uid d) (routed s))"
    using reachable_held [OF assms(1-3)] by (auto elim: list_emb_set)
  with assms(4) show ?thesis by auto
qed

text \<open>Two users, three messages; the first user's dialog has received one of its two.\<close>

definition demo_mos :: "(unit, unit) mo list" where
  "demo_mos = [test_mo 97 1, test_mo 98 2, test_mo 97 3]"

definition demo_schedule :: "action list" where
  "demo_schedule = [Lookup, Send, Receive 0, Lookup, Send, Lookup, Send]"

definition demo_proc :: "(unit, unit) mo list \<Rightarrow> u64 list" where
  "demo_proc = map mo_id"

definition demo_state :: "((unit, unit) mo list \<times> bool, u64 list \<times> bool, unit, unit, u64) system" where
  "demo_state = the (perform_all list_chan list_chan demo_proc demo_schedule (start_system list_chan list_chan demo_mos))"

lemma demo_run:
  "perform_all list_chan list_chan demo_proc demo_schedule (start_system list_chan list_chan demo_mos) \<noteq> None"
  by code_simp

lemma reachable_demo: "reachable list_chan list_chan demo_proc demo_mos demo_state"
  using demo_run by (auto simp: demo_state_def intro: schedule_reachable)

lemma demo_tasks:
  "tasks demo_state =
    [(task_new (party_new 97 ()) 0)\<lparr>dt_received := [test_mo 97 1]\<rparr>, task_new (party_new 98 ()) 1]"
  by code_simp

lemma demo_held:
  "held list_chan (sys_router demo_state) (tasks demo_state ! 0) = [test_mo 97 1, test_mo 97 3]"
  by code_simp

lemma demo_task_0:
  "tasks demo_state ! 0 \<in> set (tasks demo_state)" "task_uid (tasks demo_state ! 0) = 97"
  "dt_received (tasks demo_state ! 0) = [test_mo 97 1]"
  by (simp_all add: demo_tasks task_uid_def task_new_def)

theorem dialog_isolation_witness: "user_of (test_mo 97 3) = task_uid (tasks demo_state ! 0)"
  by (rule dialog_isolation [OF reachable_demo chan_laws_list_chan demo_task_0(1)]) (simp add: demo_held)

text \<open>C3: FIFO per user: what a dialog task has received, followed by what waits for it, is
  an in-order subsequence of the messages of its user among the messages that arrived; no
  interleaving reorders or duplicates a user's messages.\<close>

theorem dialog_fifo:
  assumes "reachable ops mops proc ms s" "chan_laws ops" "d \<in> set (tasks s)"
  shows "subseq (dt_received d @ ch_items ops (task_chan s d)) (filter (\<lambda>m. user_of m = task_uid d) ms)"
proof -
  have "subseq (held ops (sys_router s) d) (filter (\<lambda>m. user_of m = task_uid d) (routed s))"
    by (rule reachable_held [OF assms])
  moreover have "subseq (filter P (routed s)) (filter P ms)" for P
    unfolding reachable_arrivals [OF assms(1), symmetric] by (simp add: list_emb_prefix)
  ultimately show ?thesis
    unfolding held_def task_chan_def by (blast intro: subseq_order.trans)
qed

theorem dialog_fifo_witness:
  "subseq [test_mo 97 1, test_mo 97 3] (filter (\<lambda>m. user_of m = 97) demo_mos)"
  using dialog_fifo [OF reachable_demo chan_laws_list_chan demo_task_0(1)] demo_held
  by (simp add: held_def task_chan_def demo_task_0)

text \<open>C4: Conservation: in every reachable state the messages that arrived are exactly those
  not yet taken, the one in the routing task's hands, those lost to a closed channel, and
  those held by the dialogs, each counted once.\<close>

theorem messages_conserved:
  assumes "reachable ops mops proc ms s" "chan_laws ops"
  shows "mset ms = mset (inbox s) + mset (in_hand s) + mset (lost s) +
    (\<Sum>d \<leftarrow> tasks s. mset (dt_received d) + mset (ch_items ops (task_chan s d)))"
proof -
  have "mset (routed s) = mset (lost s) + (\<Sum>(c, u, h) \<leftarrow> views ops s. mset h)"
    using reachable_inv [OF assms] by (simp add: sys_inv_def views_ok_def)
  moreover have "(\<Sum>(c, u, h) \<leftarrow> views ops s. mset h) =
    (\<Sum>d \<leftarrow> tasks s. mset (dt_received d) + mset (ch_items ops (task_chan s d)))"
    by (simp add: views_def view_of_def held_def task_chan_def comp_def)
  moreover have "mset ms = mset (routed s) + mset (in_hand s) + mset (inbox s)"
    unfolding reachable_arrivals [OF assms(1), symmetric] by (simp add: add.assoc)
  ultimately show ?thesis by (simp add: ac_simps)
qed

theorem messages_conserved_witness:
  "mset demo_mos = mset (inbox demo_state) + mset (in_hand demo_state) + mset (lost demo_state) +
    (\<Sum>d \<leftarrow> tasks demo_state. mset (dt_received d) + mset (ch_items list_chan (task_chan demo_state d)))"
  by (rule messages_conserved [OF reachable_demo chan_laws_list_chan])

text \<open>The outgoing channel never holds more than its capacity: a dialog that would send
  the 65th message waits.\<close>

theorem mt_channel_bounded:
  assumes "reachable ops mops proc ms s" "chan_laws mops"
  shows "length (ch_items mops (mt_chan s)) \<le> 64"
  using assms(1)
proof (induction rule: reachable.induct)
  case start
  show ?case using assms(2) by (simp add: start_system_def)
next
  case (more s t)
  then show ?case using step_mt_bound [OF more(2) assms(2)] by (simp add: mt_capacity_def)
qed

theorem mt_channel_bounded_witness: "length (ch_items list_chan (mt_chan demo_state)) \<le> 64"
  by (rule mt_channel_bounded [OF reachable_demo chan_laws_list_chan])

text \<open>What a dialog has handed to the outgoing channel is a prefix of what its processor
  produced from the messages it received: answers leave in order, none is invented or sent
  twice.\<close>

theorem replies_in_order:
  assumes "reachable ops mops proc ms s" "chan_laws mops" "causal proc" "d \<in> set (tasks s)"
  shows "prefix (dt_forwarded d) (proc (dt_received d))"
  using reachable_mts_ok [OF assms(1-3)] assms(4)
  by (auto simp: mts_ok_def take_is_prefix split: if_splits)

lemma causal_demo: "causal demo_proc"
  by (simp add: causal_def demo_proc_def)

theorem replies_in_order_witness:
  "prefix (dt_forwarded (tasks demo_state ! 0)) (demo_proc (dt_received (tasks demo_state ! 0)))"
  by (rule replies_in_order [OF reachable_demo chan_laws_list_chan causal_demo demo_task_0(1)])

section \<open>While no dialog ends\<close>

fun ends_dialog :: "action \<Rightarrow> bool" where
  "ends_dialog (Idle _) = True"
| "ends_dialog (CloseIdle _) = True"
| "ends_dialog (StreamEnd _) = True"
| "ends_dialog (StopReading _) = True"
| "ends_dialog (DropReceiver _) = True"
| "ends_dialog (Finish _) = True"
| "ends_dialog ShutDown = True"
| "ends_dialog _ = False"

text \<open>Every open route leads to a running task or is about to start one.\<close>

definition live_ok :: "('c, ('p, 'm) mo) chan_ops \<Rightarrow> ('c, 'd, 'p, 'm, 't) system \<Rightarrow> bool" where
  "live_ok ops s \<longleftrightarrow>
     distinct (map task_uid (tasks s)) \<and> lost s = [] \<and>
     (\<forall>c. \<not> ch_closed ops (chan_store (sys_router s) c)) \<and>
     (\<forall>d \<in> set (tasks s). route_of (sys_router s) (task_uid d) \<noteq> None) \<and>
     (\<forall>m c. in_flight s = Some (m, New c) \<longrightarrow>
        route_of (sys_router s) (user_of m) \<noteq> None \<and> user_of m \<notin> task_uid ` set (tasks s))"

lemma map_task_uid_update [simp]:
  assumes "task_uid d' = task_uid (ts ! i)"
  shows "map task_uid (ts[i := d']) = map task_uid ts"
  using assms by (metis list_update_id map_update)

lemma live_ok_tasks:
  assumes "live_ok ops s" "map task_uid (tasks t) = map task_uid (tasks s)" "in_flight t = in_flight s"
    and "route_of (sys_router t) = route_of (sys_router s)" "lost t = lost s"
    and "\<And>c. \<not> ch_closed ops (chan_store (sys_router t) c)"
  shows "live_ok ops t"
proof -
  have e: "task_uid ` set (tasks t) = task_uid ` set (tasks s)"
    using assms(2) by (metis list.set_map)
  have "\<forall>u \<in> task_uid ` set (tasks t). route_of (sys_router t) u \<noteq> None"
    unfolding e assms(4) using assms(1) by (auto simp: live_ok_def)
  then have r: "\<forall>d \<in> set (tasks t). route_of (sys_router t) (task_uid d) \<noteq> None" by blast
  show ?thesis
    unfolding live_ok_def
    by (intro conjI r) (use assms e in \<open>auto simp: live_ok_def\<close>)
qed

lemma send_mo_open:
  assumes "chan_laws ops" "\<forall>c. \<not> ch_closed ops (chan_store r c)"
  shows "fst (send_mo ops m c r) = Inr ()" "\<not> ch_closed ops (chan_store (snd (send_mo ops m c r)) c')"
proof -
  obtain d where "ch_send ops m (chan_store r c) = Some d" "\<not> ch_closed ops d"
    using assms by (meson chan_send_open)
  with assms show "fst (send_mo ops m c r) = Inr ()" "\<not> ch_closed ops (chan_store (snd (send_mo ops m c r)) c')"
    by (simp_all add: send_mo_def)
qed

lemma live_ok_perform:
  assumes laws: "chan_laws ops" and "\<not> ends_dialog a" and p: "perform ops mops proc a s = Some t"
    and ok: "live_ok ops s"
  shows "live_ok ops t"
proof (cases a)
  case Lookup
  with p laws ok show ?thesis
    by (auto simp: live_ok_def lookup_route_def Let_def split: list.splits option.splits if_splits)
      (metis option.distinct(1))
next
  case Send
  with p send_mo_open [OF laws] ok show ?thesis
    by (auto simp: live_ok_def after_send_def task_new_def task_uid_def user_of_def
        split: option.splits dialog_route.splits prod.splits)
next
  case (Receive i)
  have op: "\<not> ch_closed ops (chan_store (sys_router s) c)" for c
    using ok by (simp add: live_ok_def)
  from p Receive obtain d m c' where d: "i < length (tasks s)" "d = tasks s ! i"
    "ch_recv ops (task_chan s d) = Some (m, c')"
    and t: "t = set_task i (d\<lparr>dt_received := dt_received d @ [m]\<rparr>)
      (s\<lparr>sys_router := (sys_router s)\<lparr>chan_store := (chan_store (sys_router s))(dt_tx d := c')\<rparr>\<rparr>)"
    by (auto simp: task_at_def split: option.splits if_splits)
  have "\<not> ch_closed ops c'"
    using chan_recv_Some(2) [OF laws d(3)] op by (simp add: task_chan_def)
  then show ?thesis
    by (intro live_ok_tasks [OF ok]) (use d(2) op in \<open>simp_all add: t set_task_def task_uid_def\<close>)
next
  case (Forward i)
  with p ok show ?thesis
    by (intro live_ok_tasks [OF ok])
       (auto simp: forward_mt_def set_task_def task_uid_def live_ok_def split: if_splits option.splits)
next
  case ConsumeMt
  with p ok show ?thesis
    by (auto simp: live_ok_def split: option.splits)
qed (use assms(2) in simp_all)

lemma live_ok_perform_all:
  assumes "chan_laws ops"
  shows "list_all (\<lambda>a. \<not> ends_dialog a) as \<Longrightarrow> perform_all ops mops proc as s = Some t \<Longrightarrow>
    live_ok ops s \<Longrightarrow> live_ok ops t"
proof (induction as arbitrary: s)
  case (Cons a as)
  then show ?case by (auto split: option.splits intro: live_ok_perform [OF assms])
qed simp

text \<open>C5: As long as no dialog ends, no user ever has two dialog tasks and no message is
  lost, on every interleaving of routing, receiving and forwarding.\<close>

theorem one_live_dialog_until_end:
  assumes "chan_laws ops" "list_all (\<lambda>a. \<not> ends_dialog a) as"
    and "perform_all ops mops proc as (start_system ops mops ms) = Some s"
  shows "distinct (map task_uid (tasks s)) \<and> lost s = []"
proof -
  have "live_ok ops (start_system ops mops ms)"
    using assms(1) by (simp add: live_ok_def start_system_def router_new_def)
  with live_ok_perform_all [OF assms(1-3)] show ?thesis by (simp add: live_ok_def)
qed

theorem one_live_dialog_until_end_witness:
  "distinct (map task_uid (tasks demo_state)) \<and> lost demo_state = []"
proof (rule one_live_dialog_until_end)
  show "chan_laws list_chan" by (rule chan_laws_list_chan)
  show "list_all (\<lambda>a. \<not> ends_dialog a) demo_schedule" by code_simp
  show "perform_all list_chan list_chan demo_proc demo_schedule (start_system list_chan list_chan demo_mos) =
    Some demo_state"
    using demo_run by (auto simp: demo_state_def)
qed

section \<open>When a dialog ends\<close>

definition race_mos :: "(unit, unit) mo list" where
  "race_mos = [test_mo 97 1, test_mo 97 2, test_mo 97 3]"

definition race_schedule :: "action list" where
  "race_schedule = [Lookup, Send, Receive 0, Idle 0, CloseIdle 0, Lookup, Send, Forward 0, DropReceiver 0, Finish 0, Lookup, Send]"

definition race_state :: "((unit, unit) mo list \<times> bool, u64 list \<times> bool, unit, unit, u64) system" where
  "race_state = the (perform_all list_chan list_chan demo_proc race_schedule (start_system list_chan list_chan race_mos))"

lemma race_run:
  "perform_all list_chan list_chan demo_proc race_schedule (start_system list_chan list_chan race_mos) \<noteq> None"
  by code_simp

lemma reachable_race: "reachable list_chan list_chan demo_proc race_mos race_state"
  using race_run by (auto simp: race_state_def intro: schedule_reachable)

lemma race_tasks:
  "map (\<lambda>d. (task_uid d, dt_phase d, ch_closed list_chan (task_chan race_state d))) (tasks race_state) =
    [(97, Finished, True), (97, Running, False), (97, Running, False)] \<and>
   route_of (sys_router race_state) 97 = Some (dt_tx (tasks race_state ! 2))"
  by code_simp

text \<open>C6: An ended dialog can be followed by a second live one: after an idle dialog closed
  and its user wrote again, the end of the old task removes the new dialog's route, and the
  next message opens a third task while the second still runs on an open channel.\<close>

theorem second_live_dialog:
  "reachable list_chan list_chan demo_proc race_mos race_state \<and>
   map (\<lambda>d. (task_uid d, dt_phase d, ch_closed list_chan (task_chan race_state d))) (tasks race_state) =
     [(97, Finished, True), (97, Running, False), (97, Running, False)] \<and>
   route_of (sys_router race_state) 97 = Some (dt_tx (tasks race_state ! 2))"
  using reachable_race race_tasks by blast

definition lost_schedule :: "action list" where
  "lost_schedule = [Lookup, Send, Receive 0, Idle 0, Lookup, CloseIdle 0, Send]"

definition lost_state :: "((unit, unit) mo list \<times> bool, u64 list \<times> bool, unit, unit, u64) system" where
  "lost_state = the (perform_all list_chan list_chan demo_proc lost_schedule (start_system list_chan list_chan race_mos))"

lemma lost_run:
  "perform_all list_chan list_chan demo_proc lost_schedule (start_system list_chan list_chan race_mos) \<noteq> None"
  by code_simp

lemma lost_lost: "lost lost_state = [test_mo 97 2] \<and> length (tasks lost_state) = 1"
  by code_simp

text \<open>C7: A message can be lost without any shut-down: its route is looked up, the dialog times
  out and closes its channel, and only then the message is sent.\<close>

theorem message_lost_on_idle:
  "reachable list_chan list_chan demo_proc race_mos lost_state \<and>
   lost lost_state = [test_mo 97 2] \<and> length (tasks lost_state) = 1"
  using lost_run lost_lost by (auto simp: lost_state_def intro: schedule_reachable)

section \<open>Shutting down ends\<close>

text \<open>
  The loop from a round on: it ends, at the latest one sleep and the waits of a round after
  the grace period.
\<close>

lemma shutdown_loop_ends:
  assumes laws: "chan_laws ops" "chan_laws mops" and t: "on_time env j" and s: "stores_kept ops env"
    and "\<forall>r \<in> set rs. elapsed_since env t0 (snd (snd r)) < grace \<and> 0 < left_in ops mops env r"
    and "sd_now env w \<le> t0 + grace + millis 1000 + j"
  shows "\<exists>rs' w'. shutdown_loop ops mops env grace t0 rs w = Some (rs', w') \<and>
    rounds_ok ops mops env grace t0 rs' \<and>
    sd_now env w \<le> sd_now env w' \<and> sd_now env w' \<le> t0 + grace + millis 1000 + 6 * j \<and>
    ch_closed mops (sd_mts env w') \<and>
    (\<forall>u c. route_of (sd_router env w') u = Some c \<longrightarrow> ch_closed ops (chan_store (sd_router env w') c))"
  using assms(5,6)
proof (induction "nat (t0 + grace - sd_now env w)" arbitrary: rs w rule: less_induct)
  case less
  let ?a = "sd_lock env w"
  let ?b = "sd_run env ?a"
  let ?c = "sd_run env ?b"
  have now: "sd_now env w \<le> sd_now env ?c" "sd_now env ?c \<le> sd_now env w + 3 * j"
    using on_timeD(2,3) [OF t, of w] on_timeD(4,5) [OF t, of ?a] on_timeD(4,5) [OF t, of ?b] by linarith+
  show ?case
  proof (cases "elapsed_since env t0 ?c < grace \<and> 0 < left_in ops mops env (?a, ?b, ?c)")
    case True
    let ?w = "sd_sleep env (millis 1000) ?c"
    have sl: "sd_now env ?c + millis 1000 \<le> sd_now env ?w" "sd_now env ?w \<le> sd_now env ?c + millis 1000 + j"
      using on_timeD(6,7) [OF t, of "millis 1000" ?c] by (simp_all add: millis_def)
    have el: "sd_now env ?c < t0 + grace" using True by (simp add: elapsed_since_def)
    have "nat (t0 + grace - sd_now env ?w) < nat (t0 + grace - sd_now env w)"
      using el now(1) sl(1) by (simp add: millis_def)
    moreover have "sd_now env ?w \<le> t0 + grace + millis 1000 + j" using el sl(2) by linarith
    moreover have "\<forall>r \<in> set (rs @ [(?a, ?b, ?c)]). elapsed_since env t0 (snd (snd r)) < grace \<and> 0 < left_in ops mops env r"
      using less.prems(1) True by simp
    ultimately obtain rs' w' where "shutdown_loop ops mops env grace t0 (rs @ [(?a, ?b, ?c)]) ?w = Some (rs', w')"
      "rounds_ok ops mops env grace t0 rs'" "sd_now env ?w \<le> sd_now env w'"
      "sd_now env w' \<le> t0 + grace + millis 1000 + 6 * j" "ch_closed mops (sd_mts env w')"
      "\<forall>u c. route_of (sd_router env w') u = Some c \<longrightarrow> ch_closed ops (chan_store (sd_router env w') c)"
      using less.hyps by blast
    moreover have "shutdown_loop ops mops env grace t0 rs w =
        shutdown_loop ops mops env grace t0 (rs @ [(?a, ?b, ?c)]) ?w"
      using True by (subst shutdown_loop.simps) (simp add: Let_def)
    moreover have "sd_now env w \<le> sd_now env w'"
      using now(1) sl(1) \<open>sd_now env ?w \<le> sd_now env w'\<close> by (simp add: millis_def)
    ultimately show ?thesis by auto
  next
    case False
    then have eq: "shutdown_loop ops mops env grace t0 rs w =
        Some (rs @ [(?a, ?b, ?c)], close_channels ops mops env ?c)"
      by (subst shutdown_loop.simps) (auto simp: Let_def)
    have "rounds_ok ops mops env grace t0 (rs @ [(?a, ?b, ?c)])"
      using less.prems(1) False by (auto simp: rounds_ok_def)
    moreover note close_channels_spec [OF laws t s, of ?c]
    ultimately show ?thesis
      using eq now less.prems(2) by fastforce
  qed
qed

text \<open>C8: Shut-down: when no wait is late by more than \<open>j\<close>, shutting down ends, with the table's
  channels and the outgoing channel closed, at least 100 ms and at most 100 ms, the grace
  period, one second and \<open>7 j\<close> after it began. Every round that waited found messages left
  within the grace period; the round that closed found the grace period over or no message
  left in either direction.\<close>

theorem shutdown_within_grace:
  assumes "chan_laws ops" "chan_laws mops" "on_time env j" "stores_kept ops env" "0 \<le> grace"
  shows "\<exists>rs w'. shut_down ops mops env grace w = Some (rs, w') \<and>
    rounds_ok ops mops env grace (sd_now env (sd_sleep env (millis 100) w)) rs \<and>
    sd_now env w + millis 100 \<le> sd_now env w' \<and>
    sd_now env w' \<le> sd_now env w + millis 100 + grace + millis 1000 + 7 * j \<and>
    ch_closed mops (sd_mts env w') \<and>
    (\<forall>u c. route_of (sd_router env w') u = Some c \<longrightarrow> ch_closed ops (chan_store (sd_router env w') c))"
proof -
  let ?w1 = "sd_sleep env (millis 100) w"
  have sl: "sd_now env w + millis 100 \<le> sd_now env ?w1" "sd_now env ?w1 \<le> sd_now env w + millis 100 + j"
    using on_timeD(6,7) [OF assms(3), of "millis 100" w] by (simp_all add: millis_def)
  have "sd_now env ?w1 \<le> sd_now env ?w1 + grace + millis 1000 + j"
    using assms(5) on_timeD(1) [OF assms(3)] by (simp add: millis_def)
  from shutdown_loop_ends [OF assms(1-4) _ this, of "[]"]
  obtain rs w' where "shutdown_loop ops mops env grace (sd_now env ?w1) [] ?w1 = Some (rs, w')"
    "rounds_ok ops mops env grace (sd_now env ?w1) rs" "sd_now env ?w1 \<le> sd_now env w'"
    "sd_now env w' \<le> sd_now env ?w1 + grace + millis 1000 + 6 * j" "ch_closed mops (sd_mts env w')"
    "\<forall>u c. route_of (sd_router env w') u = Some c \<longrightarrow> ch_closed ops (chan_store (sd_router env w') c)"
    by auto
  with sl show ?thesis
    unfolding shut_down_def Let_def
    by (intro exI [of _ rs] exI [of _ w'] conjI) (assumption | linarith)+
qed

text \<open>A world in which waits are exact and one message is never taken from its channel.\<close>

definition stuck_env :: "(int \<times> 'c router \<times> 'd, 'c, 'd) shutdown_env" where
  "stuck_env =
     \<lparr>sd_now = fst, sd_sleep = (\<lambda>d (t, s). (t + d, s)), sd_lock = id, sd_run = id,
      sd_router = (\<lambda>w. fst (snd w)), sd_put_router = (\<lambda>r (t, _, d). (t, r, d)),
      sd_mts = (\<lambda>w. snd (snd w)), sd_put_mts = (\<lambda>d (t, r, _). (t, r, d))\<rparr>"

definition stuck_world :: "int \<times> ((unit, unit) mo list \<times> bool) router \<times> (unit list \<times> bool)" where
  "stuck_world = (0, snd (route_mo list_chan (test_mo 97 1) (router_new (ch_new list_chan))), ch_new list_chan)"

lemma stuck_env_laws: "on_time stuck_env 0" "stores_kept list_chan stuck_env"
  by (auto simp: on_time_def stores_kept_def stuck_env_def)

text \<open>With a grace period of 1.5 s the channels close after 2 s: the loop sleeps whole seconds.\<close>

lemma stuck_world_run:
  "map_option (\<lambda>(rs, w). (map (\<lambda>r. fst (fst r)) rs, fst w, route_of (fst (snd w)) 97))
     (shut_down list_chan list_chan stuck_env (millis 1500) stuck_world) =
   Some ([millis 100, millis 1100, millis 2100], millis 2100, Some 0)"
  by code_simp

theorem shutdown_within_grace_witness:
  "\<exists>w'. map_option snd (shut_down list_chan list_chan stuck_env (millis 1500) stuck_world) = Some w' \<and>
     fst w' = millis 2100 \<and> fst w' \<le> millis 100 + millis 1500 + millis 1000 \<and>
     snd (snd (snd w')) \<and> snd (chan_store (fst (snd w')) 0)"
proof -
  obtain rs w' where w': "shut_down list_chan list_chan stuck_env (millis 1500) stuck_world = Some (rs, w')"
    and le: "sd_now stuck_env w' \<le> sd_now stuck_env stuck_world + millis 100 + millis 1500 + millis 1000 + 7 * 0"
    and mt: "ch_closed list_chan (sd_mts stuck_env w')"
    and mo: "\<forall>u c. route_of (sd_router stuck_env w') u = Some c \<longrightarrow> ch_closed list_chan (chan_store (sd_router stuck_env w') c)"
    using shutdown_within_grace [OF chan_laws_list_chan chan_laws_list_chan stuck_env_laws, of "millis 1500" stuck_world]
    by (auto simp: millis_def)
  have run: "fst w' = millis 2100" "route_of (fst (snd w')) 97 = Some 0"
    using stuck_world_run unfolding w' by auto
  have "snd (chan_store (fst (snd w')) 0)"
    using mo run(2) by (auto simp: stuck_env_def list_chan_def)
  moreover have "snd (snd (snd w'))" using mt by (simp add: stuck_env_def list_chan_def)
  ultimately show ?thesis
    using w' run(1) by (simp add: millis_def)
qed

section \<open>One call of \<open>route_mo\<close> and of \<open>close_dialog\<close>\<close>

text \<open>One call of \<open>route_mo\<close> whose user has no closed channel puts the message at the end
  of the one channel the table gives its user afterwards, returns a new dialog context exactly
  when the user had no route, and touches no other user's route and no other channel.\<close>

theorem route_mo_delivers:
  assumes laws: "chan_laws ops"
    and op: "\<And>c. route_of r (user_of m) = Some c \<Longrightarrow> \<not> ch_closed ops (chan_store r c)"
    and run: "route_mo ops m r = (ctx, r')"
  shows "\<exists>tx. route_of r' = (route_of r)(user_of m \<mapsto> tx) \<and>
    ch_items ops (chan_store r' tx) =
      (if route_of r (user_of m) = None then [] else ch_items ops (chan_store r tx)) @ [m] \<and>
    (\<forall>c. c \<noteq> tx \<longrightarrow> chan_store r' c = chan_store r c) \<and>
    ctx = (if route_of r (user_of m) = None
           then Some \<lparr>ctx_user = sender m, ctx_mo_tx = tx, ctx_mo_rx = tx\<rparr> else None)"
proof (cases "route_of r (user_of m)")
  case None
  obtain c' where "ch_send ops m (ch_new ops) = Some c'" "ch_items ops c' = ch_items ops (ch_new ops) @ [m]"
    using chan_send_open [OF laws chan_new(2) [OF laws]] .
  with None run laws show ?thesis
    by (intro exI [of _ "next_chan r"])
       (auto simp: route_mo_def lookup_route_def send_mo_def Let_def)
next
  case (Some tx)
  obtain c' where "ch_send ops m (chan_store r tx) = Some c'" "ch_items ops c' = ch_items ops (chan_store r tx) @ [m]"
    using chan_send_open [OF laws op [OF Some]] .
  moreover have "(route_of r)(user_of m \<mapsto> tx) = route_of r" using Some by (rule map_upd_triv)
  ultimately show ?thesis
    using Some run
    by (intro exI [of _ tx]) (auto simp: route_mo_def lookup_route_def send_mo_def Let_def)
qed

theorem route_mo_delivers_witness:
  "\<exists>tx. route_of (snd (route_mo list_chan (test_mo 97 1) (router_new ([], False)))) = [97 \<mapsto> tx]"
proof -
  have none: "route_of (router_new ([] :: (unit, unit) mo list, False)) = Map.empty"
    by (simp add: router_new_def route_of_def)
  show ?thesis
    using route_mo_delivers [OF chan_laws_list_chan _ prod.collapse [symmetric], of "router_new ([], False)" "test_mo 97 1"]
    by (auto simp: none)
qed

text \<open>\<open>close_dialog\<close> reports whether the user had a route, leaves the user without one
  and everyone else's alone, keeps what the channels hold, and closes the given channel
  exactly when it removed a route; a message after it opens a new dialog.\<close>

theorem close_dialog_contract:
  assumes "chan_laws ops" "close_dialog ops u tx r = (had, r')"
  shows "had = (route_of r u \<noteq> None) \<and> route_of r' = (route_of r)(u := None) \<and>
    (\<forall>c. ch_items ops (chan_store r' c) = ch_items ops (chan_store r c)) \<and>
    (\<forall>c. ch_closed ops (chan_store r' c) = (ch_closed ops (chan_store r c) \<or> had \<and> c = tx)) \<and>
    (\<forall>m. user_of m = u \<longrightarrow> fst (route_mo ops m r') \<noteq> None)"
proof -
  have "fst (route_mo ops m r') \<noteq> None" if "user_of m = u" for m
    using table.reenter_after_leave [of ops m tx r] assms(2) that by simp
  with assms show ?thesis
    by (auto simp: close_dialog_def Let_def split: if_splits)
qed

theorem close_dialog_contract_witness:
  "fst (close_dialog list_chan 5 0 (router_new ([] :: (unit, unit) mo list, False))) = False"
proof -
  have "route_of (router_new ([] :: (unit, unit) mo list, False)) 5 = None"
    by (simp add: router_new_def route_of_def)
  with close_dialog_contract [OF chan_laws_list_chan prod.collapse [symmetric],
      of 5 0 "router_new ([] :: (unit, unit) mo list, False)", THEN conjunct1]
  show ?thesis by simp
qed

end
