(* ===== verification/Config.thy ===== *)
theory Config
  imports Prelude
begin

text \<open>
  Configuration and start-up: the records of \<open>src/src/models/config.rs\<close>, the command-line
  options and their merge (\<open>src/src/bin/models/cli.rs\<close>) and the decision the program takes
  at start (\<open>src/src/bin/bot_starter_kit.rs\<close>). A \<open>Duration\<close> is its number of
  nanoseconds. Reading and writing the encrypted file is the crate \<open>ogre_config_meld\<close>:
  what it returns is an argument.
\<close>

section \<open>The configuration\<close>

type_synonym duration = nat

definition from_secs :: "u64 \<Rightarrow> duration" where
  "from_secs n = unat n * 10 ^ 9"

definition from_mins :: "u64 \<Rightarrow> duration" where
  "from_mins n = unat n * 60 * 10 ^ 9"

datatype level_filter = Off | ErrorLevel | Warn | Info | Debug | Trace

datatype integration_mode =
    Polling
  | WebHook (wh_url: rstr) (wh_secret: rstr) (wh_certificate_file: rstr) (wh_private_key_file: rstr)

record repository_config =
  users_repository_db_file :: rstr

record dialog_processor_config =
  dialog_processor_idle_timeout :: duration
  per_user_mo_throttle_interval :: duration
  shutdown_grace_period :: duration

record telegram_config =
  teloxide_token :: rstr
  integration_mode :: integration_mode

record logging_config =
  level :: level_filter

record bot_config =
  repository :: repository_config
  dialog_processor :: dialog_processor_config
  telegram :: telegram_config
  logging :: logging_config

definition const_default :: bot_config where
  "const_default =
     \<lparr>repository = \<lparr>users_repository_db_file = []\<rparr>,
      dialog_processor =
        \<lparr>dialog_processor_idle_timeout = from_mins 30,
         per_user_mo_throttle_interval = from_secs 5,
         shutdown_grace_period = from_mins 1\<rparr>,
      telegram = \<lparr>teloxide_token = [], integration_mode = Polling\<rparr>,
      logging = \<lparr>level = Debug\<rparr>\<rparr>"

section \<open>Command-line options\<close>

record cli_options =
  write_effective_config :: bool
  show_effective_config :: bool
  log_level :: "level_filter option"
  opt_teloxide_token :: "rstr option"
  telegram_webhook_url :: "rstr option"
  telegram_webhook_secret :: "rstr option"
  telegram_webhook_certificate_file :: "rstr option"
  telegram_webhook_private_key_file :: "rstr option"
  dialog_idle_timeout_secs :: "u64 option"
  per_user_mo_throttle_interval_secs :: "u64 option"
  shutdown_grace_period_secs :: "u64 option"

definition no_options :: cli_options where
  "no_options =
     \<lparr>write_effective_config = False, show_effective_config = False, log_level = None,
      opt_teloxide_token = None, telegram_webhook_url = None, telegram_webhook_secret = None,
      telegram_webhook_certificate_file = None, telegram_webhook_private_key_file = None,
      dialog_idle_timeout_secs = None, per_user_mo_throttle_interval_secs = None,
      shutdown_grace_period_secs = None\<rparr>"

datatype config_error =
    MergingLogicViolation
  | WriteRequiredForToken
  | NoTeloxideToken
  | LoadError rstr
  | SaveError rstr

text \<open>\<open>opt.inspect(|x| config.field = x)\<close>\<close>

definition inspect_set :: "'a option \<Rightarrow> ('a \<Rightarrow> 's \<Rightarrow> 's) \<Rightarrow> 's \<Rightarrow> 's" where
  "inspect_set x set_it s = (case x of None \<Rightarrow> s | Some v \<Rightarrow> set_it v s)"

definition non_blank :: "rstr option \<Rightarrow> rstr option" where
  "non_blank x = (case x of None \<Rightarrow> None | Some s \<Rightarrow> if is_blank s then None else Some s)"

definition merge_scalars :: "cli_options \<Rightarrow> bot_config \<Rightarrow> bot_config" where
  "merge_scalars o1 c =
     (let c = inspect_set (log_level o1) (\<lambda>l c. c\<lparr>logging := (logging c)\<lparr>level := l\<rparr>\<rparr>) c;
          c = inspect_set (opt_teloxide_token o1) (\<lambda>t c. c\<lparr>telegram := (telegram c)\<lparr>teloxide_token := t\<rparr>\<rparr>) c;
          c = inspect_set (dialog_idle_timeout_secs o1)
                (\<lambda>n c. c\<lparr>dialog_processor := (dialog_processor c)\<lparr>dialog_processor_idle_timeout := from_secs n\<rparr>\<rparr>) c;
          c = inspect_set (per_user_mo_throttle_interval_secs o1)
                (\<lambda>n c. c\<lparr>dialog_processor := (dialog_processor c)\<lparr>per_user_mo_throttle_interval := from_secs n\<rparr>\<rparr>) c
      in inspect_set (shutdown_grace_period_secs o1)
           (\<lambda>n c. c\<lparr>dialog_processor := (dialog_processor c)\<lparr>shutdown_grace_period := from_secs n\<rparr>\<rparr>) c)"

definition merge_webhook :: "cli_options \<Rightarrow> bot_config \<Rightarrow> (config_error, bot_config) result" where
  "merge_webhook o1 c =
     (case (non_blank (telegram_webhook_url o1), non_blank (telegram_webhook_secret o1),
            non_blank (telegram_webhook_certificate_file o1), non_blank (telegram_webhook_private_key_file o1)) of
        (Some u, Some s, Some cert, Some key) \<Rightarrow>
          Inr (c\<lparr>telegram := (telegram c)\<lparr>integration_mode := WebHook u s cert key\<rparr>\<rparr>)
      | (None, None, None, None) \<Rightarrow> Inr c
      | _ \<Rightarrow> Inl MergingLogicViolation)"

definition merge_with_config :: "cli_options \<Rightarrow> bot_config \<Rightarrow> (config_error, bot_config) result" where
  "merge_with_config o1 c = merge_webhook o1 (merge_scalars o1 c)"

section \<open>Start-up\<close>

text \<open>What the program does: stop with an error, save and exit, or run the bot.\<close>

datatype startup = Stop config_error | SavedAndExit bot_config | RunBot bot_config

definition effective_base ::
  "cli_options \<Rightarrow> (rstr, bot_config option) result \<Rightarrow> (config_error, bot_config) result" where
  "effective_base o1 loaded =
     (case loaded of
        Inl err \<Rightarrow> Inl (LoadError err)
      | Inr (Some c) \<Rightarrow> Inr c
      | Inr None \<Rightarrow>
          (case opt_teloxide_token o1 of
             Some _ \<Rightarrow> if \<not> write_effective_config o1 then Inl WriteRequiredForToken else Inr const_default
           | None \<Rightarrow> Inl NoTeloxideToken))"

definition parse_cmdline_and_merge ::
  "cli_options \<Rightarrow> (rstr, bot_config option) result \<Rightarrow> (bot_config \<Rightarrow> (rstr, unit) result) \<Rightarrow> bot_config list \<times> startup" where
  "parse_cmdline_and_merge o1 loaded save =
     (case effective_base o1 loaded of
        Inl e \<Rightarrow> ([], Stop e)
      | Inr base \<Rightarrow>
          (case merge_with_config o1 base of
             Inl e \<Rightarrow> ([], Stop e)
           | Inr c \<Rightarrow>
               (let shown = (if show_effective_config o1 then [c] else [])
                in (shown,
                    if write_effective_config o1
                    then (case save c of Inl e \<Rightarrow> Stop (SaveError e) | Inr _ \<Rightarrow> SavedAndExit c)
                    else RunBot c))))"

section \<open>Lemmas\<close>

lemma inspect_set_simps [simp]:
  "inspect_set None f s = s"
  "inspect_set (Some v) f s = f v s"
  by (simp_all add: inspect_set_def)

lemma non_blank_simps [simp]:
  "non_blank None = None"
  "is_blank s \<Longrightarrow> non_blank (Some s) = None"
  "\<not> is_blank s \<Longrightarrow> non_blank (Some s) = Some s"
  by (simp_all add: non_blank_def)

lemma non_blank_Some: "non_blank x = Some s \<longleftrightarrow> x = Some s \<and> \<not> is_blank s"
  by (auto simp: non_blank_def split: option.splits)

definition webhook_options :: "cli_options \<Rightarrow> rstr option list" where
  "webhook_options o1 =
     map non_blank [telegram_webhook_url o1, telegram_webhook_secret o1,
       telegram_webhook_certificate_file o1, telegram_webhook_private_key_file o1]"

lemma merge_webhook_iff:
  "merge_webhook o1 c = Inr c' \<longleftrightarrow>
     webhook_options o1 = [None, None, None, None] \<and> c' = c \<or>
     (\<exists>u s cert key. webhook_options o1 = [Some u, Some s, Some cert, Some key] \<and>
        c' = c\<lparr>telegram := (telegram c)\<lparr>integration_mode := WebHook u s cert key\<rparr>\<rparr>)"
  by (auto simp: merge_webhook_def webhook_options_def split: option.splits)

lemma merge_scalars_fields:
  "repository (merge_scalars o1 c) = repository c"
  "level (logging (merge_scalars o1 c)) = (case log_level o1 of None \<Rightarrow> level (logging c) | Some l \<Rightarrow> l)"
  "teloxide_token (telegram (merge_scalars o1 c)) =
     (case opt_teloxide_token o1 of None \<Rightarrow> teloxide_token (telegram c) | Some t \<Rightarrow> t)"
  "integration_mode (telegram (merge_scalars o1 c)) = integration_mode (telegram c)"
  "dialog_processor_idle_timeout (dialog_processor (merge_scalars o1 c)) =
     (case dialog_idle_timeout_secs o1 of None \<Rightarrow> dialog_processor_idle_timeout (dialog_processor c) | Some n \<Rightarrow> from_secs n)"
  "per_user_mo_throttle_interval (dialog_processor (merge_scalars o1 c)) =
     (case per_user_mo_throttle_interval_secs o1 of None \<Rightarrow> per_user_mo_throttle_interval (dialog_processor c) | Some n \<Rightarrow> from_secs n)"
  "shutdown_grace_period (dialog_processor (merge_scalars o1 c)) =
     (case shutdown_grace_period_secs o1 of None \<Rightarrow> shutdown_grace_period (dialog_processor c) | Some n \<Rightarrow> from_secs n)"
  by (simp_all add: merge_scalars_def Let_def inspect_set_def split: option.splits)

lemma bot_config_eqI:
  fixes c d :: bot_config
  assumes "repository c = repository d" "level (logging c) = level (logging d)"
    "teloxide_token (telegram c) = teloxide_token (telegram d)"
    "integration_mode (telegram c) = integration_mode (telegram d)"
    "dialog_processor_idle_timeout (dialog_processor c) = dialog_processor_idle_timeout (dialog_processor d)"
    "per_user_mo_throttle_interval (dialog_processor c) = per_user_mo_throttle_interval (dialog_processor d)"
    "shutdown_grace_period (dialog_processor c) = shutdown_grace_period (dialog_processor d)"
  shows "c = d"
  using assms by (cases c; cases d) (auto intro!: logging_config.equality telegram_config.equality dialog_processor_config.equality)

lemma merge_scalars_telegram [simp]:
  "merge_scalars o1 (c\<lparr>telegram := (telegram c)\<lparr>integration_mode := m\<rparr>\<rparr>) =
   (merge_scalars o1 c)\<lparr>telegram := (telegram (merge_scalars o1 c))\<lparr>integration_mode := m\<rparr>\<rparr>"
  by (rule bot_config_eqI) (simp_all add: merge_scalars_fields split: option.splits)

lemma merge_scalars_idem [simp]: "merge_scalars o1 (merge_scalars o1 c) = merge_scalars o1 c"
  by (rule bot_config_eqI) (simp_all add: merge_scalars_fields split: option.splits)

section \<open>Properties\<close>

text \<open>C27: Merging options into a configuration either fails, exactly when some but not all of
  the four webhook options are given and non-blank, or changes precisely the given fields: each
  given scalar option replaces its field, four webhook options select the webhook mode with
  those very strings, no webhook option keeps the mode that was there.\<close>

theorem merge_with_config_spec:
  "(case merge_with_config o1 c of
      Inl e \<Rightarrow> e = MergingLogicViolation \<and> None \<in> set (webhook_options o1) \<and> webhook_options o1 \<noteq> [None, None, None, None]
    | Inr c' \<Rightarrow>
        (None \<in> set (webhook_options o1) \<longleftrightarrow> webhook_options o1 = [None, None, None, None]) \<and>
        repository c' = repository c \<and>
        level (logging c') = (case log_level o1 of None \<Rightarrow> level (logging c) | Some l \<Rightarrow> l) \<and>
        teloxide_token (telegram c') = (case opt_teloxide_token o1 of None \<Rightarrow> teloxide_token (telegram c) | Some t \<Rightarrow> t) \<and>
        dialog_processor_idle_timeout (dialog_processor c') =
          (case dialog_idle_timeout_secs o1 of None \<Rightarrow> dialog_processor_idle_timeout (dialog_processor c) | Some n \<Rightarrow> from_secs n) \<and>
        per_user_mo_throttle_interval (dialog_processor c') =
          (case per_user_mo_throttle_interval_secs o1 of None \<Rightarrow> per_user_mo_throttle_interval (dialog_processor c) | Some n \<Rightarrow> from_secs n) \<and>
        shutdown_grace_period (dialog_processor c') =
          (case shutdown_grace_period_secs o1 of None \<Rightarrow> shutdown_grace_period (dialog_processor c) | Some n \<Rightarrow> from_secs n) \<and>
        integration_mode (telegram c') =
          (case webhook_options o1 of
             [Some u, Some s, Some cert, Some key] \<Rightarrow> WebHook u s cert key
           | _ \<Rightarrow> integration_mode (telegram c)))"
proof (cases "merge_with_config o1 c")
  case (Inl e)
  show ?thesis
    unfolding Inl using Inl
    by (auto simp: merge_with_config_def merge_webhook_def webhook_options_def split: option.splits)
next
  case (Inr c')
  show ?thesis
    unfolding Inr using Inr
    by (auto simp: merge_with_config_def merge_webhook_iff merge_scalars_fields)
qed

text \<open>Merging is idempotent: merging the same options into the effective configuration (what
  a saved file holds on the next run) gives that configuration again.\<close>

theorem merge_with_config_idem:
  assumes "merge_with_config o1 c = Inr c'"
  shows "merge_with_config o1 c' = Inr c'"
proof -
  have "merge_scalars o1 c' = c'"
    using assms by (auto simp: merge_with_config_def merge_webhook_iff)
  with assms show ?thesis
    by (auto simp: merge_with_config_def merge_webhook_iff)
qed

theorem merge_with_config_idem_witness:
  "merge_with_config (no_options\<lparr>log_level := Some Trace, dialog_idle_timeout_secs := Some 7\<rparr>)
     (const_default\<lparr>dialog_processor := (dialog_processor const_default)\<lparr>dialog_processor_idle_timeout := 7000000000\<rparr>,
                    logging := \<lparr>level = Trace\<rparr>\<rparr>) =
   Inr (const_default\<lparr>dialog_processor := (dialog_processor const_default)\<lparr>dialog_processor_idle_timeout := 7000000000\<rparr>,
                    logging := \<lparr>level = Trace\<rparr>\<rparr>)"
  by (rule merge_with_config_idem [of _ const_default])
     (simp add: merge_with_config_def merge_scalars_def merge_webhook_def no_options_def from_secs_def
        const_default_def)

text \<open>The bot runs only on a configuration that was read from the file, and then on its
  merge with the options; without a file it can only write one (which needs the token and
  \<open>-w\<close>) or stop; and with \<open>-w\<close> it never runs.\<close>

theorem startup_needs_file:
  assumes "snd (parse_cmdline_and_merge o1 loaded save) = RunBot c"
  shows "(\<exists>base. loaded = Inr (Some base) \<and> merge_with_config o1 base = Inr c) \<and> \<not> write_effective_config o1"
  using assms
  by (auto simp: parse_cmdline_and_merge_def effective_base_def Let_def
      split: sum.splits option.splits if_splits)

theorem startup_needs_file_witness:
  "\<exists>base. Inr (Some const_default) = (Inr (Some base) :: (rstr, bot_config option) result) \<and>
     merge_with_config no_options base = Inr const_default"
  using startup_needs_file [of no_options "Inr (Some const_default)" "\<lambda>_. Inr ()" const_default]
  by (simp add: parse_cmdline_and_merge_def effective_base_def merge_with_config_def merge_scalars_def
      merge_webhook_def no_options_def)

end
