(* ===== verification/TelegramGateway.thy ===== *)
theory TelegramGateway
  imports Router Config
begin

text \<open>
  The Telegram gateway, \<open>src/src/messaging/gateways/telegram_gateway.rs\<close>: Telegram's
  updates mapped to the platform-neutral messages, the hand-over from the Telegram event
  loop to the router, the sending task of outgoing messages, and the set-up of the HTTPS
  webhook. Of the types of the \<open>teloxide\<close> crate the records below keep the fields the code
  reads; \<open>url\<close>, \<open>rustls\<close>, the network and \<open>teloxide\<close> itself are arguments.
\<close>

section \<open>Updates\<close>

record telegram_user =
  tu_id :: u64
  username :: "rstr option"
  first_name :: rstr
  last_name :: "rstr option"
  language_code :: "rstr option"

datatype chat_kind = PublicChat | PrivateChat

text \<open>\<open>MessageId\<close> is an \<open>i32\<close>.\<close>

record message =
  msg_id :: int
  msg_from :: "telegram_user option"
  chat_kind :: chat_kind
  msg_text :: "rstr option"
  reply_to :: "int option"

datatype maybe_message = Regular message | Inaccessible

record callback_query =
  cq_id :: rstr
  cq_from :: telegram_user
  cq_message :: "maybe_message option"
  cq_data :: "rstr option"

datatype telegram_mo = Message message | CallbackQuery callback_query

fun regular_message :: "maybe_message \<Rightarrow> message option" where
  "regular_message (Regular m) = Some m"
| "regular_message Inaccessible = None"

section \<open>From updates to messages\<close>

fun map_kind :: "chat_kind \<Rightarrow> dialog_kind" where
  "map_kind PublicChat = Group"
| "map_kind PrivateChat = Private"

definition map_language :: "rstr option \<Rightarrow> language" where
  "map_language l =
     (case l of
        None \<Rightarrow> language.Unspecified
      | Some s \<Rightarrow>
          if s = ''en'' then English
          else if s = ''pt'' then Portuguese
          else if s = [] then language.Unspecified
          else Unknown)"

definition unwrap_or_default :: "rstr option \<Rightarrow> rstr" where
  "unwrap_or_default x = (case x of None \<Rightarrow> [] | Some s \<Rightarrow> s)"

definition map_user :: "telegram_user \<Rightarrow> telegram_user party" where
  "map_user u =
     with_name (first_name u @ '' '' @ unwrap_or_default (last_name u))
       (with_address (unwrap_or_default (username u)) (party_new (tu_id u) u))"

text \<open>\<open>message.id.0 as u64\<close> sign-extends.\<close>

definition map_mo :: "telegram_mo \<Rightarrow> (telegram_user, telegram_mo) mo option" where
  "map_mo mo1 =
     (case mo1 of
        Message m \<Rightarrow>
          (let i = word_of_int (msg_id m)
           in case msg_from m of
                None \<Rightarrow> None
              | Some from \<Rightarrow>
                  (let sender = map_user from;
                       kind = map_kind (chat_kind m);
                       language = map_language (Option.bind (msg_from m) language_code);
                       dialog = dialog_new i kind language
                   in Some (mo_new i sender dialog mo1)))
      | CallbackQuery q \<Rightarrow>
          (case Option.bind (cq_message q) regular_message of
             None \<Rightarrow> None
           | Some m \<Rightarrow>
               (let i = word_of_int (msg_id m);
                    kind = map_kind (chat_kind m);
                    language = map_language (Option.bind (msg_from m) language_code);
                    dialog = dialog_new i kind language;
                    sender = map_user (cq_from q)
                in Some (mo_new i sender dialog mo1))))"

definition mo_stream :: "telegram_mo list \<Rightarrow> (telegram_user, telegram_mo) mo list" where
  "mo_stream = List.map_filter map_mo"

text \<open>Who wrote an update, as far as the gateway can tell.\<close>

fun author :: "telegram_mo \<Rightarrow> telegram_user option" where
  "author (Message m) = msg_from m"
| "author (CallbackQuery q) = Some (cq_from q)"

lemma map_user_simps [simp]:
  "party_id (map_user u) = tu_id u"
  "inner (map_user u) = u"
  by (simp_all add: map_user_def)

lemma wf_map_user: "wf_party (map_user u)"
  by (simp add: map_user_def wf_party_new wf_with_address wf_with_name)

section \<open>The incoming channel\<close>

text \<open>
  \<open>handler\<close> and \<open>on_callback\<close> send into a channel bounded to 64: the send waits while it
  is full and open, and fails only when it is closed; Telegram is then asked to retry in
  15 seconds.
\<close>

datatype 'c delivery = Waiting | RetryAfter nat | Delivered 'c

definition mo_capacity :: nat where
  "mo_capacity = 64"

definition handler :: "('c, telegram_mo) chan_ops \<Rightarrow> message \<Rightarrow> 'c \<Rightarrow> 'c delivery" where
  "handler ops m c =
     (if \<not> ch_closed ops c \<and> mo_capacity \<le> length (ch_items ops c) then Waiting
      else (case ch_send ops (Message m) c of None \<Rightarrow> RetryAfter 15 | Some c' \<Rightarrow> Delivered c'))"

definition on_callback :: "('c, telegram_mo) chan_ops \<Rightarrow> callback_query \<Rightarrow> 'c \<Rightarrow> 'c delivery" where
  "on_callback ops q c =
     (if \<not> ch_closed ops c \<and> mo_capacity \<le> length (ch_items ops c) then Waiting
      else (case ch_send ops (CallbackQuery q) c of None \<Rightarrow> RetryAfter 15 | Some c' \<Rightarrow> Delivered c'))"

lemma handler_cases:
  assumes "chan_laws ops"
  shows "(case handler ops m c of
      Waiting \<Rightarrow> \<not> ch_closed ops c \<and> mo_capacity \<le> length (ch_items ops c)
    | RetryAfter n \<Rightarrow> n = 15 \<and> ch_closed ops c
    | Delivered c' \<Rightarrow> ch_items ops c' = ch_items ops c @ [Message m] \<and> length (ch_items ops c') \<le> mo_capacity)"
proof (cases "ch_send ops (Message m) c")
  case None
  then have "ch_closed ops c"
    using chan_send_open [OF assms] by (metis option.distinct(1))
  with None show ?thesis by (simp add: handler_def)
next
  case (Some c')
  with chan_send_Some [OF assms Some] show ?thesis by (simp add: handler_def)
qed

section \<open>The sending task\<close>

text \<open>
  \<open>consume_mt_stream\<close>: \<open>for_each_concurrent(4)\<close> runs at most four sends at a time; a
  failed send is logged and dropped. \<open>sends\<close> are the outcomes of the futures in stream order.
\<close>

record sending =
  mts_waiting :: "(rstr, rstr) result list"
  mts_running :: "(rstr, rstr) result list"
  mts_done :: "(rstr, rstr) result list"

definition all_users_mt_concurrency :: nat where
  "all_users_mt_concurrency = 4"

inductive send_step :: "nat \<Rightarrow> sending \<Rightarrow> sending \<Rightarrow> bool" for concurrency where
  begin_send: "mts_waiting s = r # rs \<Longrightarrow> length (mts_running s) < concurrency \<Longrightarrow>
     send_step concurrency s (s\<lparr>mts_waiting := rs, mts_running := mts_running s @ [r]\<rparr>)"
| end_send: "mts_running s = as @ r # bs \<Longrightarrow>
     send_step concurrency s (s\<lparr>mts_running := as @ bs, mts_done := mts_done s @ [r]\<rparr>)"

definition sending_start :: "(rstr, rstr) result list \<Rightarrow> sending" where
  "sending_start rs = \<lparr>mts_waiting = rs, mts_running = [], mts_done = []\<rparr>"

definition sending_size :: "sending \<Rightarrow> nat" where
  "sending_size s = 2 * length (mts_waiting s) + length (mts_running s)"

lemma send_step_size: "send_step n s t \<Longrightarrow> sending_size t < sending_size s"
  by (induction rule: send_step.induct) (auto simp: sending_size_def)

lemma send_step_mset:
  "send_step n s t \<Longrightarrow>
     mset (mts_waiting t) + mset (mts_running t) + mset (mts_done t) =
     mset (mts_waiting s) + mset (mts_running s) + mset (mts_done s)"
  by (induction rule: send_step.induct) auto

lemma send_step_bound:
  "send_step n s t \<Longrightarrow> length (mts_running s) \<le> n \<Longrightarrow> length (mts_running t) \<le> n"
  by (induction rule: send_step.induct) auto

lemma send_steps_inv:
  assumes "(send_step n)\<^sup>*\<^sup>* (sending_start rs) s"
  shows "length (mts_running s) \<le> n \<and> mset rs = mset (mts_waiting s) + mset (mts_running s) + mset (mts_done s)"
  using assms
proof (induction rule: rtranclp_induct)
  case base
  show ?case by (simp add: sending_start_def)
next
  case (step y z)
  then show ?case using send_step_mset [OF step(2)] send_step_bound [OF step(2)] by simp
qed

lemma send_stuck:
  assumes "\<And>t. \<not> send_step n s t" "0 < n"
  shows "mts_waiting s = [] \<and> mts_running s = []"
proof -
  have run: "mts_running s = []"
  proof (cases "mts_running s")
    case (Cons r rs)
    then have "mts_running s = [] @ r # rs" by simp
    from end_send [OF this] assms(1) show ?thesis by blast
  qed simp
  moreover have "mts_waiting s = []"
  proof (cases "mts_waiting s")
    case (Cons r rs)
    with begin_send [OF Cons] run assms show ?thesis by auto
  qed simp
  ultimately show ?thesis by simp
qed

section \<open>One outgoing message\<close>

definition sending_prefix :: rstr where
  "sending_prefix = ''Telegram Gateway: error sending MT ''"

text \<open>
  \<open>mt\<close>: release builds print the placeholder \<open>{payload}\<close> literally, debug builds the
  request. \<open>mts\<close> wraps any asynchronous process.
\<close>

definition mt_future :: "bool \<Rightarrow> rstr \<Rightarrow> (rstr, rstr) result \<Rightarrow> (rstr, rstr) result" where
  "mt_future debug_assertions request sent =
     map_err (\<lambda>err. sending_prefix @ [CHR 0x27] @ (if debug_assertions then request else ''{payload}'') @
       [CHR 0x27] @ '': '' @ err) sent"

definition mts_future :: "(rstr, rstr) result \<Rightarrow> (rstr, rstr) result" where
  "mts_future process = map_err (\<lambda>err. ''Telegram Gateway: error processing or sending MTs: '' @ err) process"

section \<open>Awaiting termination\<close>

record 'h gateway =
  join_handle :: "'h option"

datatype termination_error = TaskEndedInError rstr | NotStartedOrFinished

definition await_termination ::
  "('h \<Rightarrow> (rstr, unit) result) \<Rightarrow> 'h gateway \<Rightarrow> (termination_error, unit) result \<times> 'h gateway" where
  "await_termination join g =
     (case join_handle g of
        Some h \<Rightarrow> (map_err TaskEndedInError (join h), g\<lparr>join_handle := None\<rparr>)
      | None \<Rightarrow> (Inl NotStartedOrFinished, g))"

section \<open>The webhook\<close>

record 'u url_ops =
  url_parse :: "rstr \<Rightarrow> (rstr, 'u) result"
  url_scheme :: "'u \<Rightarrow> rstr"
  url_port :: "'u \<Rightarrow> nat option"

datatype webhook_error =
    UrlRequired
  | UrlInvalid rstr
  | UrlNotHttps
  | UrlPortMissing
  | UrlPortUnsupported nat
  | PrivateKeyRequired
  | CertificateRequired
  | CertificateOpen rstr rstr
  | CertificateParse rstr rstr
  | CertificateEmpty rstr
  | PrivateKeyRead rstr rstr
  | TlsBuild rstr
  | BindFailed rstr
  | SetupFailed rstr

definition parse_webhook_url :: "'u url_ops \<Rightarrow> rstr \<Rightarrow> (webhook_error, 'u) result" where
  "parse_webhook_url ops s =
     (if is_blank s then Inl UrlRequired
      else bind_res (map_err UrlInvalid (url_parse ops s)) (\<lambda>u.
        if url_scheme ops u \<noteq> ''https'' then Inl UrlNotHttps
        else bind_res (ok_or UrlPortMissing (url_port ops u)) (\<lambda>port.
          if port \<notin> {80, 88, 443, 8443} then Inl (UrlPortUnsupported port) else Inr u)))"

text \<open>\<open>0.0.0.0\<close> and the port.\<close>

definition webhook_bind_addr :: "'u url_ops \<Rightarrow> 'u \<Rightarrow> (webhook_error, nat list \<times> nat) result" where
  "webhook_bind_addr ops u =
     bind_res (ok_or UrlPortMissing (url_port ops u)) (\<lambda>port. Inr ([0, 0, 0, 0], port))"

definition webhook_tls_files :: "rstr \<Rightarrow> rstr \<Rightarrow> (webhook_error, (rstr \<times> rstr) option) result" where
  "webhook_tls_files certificate_file private_key_file =
     (let certificate_file = trim certificate_file;
          certificate_file = (if certificate_file = [] then None else Some certificate_file);
          private_key_file = trim private_key_file;
          private_key_file = (if private_key_file = [] then None else Some private_key_file)
      in case (certificate_file, private_key_file) of
           (Some c, Some k) \<Rightarrow> Inr (Some (c, k))
         | (None, None) \<Rightarrow> Inr None
         | (Some _, None) \<Rightarrow> Inl PrivateKeyRequired
         | (None, Some _) \<Rightarrow> Inl CertificateRequired)"

text \<open>What the TLS set-up reads and builds: PEM items come one by one and each may fail.\<close>

record ('x, 'k, 't) tls_ops =
  pem_file_iter :: "rstr \<Rightarrow> (rstr, (rstr, 'x) result list) result"
  key_from_pem_file :: "rstr \<Rightarrow> (rstr, 'k) result"
  with_single_cert :: "'x list \<Rightarrow> 'k \<Rightarrow> (rstr, 't) result"

fun collect_results :: "('e, 'a) result list \<Rightarrow> ('e, 'a list) result" where
  "collect_results [] = Inr []"
| "collect_results (r # rs) = bind_res r (\<lambda>x. bind_res (collect_results rs) (\<lambda>xs. Inr (x # xs)))"

definition load_tls_server_config ::
  "('x, 'k, 't) tls_ops \<Rightarrow> rstr \<Rightarrow> rstr \<Rightarrow> (webhook_error, 't) result" where
  "load_tls_server_config ops certificate_file private_key_file =
     bind_res (map_err (CertificateOpen certificate_file) (pem_file_iter ops certificate_file)) (\<lambda>items.
     bind_res (map_err (CertificateParse certificate_file) (collect_results items)) (\<lambda>chain.
     if chain = [] then Inl (CertificateEmpty certificate_file)
     else
       bind_res (map_err (PrivateKeyRead private_key_file) (key_from_pem_file ops private_key_file)) (\<lambda>key.
       map_err TlsBuild (with_single_cert ops chain key))))"

text \<open>How \<open>run_webhook\<close> ends up serving: over its own TLS listener or a plain one.\<close>

datatype ('u, 't, 'b) serving =
    ServeTls 'b 't 'u rstr rstr
  | ServePlain "nat list \<times> nat" 'u rstr

record ('u, 'b) network_ops =
  tcp_bind :: "nat list \<times> nat \<Rightarrow> (rstr, 'b) result"
  set_webhook :: "'u \<Rightarrow> rstr \<Rightarrow> rstr option \<Rightarrow> (rstr, unit) result"

definition run_webhook ::
  "'u url_ops \<Rightarrow> ('x, 'k, 't) tls_ops \<Rightarrow> ('u, 'b) network_ops \<Rightarrow> rstr \<Rightarrow> rstr \<Rightarrow> rstr \<Rightarrow> rstr \<Rightarrow>
   (webhook_error, ('u, 't, 'b) serving) result" where
  "run_webhook uops tops nops webhook_url secret certificate_file private_key_file =
     bind_res (parse_webhook_url uops webhook_url) (\<lambda>url.
     bind_res (webhook_bind_addr uops url) (\<lambda>addr.
     bind_res (webhook_tls_files certificate_file private_key_file) (\<lambda>files.
       case files of
         Some (cert, key) \<Rightarrow>
           bind_res (load_tls_server_config tops cert key) (\<lambda>tls.
           bind_res (map_err BindFailed (tcp_bind nops addr)) (\<lambda>listener.
           bind_res (map_err SetupFailed (set_webhook nops url secret (Some cert))) (\<lambda>_.
             Inr (ServeTls listener tls url secret cert))))
       | None \<Rightarrow>
           bind_res (map_err SetupFailed (set_webhook nops url secret None)) (\<lambda>_.
             Inr (ServePlain addr url secret)))))"

section \<open>Accepting TLS connections\<close>

text \<open>
  The loop of \<open>TlsListener::accept\<close> over what the socket yields: a failed accept sleeps a
  second and goes on, a failed handshake goes on, the first good one is returned. With no
  event left the call is still waiting.
\<close>

fun tls_accept ::
  "('s \<Rightarrow> (rstr, 't) result) \<Rightarrow> (rstr, 's \<times> 'a) result list \<Rightarrow> (('t \<times> 'a) \<times> (rstr, 's \<times> 'a) result list) option" where
  "tls_accept handshake [] = None"
| "tls_accept handshake (Inl err # es) = tls_accept handshake es"
| "tls_accept handshake (Inr (stream, addr) # es) =
     (case handshake stream of
        Inr t \<Rightarrow> Some ((t, addr), es)
      | Inl _ \<Rightarrow> tls_accept handshake es)"

definition good_connection :: "('s \<Rightarrow> (rstr, 't) result) \<Rightarrow> (rstr, 's \<times> 'a) result \<Rightarrow> bool" where
  "good_connection handshake e = (case e of Inl _ \<Rightarrow> False | Inr (stream, _) \<Rightarrow> is_ok (handshake stream))"

lemma collect_results_map [simp]: "collect_results (map Inr xs) = Inr xs"
  by (induction xs) simp_all

lemma collect_results_Inr: "collect_results rs = Inr xs \<longleftrightarrow> rs = map Inr xs"
proof
  show "collect_results rs = Inr xs \<Longrightarrow> rs = map Inr xs"
    by (induction rs arbitrary: xs) (auto elim!: bind_res_InrE)
qed simp

section \<open>Properties\<close>

text \<open>C9: Mapping updates: an update is dropped exactly when it is a message without a sender or a
  click whose message is missing or not available. Every other becomes a message of the
  neutral model that carries the update unchanged, the identity of the user who wrote it (for
  a button click the clicking user), an address and a name that are either absent or non-empty
  and trimmed, and a dialog with the id, the kind of chat and the sender's language of the
  message itself or of the message clicked on.\<close>

theorem map_mo_faithful:
  "(map_mo u = None \<longleftrightarrow>
      (case u of
         Message m \<Rightarrow> msg_from m = None
       | CallbackQuery q \<Rightarrow> cq_message q = None \<or> cq_message q = Some Inaccessible)) \<and>
   (case map_mo u of
      None \<Rightarrow> True
    | Some m \<Rightarrow> payload m = u \<and> author u = Some (inner (sender m)) \<and>
        user_of m = tu_id (inner (sender m)) \<and> wf_party (sender m) \<and>
        dialog_id (mo_dialog m) = mo_id m \<and>
        (\<exists>src. (u = Message src \<or> (\<exists>q. u = CallbackQuery q \<and> cq_message q = Some (Regular src))) \<and>
           mo_id m = word_of_int (msg_id src) \<and> kind (mo_dialog m) = map_kind (chat_kind src) \<and>
           language (mo_dialog m) = map_language (Option.bind (msg_from src) language_code)))"
  by (auto simp: map_mo_def Let_def user_of_def wf_map_user
      split: telegram_mo.splits option.splits maybe_message.splits bind_splits
      elim: regular_message.elims)

text \<open>The webhook URL is accepted exactly when it parses to an HTTPS URL whose port is
  80, 88, 443 or 8443, and then the local address to bind is that port on every interface.\<close>

theorem parse_webhook_url_accepts:
  "parse_webhook_url ops s = Inr u \<longleftrightarrow>
     \<not> is_blank s \<and> url_parse ops s = Inr u \<and> url_scheme ops u = ''https'' \<and>
     (\<exists>port. url_port ops u = Some port \<and> (port = 80 \<or> port = 88 \<or> port = 443 \<or> port = 8443) \<and>
        webhook_bind_addr ops u = Inr ([0, 0, 0, 0], port))"
  by (auto simp: parse_webhook_url_def webhook_bind_addr_def split: if_splits elim!: bind_res_InrE)

text \<open>The webhook starts serving over TLS only with a certificate chain that is not empty
  and parsed completely, a key that was read, a bound listener and a webhook registered with
  the certificate; and over plain HTTP only when neither file is configured.\<close>

theorem run_webhook_serves:
  assumes "run_webhook uops tops nops s secret cert_file key_file = Inr serving"
  shows "\<exists>u port. parse_webhook_url uops s = Inr u \<and> url_port uops u = Some port \<and>
    (case serving of
       ServeTls listener tls u' secret' cert \<Rightarrow>
         u' = u \<and> secret' = secret \<and> cert = trim cert_file \<and> cert \<noteq> [] \<and> trim key_file \<noteq> [] \<and>
         (\<exists>chain key. pem_file_iter tops cert = Inr (map Inr chain) \<and> chain \<noteq> [] \<and>
            key_from_pem_file tops (trim key_file) = Inr key \<and> with_single_cert tops chain key = Inr tls) \<and>
         tcp_bind nops ([0, 0, 0, 0], port) = Inr listener \<and> set_webhook nops u secret (Some cert) = Inr ()
     | ServePlain addr u' secret' \<Rightarrow>
         u' = u \<and> secret' = secret \<and> addr = ([0, 0, 0, 0], port) \<and>
         trim cert_file = [] \<and> trim key_file = [] \<and> set_webhook nops u secret None = Inr ())"
  using assms
  by (auto simp: run_webhook_def webhook_bind_addr_def webhook_tls_files_def load_tls_server_config_def Let_def
      collect_results_Inr split: if_splits option.splits)

definition sample_url :: "rstr url_ops" where
  "sample_url = \<lparr>url_parse = Inr, url_scheme = (\<lambda>_. ''https''), url_port = (\<lambda>_. Some 443)\<rparr>"

definition sample_tls :: "(unit, unit, unit) tls_ops" where
  "sample_tls =
     \<lparr>pem_file_iter = (\<lambda>_. Inr [Inr ()]), key_from_pem_file = (\<lambda>_. Inr ()), with_single_cert = (\<lambda>_ _. Inr ())\<rparr>"

definition sample_net :: "(rstr, unit) network_ops" where
  "sample_net = \<lparr>tcp_bind = (\<lambda>_. Inr ()), set_webhook = (\<lambda>_ _ _. Inr ())\<rparr>"

lemma sample_webhook:
  "run_webhook sample_url sample_tls sample_net ''https://h/'' ''s'' ''c'' '' k '' = Inr (ServeTls () () ''https://h/'' ''s'' ''c'')"
  by code_simp

theorem run_webhook_serves_witness:
  "\<exists>u port. parse_webhook_url sample_url ''https://h/'' = Inr u \<and> url_port sample_url u = Some port"
  using run_webhook_serves [OF sample_webhook] by blast

text \<open>The TLS listener returns the first connection that is accepted and completes its
  handshake, skipping every failure before it, and keeps waiting exactly when there is none.\<close>

theorem tls_accept_first_good:
  "(case tls_accept handshake es of
      None \<Rightarrow> filter (good_connection handshake) es = []
    | Some ((t, addr), rest) \<Rightarrow>
        (\<exists>skipped stream. es = skipped @ Inr (stream, addr) # rest \<and> handshake stream = Inr t \<and>
           filter (good_connection handshake) skipped = []))"
proof (induction handshake es rule: tls_accept.induct)
  case (2 handshake err es)
  then show ?case
    by (cases "tls_accept handshake es") (auto simp: good_connection_def intro: exI [of _ "Inl err # _"])
next
  case (3 handshake stream addr es)
  show ?case
  proof (cases "handshake stream")
    case (Inl e)
    with 3 [OF Inl] show ?thesis
      by (cases "tls_accept handshake es")
         (auto simp: good_connection_def intro: exI [of _ "Inr (stream, addr) # _"])
  next
    case (Inr t)
    then show ?thesis by (auto intro: exI [of _ "[]"])
  qed
qed simp

text \<open>The sending task never has more than four sends under way, loses and repeats none,
  and, when it can do nothing more, has finished every send whatever failed.\<close>

theorem sends_complete:
  assumes "(send_step all_users_mt_concurrency)\<^sup>*\<^sup>* (sending_start rs) s"
  shows "length (mts_running s) \<le> 4 \<and>
    mset rs = mset (mts_waiting s) + mset (mts_running s) + mset (mts_done s) \<and>
    ((\<forall>t. \<not> send_step all_users_mt_concurrency s t) \<longrightarrow> mset (mts_done s) = mset rs)"
proof -
  have inv: "length (mts_running s) \<le> 4 \<and> mset rs = mset (mts_waiting s) + mset (mts_running s) + mset (mts_done s)"
    using send_steps_inv [OF assms] by (simp add: all_users_mt_concurrency_def)
  moreover have "mset (mts_done s) = mset rs" if "\<forall>t. \<not> send_step all_users_mt_concurrency s t"
    using send_stuck [of all_users_mt_concurrency s] that inv by (simp add: all_users_mt_concurrency_def)
  ultimately show ?thesis by blast
qed

theorem sends_complete_witness:
  "length (mts_running (sending_start [Inr ''ok'', Inl ''lost''])) \<le> 4"
  using sends_complete [of "[Inr ''ok'', Inl ''lost'']" "sending_start [Inr ''ok'', Inl ''lost'']"] by simp

text \<open>Awaiting termination can succeed at most once: the first call joins the sending task
  and reports how it ended, any later call fails.\<close>

theorem await_termination_once:
  "let (r1, g1) = await_termination join g; (r2, g2) = await_termination join g1
   in r2 = Inl NotStartedOrFinished \<and> g2 = g1 \<and>
      (r1 = Inr ()) = (\<exists>h. join_handle g = Some h \<and> join h = Inr ())"
  by (auto simp: await_termination_def Let_def map_err_def split: option.splits sum.splits)

end
