(* ===== verification/Ingest.thy ===== *)
theory Ingest
  imports Prelude
begin

text \<open>
  Bulk loading, \<open>ingest_stream\<close> of the three databases: \<open>src/src/db/heed/async_heed.rs\<close>,
  \<open>src/src/db/redb/async_redb.rs\<close> and \<open>src/src/db/sqlite/sqlite_wrapper.rs\<close>. The engines
  (\<open>heed\<close>, \<open>redb\<close>, \<open>sqlx\<close>) are external: \<open>engine_ops\<close> is what the code calls of a
  transaction and \<open>engine_laws\<close> that a transaction sees what was committed, that each call
  changes its own view only, and that a commit publishes that view. An input stream is the
  list of its items.
\<close>

record ('e, 't, 'i, 'c) engine_ops =
  begin_txn :: "'e \<Rightarrow> (rstr, 't) result"
  open_table :: "'t \<Rightarrow> (rstr, 't) result"
  put_item :: "'i \<Rightarrow> 't \<Rightarrow> (rstr, 't) result"
  commit_txn :: "'t \<Rightarrow> 'e \<Rightarrow> (rstr, 'e) result"
  committed :: "'e \<Rightarrow> 'c"
  pending :: "'t \<Rightarrow> 'c"

definition engine_laws :: "('i \<Rightarrow> 'c \<Rightarrow> 'c) \<Rightarrow> ('e, 't, 'i, 'c) engine_ops \<Rightarrow> bool" where
  "engine_laws eff ops \<longleftrightarrow>
     (\<forall>e t. begin_txn ops e = Inr t \<longrightarrow> pending ops t = committed ops e) \<and>
     (\<forall>t t'. open_table ops t = Inr t' \<longrightarrow> pending ops t' = pending ops t) \<and>
     (\<forall>i t t'. put_item ops i t = Inr t' \<longrightarrow> pending ops t' = eff i (pending ops t)) \<and>
     (\<forall>t e e'. commit_txn ops t e = Inr e' \<longrightarrow> committed ops e' = pending ops t)"

datatype ingest_error =
    CouldNotBegin rstr
  | CouldNotOpenTable rstr
  | AtElement nat rstr
  | CouldNotCommit rstr

type_synonym 'e ingest = "(ingest_error, nat) result \<times> 'e"

section \<open>Heed\<close>

fun heed_loop :: "('e, 't, 'i, 'c) engine_ops \<Rightarrow> 'i list \<Rightarrow> nat \<Rightarrow> 't \<Rightarrow> (ingest_error, nat \<times> 't) result" where
  "heed_loop ops [] count t = Inr (count, t)"
| "heed_loop ops (i # is) count t =
     bind_res (map_err (AtElement count) (put_item ops i t)) (heed_loop ops is (Suc count))"

definition heed_ingest :: "('e, 't, 'i, 'c) engine_ops \<Rightarrow> 'i list \<Rightarrow> 'e \<Rightarrow> 'e ingest" where
  "heed_ingest ops items e =
     (case begin_txn ops e of
        Inl err \<Rightarrow> (Inl (CouldNotBegin err), e)
      | Inr t \<Rightarrow>
          (case heed_loop ops items 0 t of
             Inl err \<Rightarrow> (Inl err, e)
           | Inr (count, t) \<Rightarrow>
               (case commit_txn ops t e of
                  Inl err \<Rightarrow> (Inl (CouldNotCommit err), e)
                | Inr e' \<Rightarrow> (Inr count, e'))))"

section \<open>ReDB\<close>

fun redb_loop :: "('e, 't, 'i, 'c) engine_ops \<Rightarrow> 'i list \<Rightarrow> nat \<Rightarrow> 't \<Rightarrow> (ingest_error, nat \<times> 't) result" where
  "redb_loop ops [] count t = Inr (count, t)"
| "redb_loop ops (i # is) count t =
     bind_res (map_err (AtElement count) (put_item ops i t)) (redb_loop ops is (Suc count))"

definition redb_ingest :: "('e, 't, 'i, 'c) engine_ops \<Rightarrow> 'i list \<Rightarrow> 'e \<Rightarrow> 'e ingest" where
  "redb_ingest ops items e =
     (case begin_txn ops e of
        Inl err \<Rightarrow> (Inl (CouldNotBegin err), e)
      | Inr t \<Rightarrow>
          (case open_table ops t of
             Inl err \<Rightarrow> (Inl (CouldNotOpenTable err), e)
           | Inr t \<Rightarrow>
               (case redb_loop ops items 0 t of
                  Inl err \<Rightarrow> (Inl err, e)
                | Inr (count, t) \<Rightarrow>
                    (case commit_txn ops t e of
                       Inl err \<Rightarrow> (Inl (CouldNotCommit err), e)
                     | Inr e' \<Rightarrow> (Inr count, e')))))"

section \<open>SQLite\<close>

text \<open>Each item is bound to the insert statement and executed in the open transaction.\<close>

fun sqlite_loop :: "('e, 't, 'i, 'c) engine_ops \<Rightarrow> 'i list \<Rightarrow> nat \<Rightarrow> 't \<Rightarrow> (ingest_error, nat \<times> 't) result" where
  "sqlite_loop ops [] count t = Inr (count, t)"
| "sqlite_loop ops (i # is) count t =
     bind_res (map_err (AtElement count) (put_item ops i t)) (sqlite_loop ops is (Suc count))"

definition sqlite_ingest :: "('e, 't, 'i, 'c) engine_ops \<Rightarrow> 'i list \<Rightarrow> 'e \<Rightarrow> 'e ingest" where
  "sqlite_ingest ops items e =
     (case begin_txn ops e of
        Inl err \<Rightarrow> (Inl (CouldNotBegin err), e)
      | Inr t \<Rightarrow>
          (case sqlite_loop ops items 0 t of
             Inl err \<Rightarrow> (Inl err, e)
           | Inr (count, t) \<Rightarrow>
               (case commit_txn ops t e of
                  Inl err \<Rightarrow> (Inl (CouldNotCommit err), e)
                | Inr e' \<Rightarrow> (Inr count, e'))))"

section \<open>The interface\<close>

text \<open>
  What the benchmarks rely on: a load either publishes the effect of every item, in order,
  and returns their number, or publishes nothing.
\<close>

locale bulk_loader =
  fixes lawful :: bool
    and load :: "'i list \<Rightarrow> 'e \<Rightarrow> 'e ingest"
    and contents :: "'e \<Rightarrow> 'c"
    and eff :: "'i \<Rightarrow> 'c \<Rightarrow> 'c"
  assumes load_Inr: "lawful \<Longrightarrow> load items e = (Inr n, e') \<Longrightarrow>
      n = length items \<and> contents e' = fold eff items (contents e)"
    and load_Inl: "load items e = (Inl err, e') \<Longrightarrow> e' = e"
    and load_position: "load items e = (Inl (AtElement k msg), e') \<Longrightarrow> k < length items"
begin

lemma load_twice:
  assumes "lawful" "load xs e = (Inr m, e1)" "load ys e1 = (Inr n, e2)"
  shows "contents e2 = fold eff (xs @ ys) (contents e) \<and> m + n = length (xs @ ys)"
  using load_Inr [OF assms(1,2)] load_Inr [OF assms(1,3)] by simp

lemma load_contents:
  assumes "lawful"
  shows "contents (snd (load items e)) =
    (if is_ok (fst (load items e)) then fold eff items (contents e) else contents e)"
  using load_Inr [OF assms, of items e] load_Inl [of items e]
  by (cases "load items e"; cases "fst (load items e)") auto

end

lemma engine_lawsD:
  assumes "engine_laws eff ops"
  shows "begin_txn ops e = Inr t \<Longrightarrow> pending ops t = committed ops e"
    and "open_table ops t = Inr t' \<Longrightarrow> pending ops t' = pending ops t"
    and "put_item ops i t = Inr t' \<Longrightarrow> pending ops t' = eff i (pending ops t)"
    and "commit_txn ops t e = Inr e' \<Longrightarrow> committed ops e' = pending ops t"
  using assms unfolding engine_laws_def by blast+

lemma loop_Inr:
  assumes "engine_laws eff ops"
  shows "heed_loop ops items c t = Inr (n, t') \<Longrightarrow> n = c + length items \<and> pending ops t' = fold eff items (pending ops t)"
proof (induction items arbitrary: c t)
  case (Cons i items)
  then obtain u where "put_item ops i t = Inr u" "heed_loop ops items (Suc c) u = Inr (n, t')" by auto
  with Cons.IH [OF this(2)] engine_lawsD(3) [OF assms this(1)] show ?case by simp
qed simp

lemma loop_position: "heed_loop ops items c t = Inl (AtElement k err) \<Longrightarrow> k < c + length items"
proof (induction items arbitrary: c t)
  case (Cons i items)
  show ?case
  proof (cases "put_item ops i t")
    case (Inl e)
    with Cons.prems show ?thesis by simp
  next
    case (Inr t')
    with Cons.prems have "heed_loop ops items (Suc c) t' = Inl (AtElement k err)" by simp
    from Cons.IH [OF this] show ?thesis by simp
  qed
qed simp

lemma loops_agree: "redb_loop ops items c t = heed_loop ops items c t" "sqlite_loop ops items c t = heed_loop ops items c t"
  by (induction items arbitrary: c t) (simp_all add: bind_res_def split: sum.splits)

lemma loop_error: "heed_loop ops items c t = Inl err \<Longrightarrow> \<exists>k e. err = AtElement k e"
  by (induction items arbitrary: c t) (auto simp: bind_res_def map_err_def split: sum.splits)

interpretation heed_loader: bulk_loader "engine_laws eff ops" "heed_ingest ops" "committed ops" eff
proof unfold_locales
  fix items e e' n
  assume laws: "engine_laws eff ops" and run: "heed_ingest ops items e = (Inr n, e')"
  show "n = length items \<and> committed ops e' = fold eff items (committed ops e)"
    using run
    by (auto simp: heed_ingest_def loops_agree engine_lawsD [OF laws] dest: loop_Inr [OF laws] split: sum.splits prod.splits)
next
  fix items e e' k msg
  assume "heed_ingest ops items e = (Inl (AtElement k msg), e')"
  then show "k < length items"
    by (auto simp: heed_ingest_def loops_agree dest: loop_position split: sum.splits prod.splits)
qed (auto simp: heed_ingest_def split: sum.splits prod.splits)

interpretation redb_loader: bulk_loader "engine_laws eff ops" "redb_ingest ops" "committed ops" eff
proof unfold_locales
  fix items e e' n
  assume laws: "engine_laws eff ops" and run: "redb_ingest ops items e = (Inr n, e')"
  show "n = length items \<and> committed ops e' = fold eff items (committed ops e)"
    using run
    by (auto simp: redb_ingest_def loops_agree engine_lawsD [OF laws] dest: loop_Inr [OF laws] split: sum.splits prod.splits)
next
  fix items e e' k msg
  assume "redb_ingest ops items e = (Inl (AtElement k msg), e')"
  then show "k < length items"
    by (auto simp: redb_ingest_def loops_agree dest: loop_position split: sum.splits prod.splits)
qed (auto simp: redb_ingest_def split: sum.splits prod.splits)

interpretation sqlite_loader: bulk_loader "engine_laws eff ops" "sqlite_ingest ops" "committed ops" eff
proof unfold_locales
  fix items e e' n
  assume laws: "engine_laws eff ops" and run: "sqlite_ingest ops items e = (Inr n, e')"
  show "n = length items \<and> committed ops e' = fold eff items (committed ops e)"
    using run
    by (auto simp: sqlite_ingest_def loops_agree engine_lawsD [OF laws] dest: loop_Inr [OF laws] split: sum.splits prod.splits)
next
  fix items e e' k msg
  assume "sqlite_ingest ops items e = (Inl (AtElement k msg), e')"
  then show "k < length items"
    by (auto simp: sqlite_ingest_def loops_agree dest: loop_position split: sum.splits prod.splits)
qed (auto simp: sqlite_ingest_def split: sum.splits prod.splits)

section \<open>Properties\<close>

text \<open>An engine over key-value lists, the last binding of a key first.\<close>

definition list_engine :: "(('k \<times> 'v) list, ('k \<times> 'v) list, 'k \<times> 'v, ('k \<times> 'v) list) engine_ops" where
  "list_engine =
     \<lparr>begin_txn = Inr, open_table = Inr, put_item = (\<lambda>i t. Inr (i # t)), commit_txn = (\<lambda>t _. Inr t),
      committed = (\<lambda>e. e), pending = (\<lambda>t. t)\<rparr>"

lemma engine_laws_list: "engine_laws (#) list_engine"
  by (simp add: engine_laws_def list_engine_def)

text \<open>C23: Each of the three loaders is all or nothing: it publishes the effect of every item, in
  stream order, and returns their number, or it fails, at an element of the stream or while
  opening or committing, and the database is as it was.\<close>

theorem ingest_all_or_nothing:
  assumes "engine_laws eff ops" "load = heed_ingest ops \<or> load = redb_ingest ops \<or> load = sqlite_ingest ops"
  shows "(case load items e of
      (Inr n, e') \<Rightarrow> n = length items \<and> committed ops e' = fold eff items (committed ops e)
    | (Inl (AtElement k msg), e') \<Rightarrow> k < length items \<and> e' = e
    | (Inl _, e') \<Rightarrow> e' = e)"
proof -
  obtain r e' where le: "load items e = (r, e')" by (cases "load items e")
  have pos: "k < length items" if "r = Inl (AtElement k msg)" for k msg
    using assms(2) le that heed_loader.load_position redb_loader.load_position sqlite_loader.load_position by metis
  have same: "e' = e" if "r = Inl err" for err
    using assms(2) le that heed_loader.load_Inl redb_loader.load_Inl sqlite_loader.load_Inl by metis
  have all: "n = length items \<and> committed ops e' = fold eff items (committed ops e)" if "r = Inr n" for n
    using assms le that heed_loader.load_Inr redb_loader.load_Inr sqlite_loader.load_Inr by metis
  show ?thesis
    unfolding le using pos same all by (auto split: sum.splits ingest_error.splits)
qed

theorem ingest_all_or_nothing_witness:
  "committed list_engine (snd (heed_ingest list_engine [(1::nat, ''a''), (2, ''b'')] [])) = [(2, ''b''), (1, ''a'')]"
  using ingest_all_or_nothing [OF engine_laws_list, of "heed_ingest list_engine" "[(1::nat, ''a''), (2, ''b'')]" "[]"]
  by (simp add: heed_ingest_def list_engine_def)

end
