(* ===== verification/Jobs.thy ===== *)
theory Jobs
  imports Prelude
begin

text \<open>
  Asynchronous functions that call the outside world and stop at the first \<open>?\<close> that fails:
  state passing with a result. \<open>keeps P j\<close> says that a job preserves a property of the
  world it runs in.
\<close>

type_synonym ('e, 's, 'a) job = "'s \<Rightarrow> ('e, 'a) result \<times> 's"

definition job_return :: "'a \<Rightarrow> ('e, 's, 'a) job" where
  "job_return x s = (Inr x, s)"

definition job_fail :: "'e \<Rightarrow> ('e, 's, 'a) job" where
  "job_fail e s = (Inl e, s)"

definition job_bind :: "('e, 's, 'a) job \<Rightarrow> ('a \<Rightarrow> ('e, 's, 'b) job) \<Rightarrow> ('e, 's, 'b) job" where
  "job_bind j f s = (case j s of (Inl e, s') \<Rightarrow> (Inl e, s') | (Inr x, s') \<Rightarrow> f x s')"

definition job_map_err :: "('e \<Rightarrow> 'f) \<Rightarrow> ('e, 's, 'a) job \<Rightarrow> ('f, 's, 'a) job" where
  "job_map_err f j s = (case j s of (r, s') \<Rightarrow> (map_err f r, s'))"

text \<open>A result that needs no call, and a call whose error is dropped (\<open>_ = f().await\<close>).\<close>

definition job_lift :: "('e, 'a) result \<Rightarrow> ('e, 's, 'a) job" where
  "job_lift r s = (r, s)"

definition job_ignore :: "('e, 's, 'a) job \<Rightarrow> 's \<Rightarrow> 's" where
  "job_ignore j s = snd (j s)"

fun job_iter :: "('i \<Rightarrow> 'a \<Rightarrow> ('e, 's, 'a) job) \<Rightarrow> 'i list \<Rightarrow> 'a \<Rightarrow> ('e, 's, 'a) job" where
  "job_iter f [] a = job_return a"
| "job_iter f (i # is) a = job_bind (f i a) (job_iter f is)"

text \<open>\<open>iter().map(|x| ...).collect::<Result<Vec<_>>>()\<close> with calls inside.\<close>

fun job_map :: "('i \<Rightarrow> ('e, 's, 'a) job) \<Rightarrow> 'i list \<Rightarrow> ('e, 's, 'a list) job" where
  "job_map f [] = job_return []"
| "job_map f (i # is) = job_bind (f i) (\<lambda>x. job_bind (job_map f is) (\<lambda>xs. job_return (x # xs)))"

definition keeps :: "('s \<Rightarrow> bool) \<Rightarrow> ('e, 's, 'a) job \<Rightarrow> bool" where
  "keeps P j \<longleftrightarrow> (\<forall>s. P s \<longrightarrow> P (snd (j s)))"

named_theorems keeps_rules \<open>how jobs are built keeps what their parts keep\<close>

lemma keepsD: "keeps P j \<Longrightarrow> P s \<Longrightarrow> P (snd (j s))"
  by (simp add: keeps_def)

lemma keeps_return [keeps_rules, intro, simp]: "keeps P (job_return x)"
  by (simp add: keeps_def job_return_def)

lemma keeps_fail [keeps_rules, intro, simp]: "keeps P (job_fail e)"
  by (simp add: keeps_def job_fail_def)

lemma keeps_lift [keeps_rules, intro, simp]: "keeps P (job_lift r)"
  by (simp add: keeps_def job_lift_def)

lemma keeps_map_err [keeps_rules, intro]: "keeps P j \<Longrightarrow> keeps P (job_map_err f j)"
  by (simp add: keeps_def job_map_err_def case_prod_beta)

lemma keeps_bind [keeps_rules, intro]:
  assumes "keeps P j" "\<And>x. keeps P (f x)"
  shows "keeps P (job_bind j f)"
  unfolding keeps_def
proof (intro allI impI)
  fix s assume "P s"
  with assms(1) have "P (snd (j s))" by (simp add: keeps_def)
  with assms(2) show "P (snd (job_bind j f s))"
    by (auto simp: job_bind_def keeps_def split: prod.splits sum.splits)
qed

lemma keeps_iter [keeps_rules, intro]: "(\<And>i a. keeps P (f i a)) \<Longrightarrow> keeps P (job_iter f is a)"
  by (induction "is" arbitrary: a) auto

lemma keeps_map [keeps_rules, intro]: "(\<And>i. keeps P (f i)) \<Longrightarrow> keeps P (job_map f is)"
  by (induction "is") auto

lemma keeps_if [keeps_rules, intro]: "keeps P j \<Longrightarrow> keeps P k \<Longrightarrow> keeps P (if b then j else k)"
  by simp

lemma job_bind_simps [simp]:
  "job_bind (job_return x) f = f x"
  "job_bind (job_fail e) f = job_fail e"
  "job_bind (job_lift (Inr x)) f = f x"
  "job_bind (job_lift (Inl e)) f = job_fail e"
  by (simp_all add: fun_eq_iff job_bind_def job_return_def job_fail_def job_lift_def)

lemma job_bind_Inr:
  "job_bind j f s = (Inr y, s') \<longleftrightarrow> (\<exists>x s1. j s = (Inr x, s1) \<and> f x s1 = (Inr y, s'))"
  by (auto simp: job_bind_def split: prod.splits sum.splits)

lemma job_map_err_Inr [simp]: "job_map_err f j s = (Inr y, s') \<longleftrightarrow> j s = (Inr y, s')"
  by (auto simp: job_map_err_def split: prod.splits)

lemma job_lift_Inr [simp]: "job_lift r s = (Inr y, s') \<longleftrightarrow> r = Inr y \<and> s' = s"
  by (auto simp: job_lift_def)

lemma job_return_Inr [simp]: "job_return x s = (Inr y, s') \<longleftrightarrow> x = y \<and> s' = s"
  by (auto simp: job_return_def)

lemma job_fail_Inr [simp]: "\<not> job_fail e s = (Inr y, s')"
  by (simp add: job_fail_def)

section \<open>Triples\<close>

text \<open>Started where \<open>P\<close> holds, the job ends with \<open>Q\<close> or with an error that satisfies \<open>E\<close>.\<close>

definition triple :: "('s \<Rightarrow> bool) \<Rightarrow> ('e, 's, 'a) job \<Rightarrow> ('e \<Rightarrow> bool) \<Rightarrow> ('a \<Rightarrow> 's \<Rightarrow> bool) \<Rightarrow> bool" where
  "triple P j E Q \<longleftrightarrow> (\<forall>s. P s \<longrightarrow> (case j s of (Inl e, _) \<Rightarrow> E e | (Inr x, s') \<Rightarrow> Q x s'))"

named_theorems triple_rules \<open>one rule per way of building a job\<close>

lemma triple_bind [triple_rules]:
  assumes "triple P j E Q" "\<And>x. triple (Q x) (f x) E R"
  shows "triple P (job_bind j f) E R"
  using assms by (fastforce simp: triple_def job_bind_def split: prod.splits sum.splits)

lemma triple_return [triple_rules]: "(\<And>s. P s \<Longrightarrow> Q x s) \<Longrightarrow> triple P (job_return x) E Q"
  by (simp add: triple_def job_return_def)

lemma triple_if [triple_rules]:
  "(b \<Longrightarrow> triple P j E Q) \<Longrightarrow> (\<not> b \<Longrightarrow> triple P k E Q) \<Longrightarrow> triple P (if b then j else k) E Q"
  by simp

lemma triple_lift:
  "(\<And>s x. P s \<Longrightarrow> r = Inr x \<Longrightarrow> Q x s) \<Longrightarrow> (\<And>s e. P s \<Longrightarrow> r = Inl e \<Longrightarrow> E e) \<Longrightarrow> triple P (job_lift r) E Q"
  by (auto simp: triple_def job_lift_def split: sum.splits)

lemma triple_pre: "triple P j E Q \<Longrightarrow> (\<And>s. P' s \<Longrightarrow> P s) \<Longrightarrow> triple P' j E Q"
  by (simp add: triple_def)

lemma triple_post: "triple P j E Q \<Longrightarrow> (\<And>x s. Q x s \<Longrightarrow> Q' x s) \<Longrightarrow> triple P j E Q'"
  by (fastforce simp: triple_def split: prod.splits sum.splits)

text \<open>An invariant over the items still to come and the accumulator.\<close>

lemma triple_iter:
  assumes "\<And>i is a. triple (I (i # is) a) (f i a) E (\<lambda>b. I is b)"
  shows "triple (I is a) (job_iter f is a) E (\<lambda>b. I [] b)"
proof (induction "is" arbitrary: a)
  case Nil
  show ?case by (simp add: triple_def job_return_def)
next
  case (Cons i "is")
  show ?case
    unfolding job_iter.simps by (rule triple_bind [OF assms Cons.IH])
qed

text \<open>Each item takes the state one further.\<close>

lemma triple_count:
  assumes "\<And>n i a. triple (Q n) (f i a) E (\<lambda>_. Q (Suc n))"
  shows "triple (Q n) (job_iter f is a) E (\<lambda>_. Q (n + length is))"
proof (induction "is" arbitrary: n a)
  case Nil
  show ?case by (simp add: triple_def job_return_def)
next
  case (Cons i "is")
  from triple_bind [OF assms Cons.IH] show ?case by simp
qed

lemma triple_map:
  assumes "\<And>i. i \<in> set is \<Longrightarrow> triple P (f i) E (\<lambda>x s. P s \<and> R i x)"
  shows "triple P (job_map f is) E (\<lambda>xs s. P s \<and> list_all2 R is xs)"
  using assms
proof (induction "is")
  case Nil
  show ?case by (simp add: triple_def job_return_def)
next
  case (Cons i "is")
  note head = Cons.prems [of i, simplified] and tail = Cons.IH [OF Cons.prems, simplified]
  show ?case
    unfolding triple_def
  proof (intro allI impI)
    fix s assume "P s"
    with head have "case f i s of (Inl e, _) \<Rightarrow> E e | (Inr x, s') \<Rightarrow> P s' \<and> R i x"
      by (simp add: triple_def)
    with tail show "case job_map f (i # is) s of (Inl e, _) \<Rightarrow> E e
        | (Inr xs, s') \<Rightarrow> P s' \<and> list_all2 R (i # is) xs"
      by (fastforce simp: triple_def job_bind_def job_return_def split: prod.splits sum.splits)
  qed
qed

lemma triple_pure_pre: "(\<phi> \<Longrightarrow> triple (\<lambda>w. P w) j E Q) \<Longrightarrow> triple (\<lambda>w. P w \<and> \<phi>) j E Q"
  by (auto simp: triple_def)

lemma triple_phi:
  "triple P j E Q \<Longrightarrow> triple (\<lambda>w. P w \<and> \<phi>) j E (\<lambda>x w. Q x w \<and> \<phi>)"
  by (fastforce simp: triple_def split: prod.splits sum.splits)

lemma triple_bind_3:
  assumes "triple P j E (\<lambda>(a, b, c) s. Q a b c s)" "\<And>a b c. triple (Q a b c) (f a b c) E R"
  shows "triple P (job_bind j (\<lambda>(a, b, c). f a b c)) E R"
  by (rule triple_bind [OF assms(1)]) (use assms(2) in \<open>simp add: case_prod_beta\<close>)

lemma tripleD_Inr: "triple P j E Q \<Longrightarrow> P s \<Longrightarrow> j s = (Inr x, s') \<Longrightarrow> Q x s'"
  by (fastforce simp: triple_def)

lemma tripleD_Inl: "triple P j E Q \<Longrightarrow> P s \<Longrightarrow> j s = (Inl e, s') \<Longrightarrow> E e"
  by (fastforce simp: triple_def)

lemma triple_no_fail:
  assumes "triple P j (\<lambda>_. False) Q" "P s"
  shows "\<exists>x s'. j s = (Inr x, s') \<and> Q x s'"
proof -
  obtain r s' where j: "j s = (r, s')" by (cases "j s")
  with assms show ?thesis by (cases r) (auto dest: tripleD_Inl tripleD_Inr)
qed

lemma job_bind_assoc: "job_bind (job_bind j f) g = job_bind j (\<lambda>x. job_bind (f x) g)"
  by (auto simp: fun_eq_iff job_bind_def split: prod.splits sum.splits)

section \<open>What a job emits\<close>

text \<open>
  \<open>out\<close> is what has been emitted so far (sent, executed). The job emits \<open>ds\<close> in order: all of it when
  it succeeds, and a proper prefix of it when it fails.
\<close>

definition emits :: "('s \<Rightarrow> 'x list) \<Rightarrow> 'x list \<Rightarrow> ('e, 's, 'a) job \<Rightarrow> bool" where
  "emits out ds j \<longleftrightarrow>
     (\<forall>s. case j s of
        (Inr _, s') \<Rightarrow> out s' = out s @ ds
      | (Inl _, s') \<Rightarrow> (\<exists>sent unsent. ds = sent @ unsent \<and> unsent \<noteq> [] \<and> out s' = out s @ sent))"

lemma emits_bind:
  assumes "emits out ds j" "\<And>x. emits out es (f x)"
  shows "emits out (ds @ es) (job_bind j f)"
  unfolding emits_def
proof (intro allI)
  fix s
  obtain r s1 where j: "j s = (r, s1)" by (cases "j s")
  show "case job_bind j f s of
      (Inr _, s') \<Rightarrow> out s' = out s @ ds @ es
    | (Inl _, s') \<Rightarrow> (\<exists>sent unsent. ds @ es = sent @ unsent \<and> unsent \<noteq> [] \<and> out s' = out s @ sent)"
  proof (cases r)
    case (Inl e)
    with assms(1) j obtain sent unsent where "ds = sent @ unsent" "unsent \<noteq> []" "out s1 = out s @ sent"
      by (auto simp: emits_def dest!: spec [of _ s])
    then show ?thesis
      using j Inl by (auto simp: job_bind_def intro!: exI [of _ sent] exI [of _ "unsent @ es"])
  next
    case (Inr x)
    with assms(1) j have out: "out s1 = out s @ ds"
      by (auto simp: emits_def dest!: spec [of _ s])
    obtain q s2 where f: "f x s1 = (q, s2)" by (cases "f x s1")
    show ?thesis
    proof (cases q)
      case (Inl e)
      with assms(2) [of x] f obtain sent unsent where "es = sent @ unsent" "unsent \<noteq> []" "out s2 = out s1 @ sent"
        by (auto simp: emits_def dest!: spec [of _ s1])
      then show ?thesis
        using j f Inr Inl out by (auto simp: job_bind_def intro!: exI [of _ "ds @ sent"] exI [of _ unsent])
    next
      case b: (Inr y)
      with assms(2) [of x] f have "out s2 = out s1 @ es"
        by (auto simp: emits_def dest!: spec [of _ s1])
      then show ?thesis using j f Inr b out by (simp add: job_bind_def)
    qed
  qed
qed

lemma emits_iter: "(\<And>what d x. emits out [d] (f (what, d) x)) \<Longrightarrow> emits out (map snd ds) (job_iter f ds x)"
proof (induction ds arbitrary: x)
  case Nil
  show ?case by (simp add: emits_def job_return_def)
next
  case (Cons wd ds)
  from emits_bind [OF Cons.prems Cons.IH [OF Cons.prems], of "snd wd" "fst wd"] show ?case by simp
qed

lemma emits_map_err:
  assumes "emits out ds j"
  shows "emits out ds (job_map_err f j)"
  unfolding emits_def
proof (intro allI)
  fix s
  from assms have "case j s of
      (Inr _, s') \<Rightarrow> out s' = out s @ ds
    | (Inl _, s') \<Rightarrow> (\<exists>sent unsent. ds = sent @ unsent \<and> unsent \<noteq> [] \<and> out s' = out s @ sent)"
    unfolding emits_def by (rule spec)
  then show "case job_map_err f j s of
      (Inr _, s') \<Rightarrow> out s' = out s @ ds
    | (Inl _, s') \<Rightarrow> (\<exists>sent unsent. ds = sent @ unsent \<and> unsent \<noteq> [] \<and> out s' = out s @ sent)"
    by (cases "j s"; cases "fst (j s)") (simp_all add: job_map_err_def)
qed

lemma emits_return: "emits out [] (job_return x)"
  by (simp add: emits_def job_return_def)

end
