(* ===== verification/Float64.thy ===== *)
theory Float64
  imports Prelude "HOL-Library.Log_Nat"
begin

text \<open>
  Rust's \<open>f64\<close>: IEEE binary64 with rounding to nearest, ties to even, computed exactly
  on rationals. A finite value is the rational it denotes (the two zeros are one value: no
  modelled code observes the sign of a zero, and the only zero divisors are conversions of
  the integer 0). \<open>rnd\<close> rounds to 53 significant bits with the subnormal cut-off at
  \<open>2 powi -1074\<close>; \<open>to_f64\<close> adds overflow to the infinities. The casts
  \<open>as i32\<close> and \<open>as usize\<close> saturate and send NaN to 0, as Rust's do. The locale
  \<open>rounding\<close> states what the layout code relies on.
\<close>

section \<open>Rounding to an integer\<close>

definition round_half_even :: "rat \<Rightarrow> int" where
  "round_half_even x =
     (let f = \<lfloor>x\<rfloor>; d = x - of_int f
      in if d < 1 / 2 then f else if d > 1 / 2 then f + 1 else if even f then f else f + 1)"

lemma round_half_even_of_int [simp]: "round_half_even (of_int i) = i"
  by (simp add: round_half_even_def)

lemma round_half_even_near: "\<bar>of_int (round_half_even x) - x\<bar> \<le> 1 / 2"
  using floor_correct [of x] by (auto simp: round_half_even_def Let_def abs_le_iff)

lemma round_half_even_eqI: "\<bar>x - of_int n\<bar> < 1 / 2 \<Longrightarrow> round_half_even x = n"
proof -
  assume "\<bar>x - of_int n\<bar> < 1 / 2"
  with round_half_even_near [of x] have "\<bar>of_int (round_half_even x) - of_int n :: rat\<bar> < 1" by linarith
  then show ?thesis by linarith
qed

lemma round_half_even_mono:
  assumes "x \<le> y"
  shows "round_half_even x \<le> round_half_even y"
proof (cases "\<lfloor>x\<rfloor> = \<lfloor>y\<rfloor>")
  case True
  with assms show ?thesis by (auto simp: round_half_even_def Let_def)
next
  case False
  with floor_mono [OF assms] have "\<lfloor>x\<rfloor> + 1 \<le> \<lfloor>y\<rfloor>" by simp
  then show ?thesis by (auto simp: round_half_even_def Let_def)
qed

section \<open>The binary exponent\<close>

definition ilog2 :: "rat \<Rightarrow> int" where
  "ilog2 x =
     (let (a, b) = quotient_of x; k = bitlen a - bitlen b
      in if 2 powi k \<le> x then k else k - 1)"

lemma bitlen_powi:
  assumes "0 < a"
  shows "2 powi (bitlen a - 1) \<le> (of_int a :: rat)" and "(of_int a :: rat) < 2 powi (bitlen a)"
proof -
  have pos: "0 < bitlen a"
    using assms bitlen_nonneg [of a] bitlen_eq_zero_iff [of a] by linarith
  from bitlen_bounds [OF assms]
  have b: "2 ^ nat (bitlen a - 1) \<le> a" "a < 2 ^ nat (bitlen a)" by auto
  from b(1) have "(of_int (2 ^ nat (bitlen a - 1)) :: rat) \<le> of_int a"
    by (simp only: of_int_le_iff)
  with pos show "2 powi (bitlen a - 1) \<le> (of_int a :: rat)"
    by (simp add: power_int_def)
  from b(2) have "(of_int a :: rat) < of_int (2 ^ nat (bitlen a))"
    by (simp only: of_int_less_iff)
  with pos show "(of_int a :: rat) < 2 powi (bitlen a)"
    by (simp add: power_int_def)
qed

lemma ilog2_bounds:
  assumes "0 < x"
  shows "2 powi (ilog2 x) \<le> x" and "x < 2 powi (ilog2 x + 1)"
proof -
  obtain a b where q: "quotient_of x = (a, b)" by fastforce
  then have b: "0 < b" and x: "x = of_int a / of_int b"
    by (auto dest: quotient_of_denom_pos quotient_of_div)
  from assms b x have a: "0 < a" by (simp add: zero_less_divide_iff)
  let ?k = "bitlen a - bitlen b"
  have up: "x < 2 powi (?k + 1)"
  proof -
    have "2 powi (?k + 1) = (2 powi (bitlen a) :: rat) / 2 powi (bitlen b - 1)"
      by (simp add: power_int_diff power_int_add)
    moreover have "of_int a / of_int b < (2 powi (bitlen a) :: rat) / 2 powi (bitlen b - 1)"
      using bitlen_powi(2) [OF a] bitlen_powi(1) [OF b] b a by (intro frac_less) auto
    ultimately show ?thesis by (simp add: x)
  qed
  have lo: "2 powi (?k - 1) \<le> x"
  proof -
    have "2 powi (?k - 1) = (2 powi (bitlen a - 1) :: rat) / 2 powi (bitlen b)"
      by (simp add: power_int_diff)
    moreover have "(2 powi (bitlen a - 1) :: rat) / 2 powi (bitlen b) \<le> of_int a / of_int b"
      using bitlen_powi(1) [OF a] less_imp_le [OF bitlen_powi(2) [OF b]] b a
      by (intro frac_le) auto
    ultimately show ?thesis by (simp add: x)
  qed
  have i: "ilog2 x = (if 2 powi ?k \<le> x then ?k else ?k - 1)"
    by (simp add: ilog2_def q)
  show "2 powi (ilog2 x) \<le> x" using lo by (simp add: i)
  show "x < 2 powi (ilog2 x + 1)" using up by (simp add: i)
qed

lemma powi_diff_nat: "e \<le> k \<Longrightarrow> (2 :: rat) powi k / 2 powi e = of_int (2 ^ nat (k - e))"
  by (subst power_int_diff [symmetric]) (auto simp: power_int_def)

lemma powi_less_imp: "(2 :: rat) powi i < 2 powi j \<Longrightarrow> i < j"
  by (rule ccontr) (use power_int_increasing [of j i "2 :: rat"] in auto)

lemma ilog2_le: "0 < x \<Longrightarrow> x < 2 powi k \<Longrightarrow> ilog2 x < k"
  using ilog2_bounds(1) [of x] powi_less_imp [of "ilog2 x" k] by linarith

lemma ilog2_mono: "0 < x \<Longrightarrow> x \<le> y \<Longrightarrow> ilog2 x \<le> ilog2 y"
  using ilog2_bounds(1) [of x] ilog2_bounds(2) [of y] powi_less_imp [of "ilog2 x" "ilog2 y + 1"]
  by linarith

section \<open>Rounding to binary64\<close>

definition ulp_exp :: "rat \<Rightarrow> int" where
  "ulp_exp x = max (ilog2 \<bar>x\<bar> - 52) (- 1074)"

definition rnd :: "rat \<Rightarrow> rat" where
  "rnd x =
     (if x = 0 then 0
      else of_int (round_half_even (x / 2 powi ulp_exp x)) * 2 powi ulp_exp x)"

lemma rnd_zero [simp]: "rnd 0 = 0"
  by (simp add: rnd_def)

lemma round_half_even_minus: "round_half_even (- x) = - round_half_even x"
proof (cases "x \<in> \<int>")
  case True
  then show ?thesis by (auto elim!: Ints_cases simp flip: of_int_minus)
next
  case False
  then have f: "\<lfloor>- x\<rfloor> = - \<lfloor>x\<rfloor> - 1"
    using ceiling_altdef [of x] of_int_floor_cancel [of x]
    by (auto simp: ceiling_def Ints_def image_iff eq_commute [of x] split: if_splits)
  show ?thesis
    by (auto simp: round_half_even_def Let_def f)
qed

lemma rnd_minus: "rnd (- x) = - rnd x"
  by (simp add: rnd_def ulp_exp_def round_half_even_minus)

text \<open>Numbers with at most 53 significant bits are not changed.\<close>

lemma rnd_exact:
  assumes m: "\<bar>m\<bar> \<le> 2 ^ 53" and j: "- 1074 \<le> j" and x: "x = of_int m * 2 powi j"
  shows "rnd x = x"
proof (cases "x = 0")
  case False
  have "\<exists>n. x / 2 powi ulp_exp x = of_int n"
  proof (cases "ulp_exp x \<le> j")
    case True
    have "x / 2 powi ulp_exp x = of_int m * (2 powi j / 2 powi ulp_exp x)"
      by (simp add: x)
    then have "x / 2 powi ulp_exp x = of_int m * of_int (2 ^ nat (j - ulp_exp x))"
      by (simp only: powi_diff_nat [OF True])
    then have "x / 2 powi ulp_exp x = of_int (m * 2 ^ nat (j - ulp_exp x))"
      by simp
    then show ?thesis by blast
  next
    case big: False
    have ax: "\<bar>x\<bar> = of_int \<bar>m\<bar> * 2 powi j"
      by (simp add: x abs_mult)
    have "\<bar>m\<bar> = 2 ^ 53"
    proof (rule ccontr)
      assume "\<bar>m\<bar> \<noteq> 2 ^ 53"
      with m have "\<bar>m\<bar> < 2 ^ 53" by linarith
      then have "(of_int \<bar>m\<bar> :: rat) < of_int (2 ^ 53)" by (simp only: of_int_less_iff)
      then have "\<bar>x\<bar> < 2 powi 53 * 2 powi j"
        unfolding ax by (intro mult_strict_right_mono) auto
      then have "\<bar>x\<bar> < 2 powi (53 + j)"
        by (subst power_int_add) auto
      then have "ilog2 \<bar>x\<bar> < 53 + j"
        using False by (intro ilog2_le) auto
      with big j show False by (auto simp: ulp_exp_def)
    qed
    then have ax': "\<bar>x\<bar> = 2 powi (53 + j)"
      unfolding ax by (simp add: power_int_add)
    have "(2 :: rat) powi (53 + j) < 2 powi (54 + j)"
      by (rule power_int_strict_increasing) auto
    with ax' have "\<bar>x\<bar> < 2 powi (54 + j)"
      by (simp only:)
    then have "ilog2 \<bar>x\<bar> < 54 + j"
      using False by (intro ilog2_le) auto
    with big j have e: "ulp_exp x = j + 1" by (auto simp: ulp_exp_def)
    obtain m' where m': "m = 2 * m'"
      using \<open>\<bar>m\<bar> = 2 ^ 53\<close> by (cases "m \<ge> 0") (auto intro: that [of "2 ^ 52"] that [of "- (2 ^ 52)"])
    have "x / 2 powi ulp_exp x = of_int m'"
      unfolding e unfolding x m' by (simp add: power_int_add)
    then show ?thesis by blast
  qed
  then obtain n where "x / 2 powi ulp_exp x = of_int n" by blast
  with False show ?thesis
    by (simp add: rnd_def) (metis nonzero_eq_divide_eq power_int_not_zero zero_neq_numeral)
qed simp

lemma rnd_of_int: "\<bar>i\<bar> \<le> 2 ^ 53 \<Longrightarrow> rnd (of_int i) = of_int i"
  by (rule rnd_exact [of i 0]) auto

lemma rnd_pos_mono:
  assumes "0 < x" and "x \<le> y"
  shows "rnd x \<le> rnd y"
proof (cases "ulp_exp x = ulp_exp y")
  case True
  from assms show ?thesis
    by (auto simp: rnd_def True intro!: mult_right_mono round_half_even_mono divide_right_mono)
next
  case False
  have "ulp_exp x \<le> ulp_exp y"
    using ilog2_mono [OF assms] assms by (auto simp: ulp_exp_def)
  with False have lt: "ulp_exp x < ulp_exp y" by simp
  define k where "k = ilog2 y"
  from lt have ey: "ulp_exp y = k - 52" and xk: "ilog2 x < k"
    using assms by (auto simp: ulp_exp_def k_def)
  have x_lt: "x < 2 powi k"
    using ilog2_bounds(2) [OF assms(1)] power_int_increasing [of "ilog2 x + 1" k "2 :: rat"] xk by simp
  have y_ge: "2 powi k \<le> y"
    using ilog2_bounds(1) [of y] assms by (simp add: k_def)
  have "rnd x \<le> 2 powi k"
  proof -
    have n: "(2 :: rat) powi k / 2 powi ulp_exp x = of_int (2 ^ nat (k - ulp_exp x))"
      using lt ey by (intro powi_diff_nat) simp
    have "x / 2 powi ulp_exp x \<le> 2 powi k / 2 powi ulp_exp x"
      using x_lt by (intro divide_right_mono) auto
    from round_half_even_mono [OF this]
    have "round_half_even (x / 2 powi ulp_exp x) \<le> 2 ^ nat (k - ulp_exp x)"
      unfolding n by (simp only: round_half_even_of_int)
    then have "(of_int (round_half_even (x / 2 powi ulp_exp x)) :: rat) \<le> 2 powi k / 2 powi ulp_exp x"
      unfolding n by (simp only: of_int_le_iff)
    with assms show ?thesis by (simp add: rnd_def le_divide_eq)
  qed
  also have "2 powi k \<le> rnd y"
  proof -
    have n: "(2 :: rat) powi k / 2 powi ulp_exp y = of_int (2 ^ 52)"
      by (simp add: ey power_int_diff)
    have "2 powi k / 2 powi ulp_exp y \<le> y / 2 powi ulp_exp y"
      using y_ge by (intro divide_right_mono) auto
    from round_half_even_mono [OF this]
    have "2 ^ 52 \<le> round_half_even (y / 2 powi ulp_exp y)"
      unfolding n by (simp only: round_half_even_of_int)
    then have "(2 :: rat) powi k / 2 powi ulp_exp y \<le> of_int (round_half_even (y / 2 powi ulp_exp y))"
      unfolding n by (simp only: of_int_le_iff)
    with assms show ?thesis by (simp add: rnd_def divide_le_eq)
  qed
  finally show ?thesis .
qed

lemma rnd_nonneg: "0 \<le> x \<Longrightarrow> 0 \<le> rnd x"
  using round_half_even_mono [of 0 "x / 2 powi ulp_exp x"]
  by (auto simp: rnd_def round_half_even_of_int [of 0, simplified])

lemma rnd_mono: "x \<le> y \<Longrightarrow> rnd x \<le> rnd y"
proof -
  assume le: "x \<le> y"
  consider "0 < x" | "x \<le> 0" "0 \<le> y" | "y < 0" by linarith
  then show ?thesis
  proof cases
    case 1
    with le show ?thesis by (rule rnd_pos_mono [rotated])
  next
    case 2
    then show ?thesis using rnd_nonneg [of y] rnd_nonneg [of "- x"] by (simp add: rnd_minus)
  next
    case 3
    with le rnd_pos_mono [of "- y" "- x"] show ?thesis by (simp add: rnd_minus)
  qed
qed

lemma rnd_idem [simp]: "rnd (rnd x) = rnd x"
proof (cases "x = 0")
  case False
  have b: "\<bar>round_half_even (x / 2 powi ulp_exp x)\<bar> \<le> 2 ^ 53"
  proof -
    have "\<bar>x\<bar> \<le> 2 powi (ilog2 \<bar>x\<bar> + 1)"
      using ilog2_bounds(2) [of "\<bar>x\<bar>"] False by simp
    also have "\<dots> \<le> 2 powi (53 + ulp_exp x)"
      by (intro power_int_increasing) (auto simp: ulp_exp_def)
    also have "\<dots> = 2 ^ 53 * 2 powi ulp_exp x"
      by (subst power_int_add) auto
    finally have "\<bar>x / 2 powi ulp_exp x\<bar> \<le> of_int (2 ^ 53)"
      by (simp add: abs_divide divide_le_eq)
    then have "x / 2 powi ulp_exp x \<le> of_int (2 ^ 53)" "of_int (- (2 ^ 53)) \<le> x / 2 powi ulp_exp x"
      by (simp_all only: abs_le_iff of_int_minus) linarith+
    from this [THEN round_half_even_mono] show ?thesis
      unfolding round_half_even_of_int by linarith
  qed
  show ?thesis
    by (rule rnd_exact [OF b, of "ulp_exp x"]) (use False in \<open>auto simp: rnd_def ulp_exp_def\<close>)
qed simp

section \<open>Values and operations\<close>

datatype f64 = Fin rat | PInf | NInf | NaN

definition to_f64 :: "rat \<Rightarrow> f64" where
  "to_f64 x =
     (let r = rnd x
      in if 2 ^ 1024 \<le> r then PInf else if r \<le> - (2 ^ 1024) then NInf else Fin r)"

fun wf_f64 :: "f64 \<Rightarrow> bool" where
  "wf_f64 (Fin r) = (rnd r = r \<and> \<bar>r\<bar> < 2 ^ 1024)"
| "wf_f64 _ = True"

lemma wf_to_f64 [simp]: "wf_f64 (to_f64 x)"
  by (auto simp: to_f64_def Let_def abs_less_iff)

lemma to_f64_Fin: "\<bar>rnd x\<bar> < 2 ^ 1024 \<Longrightarrow> to_f64 x = Fin (rnd x)"
  by (auto simp: to_f64_def Let_def abs_less_iff)

fun f_neg :: "f64 \<Rightarrow> f64" where
  "f_neg (Fin a) = Fin (- a)"
| "f_neg PInf = NInf"
| "f_neg NInf = PInf"
| "f_neg NaN = NaN"

fun f_abs :: "f64 \<Rightarrow> f64" where
  "f_abs (Fin a) = Fin \<bar>a\<bar>"
| "f_abs NInf = PInf"
| "f_abs x = x"

fun f_add :: "f64 \<Rightarrow> f64 \<Rightarrow> f64" where
  "f_add (Fin a) (Fin b) = to_f64 (a + b)"
| "f_add NaN _ = NaN"
| "f_add _ NaN = NaN"
| "f_add PInf NInf = NaN"
| "f_add NInf PInf = NaN"
| "f_add PInf _ = PInf"
| "f_add _ PInf = PInf"
| "f_add NInf _ = NInf"
| "f_add _ NInf = NInf"

definition f_sub :: "f64 \<Rightarrow> f64 \<Rightarrow> f64" where
  "f_sub x y = f_add x (f_neg y)"

fun signum :: "f64 \<Rightarrow> int" where
  "signum (Fin a) = (if 0 < a then 1 else if a < 0 then - 1 else 0)"
| "signum PInf = 1"
| "signum NInf = - 1"
| "signum NaN = 0"

definition inf_of_sign :: "int \<Rightarrow> f64" where
  "inf_of_sign s = (if 0 < s then PInf else if s < 0 then NInf else NaN)"

fun f_mul :: "f64 \<Rightarrow> f64 \<Rightarrow> f64" where
  "f_mul (Fin a) (Fin b) = to_f64 (a * b)"
| "f_mul NaN _ = NaN"
| "f_mul _ NaN = NaN"
| "f_mul x y = inf_of_sign (signum x * signum y)"

text \<open>A zero divisor is \<open>+0\<close> wherever the code divides by one.\<close>

fun f_div :: "f64 \<Rightarrow> f64 \<Rightarrow> f64" where
  "f_div (Fin a) (Fin b) = (if b = 0 then inf_of_sign (signum (Fin a)) else to_f64 (a / b))"
| "f_div NaN _ = NaN"
| "f_div _ NaN = NaN"
| "f_div (Fin a) _ = Fin 0"
| "f_div x (Fin b) = inf_of_sign (signum x * (if b < 0 then - 1 else 1))"
| "f_div _ _ = NaN"

fun f_less :: "f64 \<Rightarrow> f64 \<Rightarrow> bool" where
  "f_less (Fin a) (Fin b) = (a < b)"
| "f_less (Fin a) PInf = True"
| "f_less NInf (Fin b) = True"
| "f_less NInf PInf = True"
| "f_less _ _ = False"

fun f_le :: "f64 \<Rightarrow> f64 \<Rightarrow> bool" where
  "f_le NaN _ = False"
| "f_le _ NaN = False"
| "f_le (Fin a) (Fin b) = (a \<le> b)"
| "f_le NInf _ = True"
| "f_le _ PInf = True"
| "f_le _ _ = False"

text \<open>\<open>f64::min\<close> and \<open>f64::max\<close> ignore a NaN argument.\<close>

definition f_min :: "f64 \<Rightarrow> f64 \<Rightarrow> f64" where
  "f_min x y = (if x = NaN then y else if y = NaN then x else if f_less y x then y else x)"

definition f_max :: "f64 \<Rightarrow> f64 \<Rightarrow> f64" where
  "f_max x y = (if x = NaN then y else if y = NaN then x else if f_less x y then y else x)"

fun f_finite :: "f64 \<Rightarrow> bool" where
  "f_finite (Fin _) = True"
| "f_finite _ = False"

definition of_int_f64 :: "int \<Rightarrow> f64" where
  "of_int_f64 i = to_f64 (of_int i)"

abbreviation usize_f64 :: "nat \<Rightarrow> f64" where
  "usize_f64 n \<equiv> of_int_f64 (int n)"

definition round_away :: "rat \<Rightarrow> int" where
  "round_away x = (if 0 \<le> x then \<lfloor>x + 1 / 2\<rfloor> else \<lceil>x - 1 / 2\<rceil>)"

fun f_lift_int :: "(rat \<Rightarrow> int) \<Rightarrow> f64 \<Rightarrow> f64" where
  "f_lift_int g (Fin a) = Fin (of_int (g a))"
| "f_lift_int g x = x"

definition f_round :: "f64 \<Rightarrow> f64" where "f_round = f_lift_int round_away"
definition f_floor :: "f64 \<Rightarrow> f64" where "f_floor = f_lift_int floor"
definition f_ceil :: "f64 \<Rightarrow> f64" where "f_ceil = f_lift_int ceiling"

definition trunc_rat :: "rat \<Rightarrow> int" where
  "trunc_rat x = (if 0 \<le> x then \<lfloor>x\<rfloor> else \<lceil>x\<rceil>)"

fun f_as :: "int \<Rightarrow> int \<Rightarrow> f64 \<Rightarrow> int" where
  "f_as lo hi (Fin a) = max lo (min hi (trunc_rat a))"
| "f_as lo hi PInf = hi"
| "f_as lo hi NInf = lo"
| "f_as lo hi NaN = 0"

definition as_i32 :: "f64 \<Rightarrow> int" where
  "as_i32 x = f_as (- (2 ^ 31)) (2 ^ 31 - 1) x"

definition as_usize :: "f64 \<Rightarrow> nat" where
  "as_usize x = nat (f_as 0 (2 ^ 64 - 1) x)"

text \<open>\<open>{:.2}\<close>, \<open>{:.6}\<close>: the exact decimal expansion rounded to nearest, ties to even.\<close>

fun fmt_dec :: "nat \<Rightarrow> f64 \<Rightarrow> rstr" where
  "fmt_dec k (Fin a) =
     (let n = nat (round_half_even (\<bar>a\<bar> * 10 ^ k))
      in (if a < 0 then ''-'' else []) @ show_nat (n div 10 ^ k) @ ''.'' @ pad_left (CHR ''0'') k (show_nat (n mod 10 ^ k)))"
| "fmt_dec k PInf = ''inf''"
| "fmt_dec k NInf = ''-inf''"
| "fmt_dec k NaN = ''NaN''"

abbreviation fmt_2 :: "f64 \<Rightarrow> rstr" where
  "fmt_2 \<equiv> fmt_dec 2"

lemma in_i32_as_i32 [simp]: "in_i32 (as_i32 x)"
  by (cases x) (auto simp: as_i32_def in_i32_def)

lemma of_int_f64_small: "\<bar>i\<bar> \<le> 2 ^ 53 \<Longrightarrow> of_int_f64 i = Fin (of_int i)"
proof -
  assume i: "\<bar>i\<bar> \<le> 2 ^ 53"
  have "\<bar>(of_int i :: rat)\<bar> = of_int \<bar>i\<bar>" by simp
  also have "\<dots> \<le> of_int (2 ^ 53)" using i by (simp only: of_int_le_iff)
  also have "\<dots> < 2 ^ 1024" by simp
  finally show ?thesis by (simp add: of_int_f64_def to_f64_Fin rnd_of_int [OF i])
qed

lemma round_away_mono: "x \<le> y \<Longrightarrow> round_away x \<le> round_away y"
proof -
  assume le: "x \<le> y"
  consider "0 \<le> x" | "x < 0" "0 \<le> y" | "y < 0" by linarith
  then show ?thesis
  proof cases
    case 1
    with le show ?thesis by (auto simp: round_away_def intro: floor_mono)
  next
    case 2
    then have "\<lceil>x - 1 / 2\<rceil> \<le> 0" "0 \<le> \<lfloor>y + 1 / 2\<rfloor>"
      by (simp_all add: ceiling_le_iff le_floor_iff)
    moreover from 2 have "round_away x = \<lceil>x - 1 / 2\<rceil>" "round_away y = \<lfloor>y + 1 / 2\<rfloor>"
      by (auto simp: round_away_def)
    ultimately show ?thesis by linarith
  next
    case 3
    with le show ?thesis by (auto simp: round_away_def intro: ceiling_mono)
  qed
qed

lemma round_away_of_int [simp]: "round_away (of_int i) = i"
proof (cases "0 \<le> i")
  case True
  have "\<lfloor>(of_int i :: rat) + 1 / 2\<rfloor> = i" by (rule floor_unique) auto
  with True show ?thesis by (simp add: round_away_def)
next
  case False
  have "\<lceil>(of_int i :: rat) - 1 / 2\<rceil> = i" by (rule ceiling_unique) auto
  with False show ?thesis by (simp add: round_away_def)
qed

lemma round_away_of_nat [simp]: "round_away (of_nat n) = int n"
  using round_away_of_int [of "int n"] by simp

lemma trunc_rat_of_int [simp]: "trunc_rat (of_int i) = i"
  by (simp add: trunc_rat_def)

lemma as_i32_round_Fin: "as_i32 (f_round (Fin a)) = max (- (2 ^ 31)) (min (2 ^ 31 - 1) (round_away a))"
  by (simp add: as_i32_def f_round_def)

section \<open>The rounding interface\<close>

text \<open>
  The chart maps an index \<open>i\<close> of \<open>0..m\<close> to a pixel offset by two rounded
  operations, \<open>fl (fl (i / m) * w)\<close>. Monotone rounding that is exact on small integers
  is all that is needed for it to be monotone and to hit both ends exactly.
\<close>

locale rounding =
  fixes fl :: "rat \<Rightarrow> rat"
  assumes fl_mono: "x \<le> y \<Longrightarrow> fl x \<le> fl y"
    and fl_of_int: "\<bar>i\<bar> \<le> 2 ^ 53 \<Longrightarrow> fl (of_int i) = of_int i"
begin

lemma fl_0: "fl 0 = 0"
  using fl_of_int [of 0] by simp

lemma fl_1: "fl 1 = 1"
  using fl_of_int [of 1] by simp

lemma ratio_mono: "0 < m \<Longrightarrow> i \<le> j \<Longrightarrow> fl (of_int i / of_int m) \<le> fl (of_int j / of_int m)"
  by (intro fl_mono divide_right_mono) auto

lemma ratio_unit: "0 \<le> i \<Longrightarrow> i \<le> m \<Longrightarrow> 0 < m \<Longrightarrow> 0 \<le> fl (of_int i / of_int m) \<and> fl (of_int i / of_int m) \<le> 1"
  using fl_mono [of 0 "of_int i / of_int m"] fl_mono [of "of_int i / of_int m" 1]
  by (simp add: fl_0 fl_1)

lemma scaled_mono:
  "0 < m \<Longrightarrow> 0 \<le> w \<Longrightarrow> i \<le> j \<Longrightarrow>
   fl (fl (of_int i / of_int m) * of_int w) \<le> fl (fl (of_int j / of_int m) * of_int w)"
  by (intro fl_mono mult_right_mono ratio_mono) auto

lemma scaled_start: "fl (fl (of_int 0 / of_int m) * of_int w) = 0"
  by (simp add: fl_0)

lemma scaled_end: "0 < m \<Longrightarrow> \<bar>w\<bar> \<le> 2 ^ 53 \<Longrightarrow> fl (fl (of_int m / of_int m) * of_int w) = of_int w"
  by (simp add: fl_1 fl_of_int)

lemma scaled_bounds:
  assumes "0 \<le> i" "i \<le> m" "0 < m" "0 \<le> w" "w \<le> 2 ^ 53"
  shows "0 \<le> fl (fl (of_int i / of_int m) * of_int w)"
    and "fl (fl (of_int i / of_int m) * of_int w) \<le> of_int w"
  using scaled_mono [of m w 0 i] scaled_mono [of m w i m] scaled_start [of m w] scaled_end [of m w] assms
  by auto

lemma quotient_mono:
  "0 < t \<Longrightarrow> 0 \<le> n \<Longrightarrow> i \<le> j \<Longrightarrow>
   fl (fl (of_int i * of_int n) / of_int t) \<le> fl (fl (of_int j * of_int n) / of_int t)"
  by (intro fl_mono divide_right_mono mult_right_mono) auto

lemma quotient_end:
  "0 < t \<Longrightarrow> 0 \<le> n \<Longrightarrow> t * n \<le> 2 ^ 53 \<Longrightarrow> fl (fl (of_int t * of_int n) / of_int t) = of_int n"
proof -
  assume a: "0 < t" "0 \<le> n" "t * n \<le> 2 ^ 53"
  have "n \<le> t * n" using mult_right_mono [of 1 t n] a by simp
  with a have "\<bar>n\<bar> \<le> 2 ^ 53" "\<bar>t * n\<bar> \<le> 2 ^ 53" by (simp_all add: abs_mult)
  with a fl_of_int [of "t * n"] fl_of_int [of n] show ?thesis by simp
qed

end

interpretation fl64: rounding rnd
  by unfold_locales (simp_all add: rnd_mono rnd_of_int)

lemma rnd_abs_le: "\<bar>x\<bar> \<le> of_int i \<Longrightarrow> i \<le> 2 ^ 53 \<Longrightarrow> \<bar>rnd x\<bar> \<le> of_int i"
  using rnd_mono [of x "of_int i"] rnd_mono [of "- of_int i" x] rnd_of_int [of i] rnd_of_int [of "- i"]
  by (cases "0 \<le> i") (auto simp: abs_le_iff)

lemma to_f64_le: "\<bar>x\<bar> \<le> of_int i \<Longrightarrow> i \<le> 2 ^ 53 \<Longrightarrow> to_f64 x = Fin (rnd x)"
proof -
  assume "\<bar>x\<bar> \<le> of_int i" and i: "i \<le> 2 ^ 53"
  then have "\<bar>rnd x\<bar> \<le> of_int i" by (rule rnd_abs_le)
  also have "(of_int i :: rat) \<le> of_int (2 ^ 53)" using i by (simp only: of_int_le_iff)
  also have "\<dots> < 2 ^ 1024" by simp
  finally show ?thesis by (rule to_f64_Fin)
qed

text \<open>Rounding stays between two dyadic numbers.\<close>

lemma rnd_dyadic:
  assumes "of_int a / 2 ^ k \<le> x" "x \<le> of_int b / 2 ^ k" "\<bar>a\<bar> \<le> 2 ^ 53" "\<bar>b\<bar> \<le> 2 ^ 53" "k \<le> 1074"
  shows "of_int a / 2 ^ k \<le> rnd x" "rnd x \<le> of_int b / 2 ^ k"
proof -
  have e: "rnd (of_int i / 2 ^ k) = of_int i / 2 ^ k" if "\<bar>i\<bar> \<le> 2 ^ 53" for i
    by (rule rnd_exact [OF that, of "- int k"])
      (use assms(5) in \<open>auto simp: power_int_minus field_simps\<close>)
  show "of_int a / 2 ^ k \<le> rnd x" "rnd x \<le> of_int b / 2 ^ k"
    using rnd_mono [OF assms(1)] rnd_mono [OF assms(2)] e [OF assms(3)] e [OF assms(4)] by simp_all
qed

end
