(* ===== verification/Benchmarks.thy ===== *)
theory Benchmarks
  imports Ingest Jobs Float64 Config
begin

text \<open>
  The database benchmarks the bot runs on command: \<open>src/src/db/heed/benchmark.rs\<close>,
  \<open>src/src/db/redb/benchmark.rs\<close> and \<open>src/src/db/sqlite/benchmark.rs\<close>. A run is a job over
  the database and the world its progress reports go to. A report is the value the code
  formats, not the text; clock readings are the argument \<open>elapsed\<close> (the duration of the
  n-th measurement). Opening, reading and syncing are the engine's, in \<open>bench_ops\<close>.
\<close>

section \<open>Events and keys\<close>

record event =
  ev_seq :: u64
  ev_score :: u64
  ev_payload :: rstr

definition to_byte_array :: "nat \<Rightarrow> rstr \<Rightarrow> rstr option" where
  "to_byte_array n text = (if length text = n then Some text else None)"

definition payload_text :: "128 word \<Rightarrow> nat \<Rightarrow> rstr" where
  "payload_text run_id seq =
     ''run-'' @ pad_left CHR ''0'' 32 (to_base 16 (unat run_id)) @ ''-seq-'' @ pad_left CHR ''0'' 12 (show_nat seq)"

text \<open>\<open>None\<close> is the panic of \<open>copy_from_slice\<close> on a text of another length.\<close>

definition heed_make_event :: "128 word \<Rightarrow> nat \<Rightarrow> event option" where
  "heed_make_event run_id seq =
     (case to_byte_array 53 (payload_text run_id seq) of
        None \<Rightarrow> None
      | Some p \<Rightarrow> Some \<lparr>ev_seq = word_of_nat seq, ev_score = word_of_nat (seq mod 100000), ev_payload = p\<rparr>)"

text \<open>
  The stream is lazy, and a load pulls the events one by one; here they are made before the load.
  The two differ only for more than \<open>10 ^ 12\<close> records: there the code panics at the first event
  with a longer number, with the events before it already pulled, and the model at once.
\<close>

definition heed_event_stream :: "128 word \<Rightarrow> nat \<Rightarrow> event list option" where
  "heed_event_stream run_id n = those (map (heed_make_event run_id) [0..<n])"

definition heed_record_key :: "128 word \<Rightarrow> nat \<Rightarrow> u64" where
  "heed_record_key run_id seq = ucast (push_bit 32 run_id) + word_of_nat seq"

definition redb_make_event :: "128 word \<Rightarrow> nat \<Rightarrow> event option" where
  "redb_make_event run_id seq =
     (case to_byte_array 53 (payload_text run_id seq) of
        None \<Rightarrow> None
      | Some p \<Rightarrow> Some \<lparr>ev_seq = word_of_nat seq, ev_score = word_of_nat (seq mod 100000), ev_payload = p\<rparr>)"

definition redb_event_stream :: "128 word \<Rightarrow> nat \<Rightarrow> event list option" where
  "redb_event_stream run_id n = those (map (redb_make_event run_id) [0..<n])"

definition redb_record_key :: "128 word \<Rightarrow> nat \<Rightarrow> u64" where
  "redb_record_key run_id seq = ucast (push_bit 32 run_id) + word_of_nat seq"

record sqlite_event =
  se_id :: u64
  se_seq :: u64
  se_score :: u64
  se_payload :: rstr

definition sqlite_record_id :: "128 word \<Rightarrow> nat \<Rightarrow> u64" where
  "sqlite_record_id run_id seq = ucast (push_bit 32 run_id) + word_of_nat seq"

definition sqlite_make_event :: "128 word \<Rightarrow> nat \<Rightarrow> sqlite_event" where
  "sqlite_make_event run_id seq =
     \<lparr>se_id = sqlite_record_id run_id seq, se_seq = word_of_nat seq,
      se_score = word_of_nat (seq mod 100000), se_payload = payload_text run_id seq\<rparr>"

definition sqlite_event_stream :: "128 word \<Rightarrow> nat \<Rightarrow> sqlite_event list" where
  "sqlite_event_stream run_id n = map (sqlite_make_event run_id) [0..<n]"

definition high_score_threshold :: u64 where
  "high_score_threshold = 99999"

section \<open>Reports and results\<close>

datatype progress =
    Starting
  | StartingIngestion nat
  | InsertedRecords nat nat
  | IngestionCompleted f64
  | Querying nat u64 u64
  | QueryCompleted nat duration
  | QueryMatched f64 nat duration
  | Syncing
  | Synced f64 nat duration
  | WalPassive
  | WalHard duration
  | WalDone duration
  | Closed f64 nat duration duration

datatype bench_error =
    OpenFailed rstr
  | CreateDatabase rstr
  | ClockBeforeEpoch
  | ReportFailed rstr
  | IngestFailed ingest_error
  | BeginRead rstr
  | OpenTable rstr
  | Retrieving u64 nat rstr
  | NotPresent u64 nat
  | FetchRow rstr
  | NoQuerySelected
  | SyncFailed rstr
  | CloseFailed rstr
  | Panicked

record query_result =
  matched_rows :: nat
  query_elapsed :: duration

record bench_result =
  br_inserted :: nat
  br_ingest_elapsed :: duration
  br_query :: query_result
  br_close_elapsed :: duration

record heed_result = bench_result +
  br_sync_elapsed :: "duration option"

record sqlite_result =
  sr_inserted :: nat
  sr_ingest_elapsed :: duration
  sr_point_query :: "query_result option"
  sr_range_query :: "query_result option"
  sr_passive_sync_elapsed :: "duration option"
  sr_hard_sync_elapsed :: "duration option"
  sr_close_elapsed :: duration

text \<open>\<open>Duration::as_secs_f64\<close> and a rate per second.\<close>

definition as_secs_f64 :: "duration \<Rightarrow> f64" where
  "as_secs_f64 d =
     f_add (of_int_f64 (int (d div 10 ^ 9))) (f_div (of_int_f64 (int (d mod 10 ^ 9))) (of_int_f64 (10 ^ 9)))"

definition rows_per_sec :: "nat \<Rightarrow> duration \<Rightarrow> f64" where
  "rows_per_sec n d = f_div (of_int_f64 (int n)) (as_secs_f64 d)"

record ('e, 'r) bench_ops =
  bo_open :: "(rstr, 'e) result"
  bo_create_table :: "'e \<Rightarrow> (rstr, 'e) result"
  bo_begin_read :: "'e \<Rightarrow> (rstr, unit) result"
  bo_open_table :: "'e \<Rightarrow> (rstr, unit) result"
  bo_get :: "'e \<Rightarrow> u64 \<Rightarrow> (rstr, event option) result"
  bo_select :: "'e \<Rightarrow> (rstr, sqlite_event) result list"
  bo_sync :: "'e \<Rightarrow> (rstr, 'e) result"
  bo_sync_hard :: "'e \<Rightarrow> (rstr, 'e) result"
  bo_close :: "'e \<Rightarrow> (rstr, 'e) result"
  bo_report :: "progress \<Rightarrow> (rstr, 'r, unit) job"

type_synonym ('e, 'r, 'a) bench = "(bench_error, 'e \<times> 'r, 'a) job"

definition report_progress :: "('e, 'r) bench_ops \<Rightarrow> progress \<Rightarrow> ('e, 'r, unit) bench" where
  "report_progress ops p w = (case bo_report ops p (snd w) of (r, s) \<Rightarrow> (map_err ReportFailed r, (fst w, s)))"

text \<open>A call that may change the database.\<close>

definition db_call :: "(rstr \<Rightarrow> bench_error) \<Rightarrow> ('e \<Rightarrow> (rstr, 'e) result) \<Rightarrow> ('e, 'r, unit) bench" where
  "db_call err f w = (case f (fst w) of Inl m \<Rightarrow> (Inl (err m), w) | Inr e \<Rightarrow> (Inr (), (e, snd w)))"

definition db_read :: "('e \<Rightarrow> (bench_error, 'a) result) \<Rightarrow> ('e, 'r, 'a) bench" where
  "db_read f w = (f (fst w), w)"

text \<open>
  The stream handed to the loader reports before some items; those reports cannot fail the
  load. The loader pulls an item at a time and stops at the one that fails.
\<close>

definition pulled :: "nat \<Rightarrow> (ingest_error, nat) result \<Rightarrow> nat" where
  "pulled n r =
     (case r of
        Inr _ \<Rightarrow> n
      | Inl (AtElement k _) \<Rightarrow> Suc k
      | Inl (CouldNotCommit _) \<Rightarrow> n
      | Inl _ \<Rightarrow> 0)"

definition reports_at :: "nat option \<Rightarrow> nat \<Rightarrow> bool" where
  "reports_at every i = (case every of None \<Rightarrow> False | Some k \<Rightarrow> 0 < k \<and> i mod k = 0)"

definition report_pulled :: "('e, 'r) bench_ops \<Rightarrow> nat option \<Rightarrow> nat \<Rightarrow> nat \<Rightarrow> 'r \<Rightarrow> 'r" where
  "report_pulled ops every expected n r =
     foldl (\<lambda>r i. if reports_at every i then job_ignore (bo_report ops (InsertedRecords i expected)) r else r) r [0..<n]"

definition run_ingest ::
  "('e, 'r) bench_ops \<Rightarrow> nat option \<Rightarrow> nat \<Rightarrow> ('e \<Rightarrow> 'e ingest) \<Rightarrow> ('e, 'r, nat) bench" where
  "run_ingest ops every expected load w =
     (case load (fst w) of
        (r, e) \<Rightarrow> (map_err IngestFailed r, (e, report_pulled ops every expected (pulled expected r) (snd w))))"

text \<open>\<open>(0..n).step_by(step)\<close>\<close>

definition step_by :: "nat \<Rightarrow> nat \<Rightarrow> nat list" where
  "step_by n step = map (\<lambda>j. j * step) [0..<(n + step - 1) div step]"

section \<open>Heed\<close>

record heed_config =
  hc_expected_records :: nat
  hc_point_query_step :: nat
  hc_progress_every :: "nat option"
  hc_force_sync :: bool

definition heed_point_query ::
  "('e, 'r) bench_ops \<Rightarrow> 128 word \<Rightarrow> nat \<Rightarrow> nat \<Rightarrow> f64 \<Rightarrow> duration \<Rightarrow> ('e, 'r, query_result) bench" where
  "heed_point_query ops run_id expected step rate elapsed =
     (let step = max step 1 in
      job_bind (db_read (\<lambda>e. map_err BeginRead (bo_begin_read ops e))) (\<lambda>_.
      job_bind
        (job_iter (\<lambda>i matched.
           (let key = heed_record_key run_id i in
            job_bind (db_read (\<lambda>e. map_err (Retrieving key i) (bo_get ops e key))) (\<lambda>value.
            job_bind (job_lift (ok_or (NotPresent key i) value)) (\<lambda>event.
              (let matched = Suc matched in
               if matched mod 1000 = 0
               then job_bind (report_progress ops (Querying matched (ev_seq event) (ev_score event))) (\<lambda>_. job_return matched)
               else job_return matched)))))
         (step_by expected step) 0) (\<lambda>matched.
      job_bind (report_progress ops (QueryCompleted matched elapsed)) (\<lambda>_.
      job_return \<lparr>matched_rows = matched, query_elapsed = elapsed\<rparr>))))"

definition heed_run_benchmark ::
  "('e, 'r) bench_ops \<Rightarrow> ('e, 't, u64 \<times> event, 'c) engine_ops \<Rightarrow> heed_config \<Rightarrow> (bench_error, 128 word) result \<Rightarrow>
   (nat \<Rightarrow> duration) \<Rightarrow> ('e, 'r, heed_result) bench" where
  "heed_run_benchmark ops eng config clock elapsed =
     job_bind (db_call OpenFailed (\<lambda>_. bo_open ops)) (\<lambda>_.
     job_bind (db_call CreateDatabase (bo_create_table ops)) (\<lambda>_.
     job_bind (job_lift clock) (\<lambda>run_id.
     job_bind (report_progress ops Starting) (\<lambda>_.
     job_bind (report_progress ops (StartingIngestion (hc_expected_records config))) (\<lambda>_.
     job_bind (job_lift (ok_or Panicked (heed_event_stream run_id (hc_expected_records config)))) (\<lambda>events.
     job_bind (run_ingest ops (hc_progress_every config) (hc_expected_records config)
        (heed_ingest eng (zip (map (heed_record_key run_id) [0..<length events]) events))) (\<lambda>inserted.
     (let rate = rows_per_sec inserted (elapsed 0) in
     job_bind (report_progress ops (IngestionCompleted rate)) (\<lambda>_.
     job_bind (heed_point_query ops run_id (hc_expected_records config) (hc_point_query_step config) rate (elapsed 1)) (\<lambda>q.
     job_bind (report_progress ops (QueryMatched rate (matched_rows q) (query_elapsed q))) (\<lambda>_.
     job_bind
       (if hc_force_sync config
        then job_bind (report_progress ops Syncing) (\<lambda>_.
             job_bind (db_call SyncFailed (bo_sync ops)) (\<lambda>_.
             job_bind (report_progress ops (Synced rate (matched_rows q) (elapsed 2))) (\<lambda>_.
             job_return (Some (elapsed 2)))))
        else job_return None) (\<lambda>sync_elapsed.
     job_bind (db_call CloseFailed (bo_close ops)) (\<lambda>_.
     job_bind (report_progress ops (Closed rate (matched_rows q) (query_elapsed q) (elapsed 3))) (\<lambda>_.
     job_return \<lparr>br_inserted = inserted, br_ingest_elapsed = elapsed 0, br_query = q, br_close_elapsed = elapsed 3,
        br_sync_elapsed = sync_elapsed\<rparr>))))))))))))))"

definition heed_ui_config :: heed_config where
  "heed_ui_config =
     \<lparr>hc_expected_records = 64 * 1024 * 1024, hc_point_query_step = 100000, hc_progress_every = Some 100000,
      hc_force_sync = True\<rparr>"

section \<open>ReDB\<close>

record redb_config =
  rc_expected_records :: nat
  rc_point_query_step :: nat
  rc_progress_every :: "nat option"

definition redb_point_query ::
  "('e, 'r) bench_ops \<Rightarrow> 128 word \<Rightarrow> nat \<Rightarrow> nat \<Rightarrow> f64 \<Rightarrow> duration \<Rightarrow> ('e, 'r, query_result) bench" where
  "redb_point_query ops run_id expected step rate elapsed =
     (let step = max step 1 in
      job_bind (db_read (\<lambda>e. map_err BeginRead (bo_begin_read ops e))) (\<lambda>_.
      job_bind (db_read (\<lambda>e. map_err OpenTable (bo_open_table ops e))) (\<lambda>_.
      job_bind
        (job_iter (\<lambda>i matched.
           (let key = redb_record_key run_id i in
            job_bind (db_read (\<lambda>e. map_err (Retrieving key i) (bo_get ops e key))) (\<lambda>value.
            job_bind (job_lift (ok_or (NotPresent key i) value)) (\<lambda>event.
              (let matched = Suc matched in
               if matched mod 10 = 0
               then job_bind (report_progress ops (Querying matched (ev_seq event) (ev_score event))) (\<lambda>_. job_return matched)
               else job_return matched)))))
         (step_by expected step) 0) (\<lambda>matched.
      job_bind (report_progress ops (QueryCompleted matched elapsed)) (\<lambda>_.
      job_return \<lparr>matched_rows = matched, query_elapsed = elapsed\<rparr>)))))"

definition redb_run_benchmark ::
  "('e, 'r) bench_ops \<Rightarrow> ('e, 't, u64 \<times> event, 'c) engine_ops \<Rightarrow> redb_config \<Rightarrow> (bench_error, 128 word) result \<Rightarrow>
   (nat \<Rightarrow> duration) \<Rightarrow> ('e, 'r, bench_result) bench" where
  "redb_run_benchmark ops eng config clock elapsed =
     job_bind (db_call OpenFailed (\<lambda>_. bo_open ops)) (\<lambda>_.
     job_bind (job_lift clock) (\<lambda>run_id.
     job_bind (report_progress ops Starting) (\<lambda>_.
     job_bind (report_progress ops (StartingIngestion (rc_expected_records config))) (\<lambda>_.
     job_bind (job_lift (ok_or Panicked (redb_event_stream run_id (rc_expected_records config)))) (\<lambda>events.
     job_bind (run_ingest ops (rc_progress_every config) (rc_expected_records config)
        (redb_ingest eng (zip (map (redb_record_key run_id) [0..<length events]) events))) (\<lambda>inserted.
     (let rate = rows_per_sec inserted (elapsed 0) in
     job_bind (report_progress ops (IngestionCompleted rate)) (\<lambda>_.
     job_bind (redb_point_query ops run_id (rc_expected_records config) (rc_point_query_step config) rate (elapsed 1)) (\<lambda>q.
     job_bind (report_progress ops (QueryMatched rate (matched_rows q) (query_elapsed q))) (\<lambda>_.
     job_bind (db_call CloseFailed (bo_close ops)) (\<lambda>_.
     job_bind (report_progress ops (Closed rate (matched_rows q) (query_elapsed q) (elapsed 2))) (\<lambda>_.
     job_return \<lparr>br_inserted = inserted, br_ingest_elapsed = elapsed 0, br_query = q, br_close_elapsed = elapsed 2\<rparr>))))))))))))"

definition redb_ui_config :: redb_config where
  "redb_ui_config =
     \<lparr>rc_expected_records = 1024 * 1024, rc_point_query_step = 100000, rc_progress_every = Some 100000\<rparr>"

section \<open>SQLite\<close>

record sqlite_config =
  sc_expected_records :: nat
  sc_progress_every :: "nat option"
  sc_point_query :: bool
  sc_range_query :: bool
  sc_wal_maintenance :: bool

text \<open>\<open>try_next\<close> yields a row or an error; every hundredth row is reported.\<close>

definition sqlite_range_query ::
  "('e, 'r) bench_ops \<Rightarrow> f64 \<Rightarrow> duration \<Rightarrow> ('e, 'r, query_result) bench" where
  "sqlite_range_query ops rate elapsed =
     job_bind (db_read (\<lambda>e. Inr (bo_select ops e))) (\<lambda>rows.
     job_bind
       (job_iter (\<lambda>row matched.
          job_bind (job_lift (map_err FetchRow row)) (\<lambda>event.
            (let matched = Suc matched in
             if matched mod 100 = 0
             then job_bind (report_progress ops (Querying matched (se_seq event) (se_score event))) (\<lambda>_. job_return matched)
             else job_return matched)))
        rows 0) (\<lambda>matched.
     job_bind (report_progress ops (QueryCompleted matched elapsed)) (\<lambda>_.
     job_return \<lparr>matched_rows = matched, query_elapsed = elapsed\<rparr>)))"

definition sqlite_point_query :: "('e, 'r) bench_ops \<Rightarrow> f64 \<Rightarrow> duration \<Rightarrow> ('e, 'r, query_result) bench" where
  "sqlite_point_query ops rate elapsed = sqlite_range_query ops rate elapsed"

definition query_if :: "bool \<Rightarrow> ('e, 'r, query_result) bench \<Rightarrow> ('e, 'r, query_result option) bench" where
  "query_if b q = (if b then job_bind q (\<lambda>r. job_return (Some r)) else job_return None)"

definition sqlite_run_benchmark ::
  "('e, 'r) bench_ops \<Rightarrow> ('e, 't, sqlite_event, 'c) engine_ops \<Rightarrow> sqlite_config \<Rightarrow> (bench_error, 128 word) result \<Rightarrow>
   (nat \<Rightarrow> duration) \<Rightarrow> ('e, 'r, sqlite_result) bench" where
  "sqlite_run_benchmark ops eng config clock elapsed =
     job_bind (db_call OpenFailed (\<lambda>_. bo_open ops)) (\<lambda>_.
     job_bind (db_call CreateDatabase (bo_create_table ops)) (\<lambda>_.
     job_bind (job_lift clock) (\<lambda>run_id.
     job_bind (report_progress ops Starting) (\<lambda>_.
     job_bind (report_progress ops (StartingIngestion (sc_expected_records config))) (\<lambda>_.
     job_bind (run_ingest ops (sc_progress_every config) (sc_expected_records config)
        (sqlite_ingest eng (sqlite_event_stream run_id (sc_expected_records config)))) (\<lambda>inserted.
     (let rate = rows_per_sec inserted (elapsed 0) in
     job_bind (report_progress ops (IngestionCompleted rate)) (\<lambda>_.
     job_bind (query_if (sc_point_query config) (sqlite_point_query ops rate (elapsed 1))) (\<lambda>point_query.
     job_bind (query_if (sc_range_query config) (sqlite_range_query ops rate (elapsed 2))) (\<lambda>range_query.
     job_bind (job_lift (ok_or NoQuerySelected (case range_query of Some q \<Rightarrow> Some q | None \<Rightarrow> point_query))) (\<lambda>query.
     job_bind (report_progress ops (QueryMatched rate (matched_rows query) (query_elapsed query))) (\<lambda>_.
     job_bind
       (if sc_wal_maintenance config
        then job_bind (report_progress ops WalPassive) (\<lambda>_.
             job_bind (db_call SyncFailed (bo_sync ops)) (\<lambda>_.
             job_bind (report_progress ops (WalHard (elapsed 3))) (\<lambda>_.
             job_bind (db_call SyncFailed (bo_sync_hard ops)) (\<lambda>_.
             job_bind (report_progress ops (WalDone (elapsed 4))) (\<lambda>_.
             job_return (Some (elapsed 3), Some (elapsed 4)))))))
        else job_return (None, None)) (\<lambda>(passive_elapsed, hard_elapsed).
     job_bind (db_call CloseFailed (bo_close ops)) (\<lambda>_.
     job_bind (report_progress ops (Closed rate (matched_rows query) (query_elapsed query) (elapsed 5))) (\<lambda>_.
     job_return \<lparr>sr_inserted = inserted, sr_ingest_elapsed = elapsed 0, sr_point_query = point_query,
        sr_range_query = range_query, sr_passive_sync_elapsed = passive_elapsed,
        sr_hard_sync_elapsed = hard_elapsed, sr_close_elapsed = elapsed 5\<rparr>)))))))))))))))"

definition sqlite_ui_config :: sqlite_config where
  "sqlite_ui_config =
     \<lparr>sc_expected_records = 1024 * 1024, sc_progress_every = Some 100000, sc_point_query = False,
      sc_range_query = True, sc_wal_maintenance = True\<rparr>"

section \<open>Events and keys are well formed\<close>

lemma payload_length:
  assumes "seq < 10 ^ 12"
  shows "length (payload_text run_id seq) = 53"
proof -
  have "unat run_id < 16 ^ 32" by (rule less_le_trans [OF unsigned_less]) simp
  then have "length (to_base 16 (unat run_id)) \<le> 32" by (intro length_to_base) simp_all
  moreover have "length (show_nat seq) \<le> 12"
    unfolding show_nat_def using assms by (intro length_to_base) simp_all
  ultimately show ?thesis by (simp add: payload_text_def)
qed

lemma those_map_Some: "(\<And>x. x \<in> set xs \<Longrightarrow> f x = Some (g x)) \<Longrightarrow> those (map f xs) = Some (map g xs)"
  by (induction xs) auto

definition good_event :: "128 word \<Rightarrow> nat \<Rightarrow> event" where
  "good_event run_id seq =
     \<lparr>ev_seq = word_of_nat seq, ev_score = word_of_nat (seq mod 100000), ev_payload = payload_text run_id seq\<rparr>"

lemma heed_event_stream_Some:
  "n \<le> 10 ^ 12 \<Longrightarrow> heed_event_stream run_id n = Some (map (good_event run_id) [0..<n])"
  unfolding heed_event_stream_def
  by (intro those_map_Some) (simp add: heed_make_event_def to_byte_array_def payload_length good_event_def)

lemma redb_make_event_same: "redb_make_event = heed_make_event"
  by (simp add: fun_eq_iff redb_make_event_def heed_make_event_def)

lemma redb_same:
  "redb_event_stream = heed_event_stream" "redb_record_key = heed_record_key"
  by (simp_all add: fun_eq_iff redb_event_stream_def heed_event_stream_def redb_make_event_same
      redb_record_key_def heed_record_key_def)

lemma record_key_inj:
  "i < 2 ^ 64 \<Longrightarrow> j < 2 ^ 64 \<Longrightarrow> heed_record_key run_id i = heed_record_key run_id j \<longleftrightarrow> i = j"
  by (simp add: heed_record_key_def word_of_nat_eq_iff take_bit_nat_eq_self)

lemma length_step_by [simp]: "length (step_by n step) = (n + step - 1) div step"
  by (simp add: step_by_def)

lemma step_by_less:
  assumes "0 < step" "i \<in> set (step_by n step)"
  shows "i < n"
proof -
  from assms obtain j where j: "i = j * step" "j < (n + step - 1) div step"
    by (auto simp: step_by_def)
  then have "Suc j * step \<le> n + step - 1"
    using less_eq_div_iff_mult_less_eq [OF assms(1), of "Suc j" "n + step - 1"] by simp
  with j assms(1) show ?thesis by simp
qed

section \<open>A benchmark finds what it wrote\<close>

text \<open>The engine, read through a lookup, and a loader over it.\<close>

fun kv_eff :: "'k \<times> 'v \<Rightarrow> ('k \<rightharpoonup> 'v) \<Rightarrow> ('k \<rightharpoonup> 'v)" where
  "kv_eff (k, v) m = m(k \<mapsto> v)"

lemma fold_kv_eff: "fold kv_eff kvs m = m ++ map_of (rev kvs)"
  by (induction kvs arbitrary: m) auto

lemma map_of_rev_distinct: "distinct (map fst xs) \<Longrightarrow> map_of (rev xs) = map_of xs"
  by (rule map_of_eqI) (auto simp: rev_map [symmetric] map_of_eq_Some_iff)

lemma fold_kv_zip:
  assumes "distinct ks" "length ks = length vs" "i < length ks"
  shows "fold kv_eff (zip ks vs) m (ks ! i) = Some (vs ! i)"
proof -
  have "distinct (map fst (zip ks vs))" using assms by simp
  then have "map_of (rev (zip ks vs)) (ks ! i) = map_of (zip ks vs) (ks ! i)"
    by (simp add: map_of_rev_distinct)
  also have "\<dots> = Some (vs ! i)" using assms by (simp add: map_of_zip_nth)
  finally show ?thesis by (simp add: fold_kv_eff map_add_def)
qed

definition store_laws :: "('e, 'r) bench_ops \<Rightarrow> ('e, 't, u64 \<times> event, u64 \<rightharpoonup> event) engine_ops \<Rightarrow> bool" where
  "store_laws ops eng \<longleftrightarrow>
     engine_laws kv_eff eng \<and> (\<forall>e k v. bo_get ops e k = Inr v \<longrightarrow> v = committed eng e k)"

definition has_events :: "('e, 't, u64 \<times> event, u64 \<rightharpoonup> event) engine_ops \<Rightarrow> 128 word \<Rightarrow> nat \<Rightarrow> 'e \<times> 'r \<Rightarrow> bool" where
  "has_events eng run_id n w \<longleftrightarrow> (\<forall>i < n. committed eng (fst w) (heed_record_key run_id i) = Some (good_event run_id i))"

definition not_missing :: "bench_error \<Rightarrow> bool" where
  "not_missing err \<longleftrightarrow> (\<forall>k i. err \<noteq> NotPresent k i) \<and> err \<noteq> Panicked"

lemma triple_db_read:
  "(\<And>e r x. P (e, r) \<Longrightarrow> f e = Inr x \<Longrightarrow> Q x (e, r)) \<Longrightarrow> (\<And>e r x. P (e, r) \<Longrightarrow> f e = Inl x \<Longrightarrow> E x) \<Longrightarrow>
   triple P (db_read f) E Q"
  by (auto simp: triple_def db_read_def split: sum.splits)

lemma triple_report:
  "(\<And>e r r'. P (e, r) \<Longrightarrow> Q () (e, r')) \<Longrightarrow> (\<And>m. E (ReportFailed m)) \<Longrightarrow> triple P (report_progress ops p) E Q"
  by (auto simp: triple_def report_progress_def map_err_def split: prod.splits sum.splits)

lemma triple_db_call:
  "(\<And>e e' r. P (e, r) \<Longrightarrow> f e = Inr e' \<Longrightarrow> Q () (e', r)) \<Longrightarrow> (\<And>m. E (err m)) \<Longrightarrow> triple P (db_call err f) E Q"
  by (auto simp: triple_def db_call_def split: sum.splits)

lemma not_missing_simps [simp]:
  "not_missing (ReportFailed m)" "not_missing (OpenFailed m)" "not_missing (CreateDatabase m)"
  "not_missing (IngestFailed x)" "not_missing (BeginRead m)" "not_missing (OpenTable m)"
  "not_missing (Retrieving k i m)" "not_missing (SyncFailed m)" "not_missing (CloseFailed m)"
  by (simp_all add: not_missing_def)

lemma has_events_report: "has_events eng run_id n (e, r) \<Longrightarrow> has_events eng run_id n (e, r')"
  by (simp add: has_events_def)

text \<open>One lookup of a benchmark; \<open>notify\<close> is the report every so many rows.\<close>

lemma triple_lookup:
  assumes "store_laws ops eng" "i < n"
    and "\<And>m ev. triple (has_events eng run_id n) (notify m ev) not_missing
      (\<lambda>x w. has_events eng run_id n w \<and> x = m)"
  shows "triple (has_events eng run_id n)
     (job_bind (db_read (\<lambda>e. map_err (Retrieving (heed_record_key run_id i) i) (bo_get ops e (heed_record_key run_id i)))) (\<lambda>value.
      job_bind (job_lift (ok_or (NotPresent (heed_record_key run_id i) i) value)) (\<lambda>event. notify (Suc matched) event)))
     not_missing (\<lambda>b w. has_events eng run_id n w \<and> b = Suc matched)"
proof (rule triple_bind [OF triple_db_read [where Q = "\<lambda>v w. has_events eng run_id n w \<and> v \<noteq> None"]])
  fix e r x
  assume "has_events eng run_id n (e, r)"
    "map_err (Retrieving (heed_record_key run_id i) i) (bo_get ops e (heed_record_key run_id i)) = Inr x"
  with assms(1,2) show "has_events eng run_id n (e, r) \<and> x \<noteq> None"
    by (fastforce simp: has_events_def store_laws_def)
next
  fix v
  show "triple (\<lambda>w. has_events eng run_id n w \<and> v \<noteq> None)
     (job_bind (job_lift (ok_or (NotPresent (heed_record_key run_id i) i) v)) (\<lambda>event. notify (Suc matched) event))
     not_missing (\<lambda>b w. has_events eng run_id n w \<and> b = Suc matched)"
    by (rule triple_bind [OF triple_lift [where Q = "\<lambda>ev w. has_events eng run_id n w"] assms(3)]) auto
qed (auto simp: map_err_def split: sum.splits)

text \<open>The query loops of the two key-value benchmarks differ in how often they report.\<close>

lemma triple_lookups:
  assumes "store_laws ops eng" "set is \<subseteq> {..<n}"
    and "\<And>m ev. triple (has_events eng run_id n) (notify m ev) not_missing (\<lambda>x w. has_events eng run_id n w \<and> x = m)"
  shows "triple (has_events eng run_id n)
     (job_iter (\<lambda>i matched.
        (let key = heed_record_key run_id i in
         job_bind (db_read (\<lambda>e. map_err (Retrieving key i) (bo_get ops e key))) (\<lambda>value.
         job_bind (job_lift (ok_or (NotPresent key i) value)) (\<lambda>event. notify (Suc matched) event)))) is a)
     not_missing (\<lambda>b w. has_events eng run_id n w \<and> b = a + length is)"
  using assms(2)
proof (induction "is" arbitrary: a)
  case Nil
  show ?case by (auto simp: triple_def job_return_def)
next
  case (Cons i "is")
  then have i: "i < n" "set is \<subseteq> {..<n}" by auto
  note lookup = triple_lookup [OF assms(1) i(1) assms(3), of a]
  show ?case
    unfolding job_iter.simps Let_def
  proof (rule triple_bind [OF lookup])
    fix b
    note IH = Cons.IH [OF i(2), of b, unfolded Let_def]
    show "triple (\<lambda>w. has_events eng run_id n w \<and> b = Suc a)
      (job_iter (\<lambda>i matched. job_bind (db_read (\<lambda>e. map_err (Retrieving (heed_record_key run_id i) i) (bo_get ops e (heed_record_key run_id i)))) (\<lambda>value.
         job_bind (job_lift (ok_or (NotPresent (heed_record_key run_id i) i) value)) (\<lambda>event. notify (Suc matched) event))) is b)
      not_missing (\<lambda>b w. has_events eng run_id n w \<and> b = a + length (i # is))"
    proof (cases "b = Suc a")
      case True
      show ?thesis by (rule triple_post [OF triple_pre [OF IH]]) (auto simp: True)
    qed (simp add: triple_def)
  qed
qed

lemma triple_notify:
  "triple (has_events eng run_id n)
     (if b then job_bind (report_progress ops p) (\<lambda>_. job_return m) else job_return m)
     not_missing (\<lambda>x w. has_events eng run_id n w \<and> x = m)"
  by (auto intro!: triple_if triple_bind [OF triple_report [where Q = "\<lambda>_. has_events eng run_id n"]] triple_return
      intro: has_events_report)

lemma step_by_subset: "0 < step \<Longrightarrow> set (step_by n step) \<subseteq> {..<n}"
  using step_by_less by auto

lemma triple_query_end:
  "triple (\<lambda>w. has_events eng run_id n w \<and> m = 0 + length is)
     (job_bind (report_progress ops (QueryCompleted m d)) (\<lambda>_. job_return \<lparr>matched_rows = m, query_elapsed = d\<rparr>))
     not_missing (\<lambda>q _. matched_rows q = length is)"
  by (rule triple_bind [OF triple_report [where Q = "\<lambda>_ _. m = length is"]]) (auto intro!: triple_return)

lemma triple_begin_read:
  "(\<And>m. not_missing (err m)) \<Longrightarrow>
   triple (has_events eng run_id n) (db_read (\<lambda>e. map_err err (f e))) not_missing (\<lambda>_. has_events eng run_id n)"
  by (rule triple_db_read) (auto simp: map_err_def split: sum.splits)

lemma triple_rows:
  assumes "store_laws ops eng" "set is \<subseteq> {..<n}"
  shows "triple (has_events eng run_id n)
     (job_iter (\<lambda>i matched.
        (let key = heed_record_key run_id i in
         job_bind (db_read (\<lambda>e. map_err (Retrieving key i) (bo_get ops e key))) (\<lambda>value.
         job_bind (job_lift (ok_or (NotPresent key i) value)) (\<lambda>event.
           (let matched = Suc matched in
            if matched mod k = 0
            then job_bind (report_progress ops (Querying matched (ev_seq event) (ev_score event))) (\<lambda>_. job_return matched)
            else job_return matched))))) is a)
     not_missing (\<lambda>b w. has_events eng run_id n w \<and> b = a + length is)"
  unfolding Let_def
  by (rule triple_lookups [OF assms, where notify = "\<lambda>m ev. if m mod k = 0
        then job_bind (report_progress ops (Querying m (ev_seq ev) (ev_score ev))) (\<lambda>_. job_return m) else job_return m",
        unfolded Let_def])
     (rule triple_notify)

lemma triple_heed_point_query:
  assumes "store_laws ops eng"
  shows "triple (has_events eng run_id n) (heed_point_query ops run_id n step rate d) not_missing
    (\<lambda>q _. matched_rows q = (n + max step 1 - 1) div max step 1)"
proof -
  have sub: "set (step_by n (max step 1)) \<subseteq> {..<n}" by (rule step_by_subset) simp
  show ?thesis
    unfolding heed_point_query_def Let_def length_step_by [symmetric]
    by (rule triple_bind [OF triple_begin_read], rule not_missing_simps,
        rule triple_bind [OF triple_rows [OF assms sub, unfolded Let_def] triple_query_end])
qed

lemma triple_redb_point_query:
  assumes "store_laws ops eng"
  shows "triple (has_events eng run_id n) (redb_point_query ops run_id n step rate d) not_missing
    (\<lambda>q _. matched_rows q = (n + max step 1 - 1) div max step 1)"
proof -
  have sub: "set (step_by n (max step 1)) \<subseteq> {..<n}" by (rule step_by_subset) simp
  show ?thesis
    unfolding redb_point_query_def Let_def length_step_by [symmetric] redb_same
    by (rule triple_bind [OF triple_begin_read], rule not_missing_simps, rule triple_bind [OF triple_begin_read], rule not_missing_simps,
        rule triple_bind [OF triple_rows [OF assms sub, unfolded Let_def] triple_query_end])
qed

lemma run_ingest_has_events:
  assumes laws: "store_laws ops eng" and n: "n \<le> 10 ^ 12"
    and load: "load = heed_ingest eng items \<or> load = redb_ingest eng items"
    and items: "items = zip (map (heed_record_key run_id) [0..<n]) (map (good_event run_id) [0..<n])"
  shows "triple (\<lambda>_. True) (run_ingest ops every n load) not_missing (\<lambda>k w. has_events eng run_id n w \<and> k = n)"
proof -
  have inj: "distinct (map (heed_record_key run_id) [0..<n])"
    using n by (auto simp: distinct_map inj_on_def record_key_inj)
  have pub: "has_events eng run_id n (e', r) \<and> k = n" if "load e = (Inr k, e')" for e e' k r
  proof -
    have k: "k = length items" "committed eng e' = fold kv_eff items (committed eng e)"
      using laws load that heed_loader.load_Inr redb_loader.load_Inr unfolding store_laws_def by metis+
    have "committed eng e' (heed_record_key run_id i) = Some (good_event run_id i)" if "i < n" for i
      using fold_kv_zip [OF inj, of "map (good_event run_id) [0..<n]" i "committed eng e"] that
      by (simp add: k(2) items)
    with k(1) show ?thesis by (simp add: has_events_def items)
  qed
  show ?thesis
    by (auto simp: triple_def run_ingest_def map_err_def split: prod.splits sum.splits dest: pub)
qed

lemma triple_pure_call: "(\<And>m. E (err m)) \<Longrightarrow> triple (\<lambda>_. \<phi>) (db_call err f) E (\<lambda>_ _. \<phi>)"
  by (rule triple_db_call)

lemma triple_pure_report: "(\<And>m. E (ReportFailed m)) \<Longrightarrow> triple (\<lambda>_. \<phi>) (report_progress ops p) E (\<lambda>_ _. \<phi>)"
  by (rule triple_report)

lemma triple_events_report:
  "triple (\<lambda>w. has_events eng run_id n w \<and> \<phi>) (report_progress ops p) not_missing (\<lambda>_ w. has_events eng run_id n w \<and> \<phi>)"
  by (rule triple_report) (auto intro: has_events_report)

lemma triple_pure_query:
  assumes "\<And>run_id. triple (has_events eng run_id n) (q run_id) not_missing (\<lambda>r _. matched_rows r = k)"
  shows "triple (\<lambda>w. has_events eng run_id n w \<and> \<phi>) (q run_id) not_missing (\<lambda>r _. \<phi> \<and> matched_rows r = k)"
  using assms [of run_id] by (fastforce simp: triple_def split: prod.splits sum.splits)

lemma triple_heed_run:
  assumes "store_laws ops eng" "hc_expected_records config = n" "n \<le> 10 ^ 12"
  shows "triple (\<lambda>_. True) (heed_run_benchmark ops eng config (Inr run_id) elapsed) not_missing
    (\<lambda>r _. br_inserted r = n \<and>
       matched_rows (br_query r) = (n + max (hc_point_query_step config) 1 - 1) div max (hc_point_query_step config) 1)"
  unfolding heed_run_benchmark_def Let_def assms(2) heed_event_stream_Some [OF assms(3)]
    ok_or_simps job_bind_simps length_map length_upt diff_zero
  by (rule triple_bind [OF triple_pure_call [where \<phi> = True]] triple_bind [OF triple_pure_report [where \<phi> = True]]
        not_missing_simps
        triple_bind [OF run_ingest_has_events [OF assms(1,3) disjI1 [OF refl] refl]]
        triple_bind [OF triple_events_report]
        triple_bind [OF triple_pure_query [OF triple_heed_point_query [OF assms(1)]]])+
     (auto simp: job_bind_assoc intro!: triple_bind [OF triple_pure_report] triple_bind [OF triple_pure_call] triple_pure_report
        triple_if triple_return)

lemma triple_redb_run:
  assumes "store_laws ops eng" "rc_expected_records config = n" "n \<le> 10 ^ 12"
  shows "triple (\<lambda>_. True) (redb_run_benchmark ops eng config (Inr run_id) elapsed) not_missing
    (\<lambda>r _. br_inserted r = n \<and>
       matched_rows (br_query r) = (n + max (rc_point_query_step config) 1 - 1) div max (rc_point_query_step config) 1)"
  unfolding redb_run_benchmark_def Let_def assms(2) redb_same heed_event_stream_Some [OF assms(3)]
    ok_or_simps job_bind_simps length_map length_upt diff_zero
  by (rule triple_bind [OF triple_pure_call [where \<phi> = True]] triple_bind [OF triple_pure_report [where \<phi> = True]]
        not_missing_simps
        triple_bind [OF run_ingest_has_events [OF assms(1,3) disjI2 [OF refl] refl]]
        triple_bind [OF triple_events_report]
        triple_bind [OF triple_pure_query [OF triple_redb_point_query [OF assms(1)]]])+
     (auto intro!: triple_bind [OF triple_pure_report] triple_bind [OF triple_pure_call] triple_pure_report
        triple_if triple_return)

section \<open>Properties of the key-value benchmarks\<close>

text \<open>Engines over maps, and a bench that always reports successfully.\<close>

definition map_engine :: "(u64 \<rightharpoonup> event, u64 \<rightharpoonup> event, u64 \<times> event, u64 \<rightharpoonup> event) engine_ops" where
  "map_engine =
     \<lparr>begin_txn = Inr, open_table = Inr, put_item = (\<lambda>i t. Inr (kv_eff i t)), commit_txn = (\<lambda>t _. Inr t),
      committed = (\<lambda>e. e), pending = (\<lambda>t. t)\<rparr>"

definition map_bench :: "(u64 \<rightharpoonup> event, progress list) bench_ops" where
  "map_bench =
     \<lparr>bo_open = Inr Map.empty, bo_create_table = Inr, bo_begin_read = (\<lambda>_. Inr ()), bo_open_table = (\<lambda>_. Inr ()),
      bo_get = (\<lambda>e k. Inr (e k)), bo_select = (\<lambda>_. []), bo_sync = Inr, bo_sync_hard = Inr, bo_close = Inr,
      bo_report = (\<lambda>p r. (Inr (), r @ [p]))\<rparr>"

lemma store_laws_map: "store_laws map_bench map_engine"
  by (auto simp: store_laws_def engine_laws_def map_bench_def map_engine_def)

lemma triple_case: "triple (\<lambda>_. True) j E Q \<Longrightarrow> (case j w of (Inr x, w') \<Rightarrow> Q x w' | (Inl e, _) \<Rightarrow> E e)"
  by (fastforce simp: triple_def split: prod.splits sum.splits)

text \<open>The Heed benchmark reads back what it wrote: on a store that keeps its contract, with up
  to 10^12 records, it never panics and never reports a missing record; when it completes it has
  inserted every record and found one in every \<open>point_query_step\<close> of them.\<close>

theorem heed_benchmark_finds_all:
  assumes "store_laws ops eng" "hc_expected_records config = n" "n \<le> 10 ^ 12"
  shows "(case heed_run_benchmark ops eng config (Inr run_id) elapsed w of
      (Inr r, _) \<Rightarrow> br_inserted r = n \<and>
        matched_rows (br_query r) = (n + max (hc_point_query_step config) 1 - 1) div max (hc_point_query_step config) 1
    | (Inl err, _) \<Rightarrow> (\<forall>k i. err \<noteq> NotPresent k i) \<and> err \<noteq> Panicked)"
  by (rule triple_case [OF triple_heed_run [OF assms], unfolded not_missing_def])

theorem heed_benchmark_finds_all_witness:
  "(case heed_run_benchmark map_bench map_engine
        \<lparr>hc_expected_records = 5, hc_point_query_step = 3, hc_progress_every = None, hc_force_sync = True\<rparr>
        (Inr 77) (\<lambda>_. 10 ^ 9) (Map.empty, []) of
      (Inr r, _) \<Rightarrow> br_inserted r = 5 \<and> matched_rows (br_query r) = 2
    | (Inl err, _) \<Rightarrow> (\<forall>k i. err \<noteq> NotPresent k i) \<and> err \<noteq> Panicked)"
  using heed_benchmark_finds_all [OF store_laws_map,
      of "\<lparr>hc_expected_records = 5, hc_point_query_step = 3, hc_progress_every = None, hc_force_sync = True\<rparr>" 5
        77 "\<lambda>_. 10 ^ 9" "(Map.empty, [])"]
  by (auto split: sum.splits prod.splits)

text \<open>So does the ReDB benchmark.\<close>

theorem redb_benchmark_finds_all:
  assumes "store_laws ops eng" "rc_expected_records config = n" "n \<le> 10 ^ 12"
  shows "(case redb_run_benchmark ops eng config (Inr run_id) elapsed w of
      (Inr r, _) \<Rightarrow> br_inserted r = n \<and>
        matched_rows (br_query r) = (n + max (rc_point_query_step config) 1 - 1) div max (rc_point_query_step config) 1
    | (Inl err, _) \<Rightarrow> (\<forall>k i. err \<noteq> NotPresent k i) \<and> err \<noteq> Panicked)"
  by (rule triple_case [OF triple_redb_run [OF assms], unfolded not_missing_def])

theorem redb_benchmark_finds_all_witness:
  "(case redb_run_benchmark map_bench map_engine redb_ui_config (Inr 77) (\<lambda>_. 10 ^ 9) (Map.empty, []) of
      (Inr r, _) \<Rightarrow> br_inserted r = 1048576 \<and> matched_rows (br_query r) = 11
    | (Inl err, _) \<Rightarrow> (\<forall>k i. err \<noteq> NotPresent k i) \<and> err \<noteq> Panicked)"
  using redb_benchmark_finds_all [OF store_laws_map, of redb_ui_config 1048576 77 "\<lambda>_. 10 ^ 9" "(Map.empty, [])"]
  by (auto simp: redb_ui_config_def split: sum.splits prod.splits)

section \<open>The SQLite benchmark counts the high scores\<close>

definition high_score :: "sqlite_event \<Rightarrow> bool" where
  "high_score ev \<longleftrightarrow> high_score_threshold \<le>s se_score ev"

definition rows_laws :: "('e, 'r) bench_ops \<Rightarrow> ('e, 't, sqlite_event, sqlite_event list) engine_ops \<Rightarrow> bool" where
  "rows_laws ops eng \<longleftrightarrow>
     engine_laws (\<lambda>ev rows. rows @ [ev]) eng \<and>
     (\<forall>e rows. bo_select ops e = map Inr rows \<longrightarrow> length rows = length (filter high_score (committed eng e)))"

lemma fold_append: "fold (\<lambda>x xs. xs @ [x]) ys zs = zs @ ys"
  by (induction ys arbitrary: zs) auto

lemma count_high: "length (filter (\<lambda>i. i mod 100000 = 99999) [0..<n]) = n div 100000"
proof (induction n)
  case (Suc n)
  have "Suc n div 100000 = n div 100000 + (if n mod 100000 = 99999 then 1 else 0)"
    by (simp add: div_Suc mod_Suc)
  with Suc show ?case by simp
qed simp

lemma high_score_event: "high_score (sqlite_make_event run_id i) \<longleftrightarrow> i mod 100000 = 99999"
proof -
  have "i mod 100000 < 100000" by simp
  then have b: "i mod 100000 < 2 ^ 63" by simp
  then have "signed_take_bit 63 (int (i mod 100000)) = int (i mod 100000)"
    by (intro signed_take_bit_int_eq_self) (simp_all add: order_trans [of _ 0])
  then have "sint (word_of_nat (i mod 100000) :: u64) = int (i mod 100000)"
    by (simp add: signed_of_nat)
  moreover have "i mod 100000 \<le> 99999"
    using mod_less_divisor [of 100000 i] by linarith
  ultimately show ?thesis
    by (auto simp: high_score_def sqlite_make_event_def word_sle_eq high_score_threshold_def)
qed

definition has_rows :: "('e, 't, sqlite_event, sqlite_event list) engine_ops \<Rightarrow> nat \<Rightarrow> 'e \<times> 'r \<Rightarrow> bool" where
  "has_rows eng k w \<longleftrightarrow> length (filter high_score (committed eng (fst w))) = k"

lemma triple_rows_sqlite:
  "triple (has_rows eng k)
     (job_iter (\<lambda>row matched.
          job_bind (job_lift (map_err FetchRow row)) (\<lambda>event.
            (let matched = Suc matched in
             if matched mod 100 = 0
             then job_bind (report_progress ops (Querying matched (se_seq event) (se_score event))) (\<lambda>_. job_return matched)
             else job_return matched))) rows a)
     (\<lambda>_. True) (\<lambda>b w. has_rows eng k w \<and> b = a + length rows \<and> (\<exists>evs. rows = map Inr evs))"
proof (induction rows arbitrary: a)
  case Nil
  show ?case by (auto simp: triple_def job_return_def)
next
  case (Cons row rows)
  show ?case
  proof (cases row)
    case (Inl e)
    then show ?thesis by (simp add: triple_def job_fail_def)
  next
    case (Inr ev)
    have one: "triple (has_rows eng k)
      (if Suc a mod 100 = 0
       then job_bind (report_progress ops (Querying (Suc a) (se_seq ev) (se_score ev))) (\<lambda>_. job_return (Suc a))
       else job_return (Suc a)) (\<lambda>_. True) (\<lambda>b w. has_rows eng k w \<and> b = Suc a)"
      by (intro triple_if triple_bind [OF triple_report [where Q = "\<lambda>_. has_rows eng k"]] triple_return)
         (simp_all add: has_rows_def)
    have rest: "triple (\<lambda>w. has_rows eng k w \<and> b = Suc a)
      (job_iter (\<lambda>row matched.
          job_bind (job_lift (map_err FetchRow row)) (\<lambda>event.
            (let matched = Suc matched in
             if matched mod 100 = 0
             then job_bind (report_progress ops (Querying matched (se_seq event) (se_score event))) (\<lambda>_. job_return matched)
             else job_return matched))) rows b)
      (\<lambda>_. True) (\<lambda>b w. has_rows eng k w \<and> b = a + length (row # rows) \<and> (\<exists>evs. row # rows = map Inr evs))" for b
    proof (cases "b = Suc a")
      case True
      show ?thesis
        by (rule triple_post [OF triple_pre [OF Cons.IH]]) (auto simp: True Inr intro: exI [of _ "ev # _"])
    qed (simp add: triple_def)
    show ?thesis
      unfolding job_iter.simps Inr map_err_simps job_bind_simps Let_def
      by (rule triple_bind [OF one rest [unfolded Let_def Inr]])
  qed
qed

lemma triple_sqlite_query:
  assumes "rows_laws ops eng"
  shows "triple (has_rows eng k) (sqlite_range_query ops rate d) (\<lambda>_. True)
    (\<lambda>q w. has_rows eng k w \<and> matched_rows q = k)"
  unfolding sqlite_range_query_def
proof (rule triple_bind [OF triple_db_read [where Q = "\<lambda>rows w. has_rows eng k w \<and>
      (\<forall>evs. rows = map Inr evs \<longrightarrow> length evs = k)"]])
  fix e r rows
  assume "has_rows eng k (e, r)" "Inr (bo_select ops e) = (Inr rows :: (bench_error, _) result)"
  with assms show "has_rows eng k (e, r) \<and> (\<forall>evs. rows = map Inr evs \<longrightarrow> length evs = k)"
    by (auto simp: has_rows_def rows_laws_def)
next
  fix rows :: "(rstr, sqlite_event) result list"
  have tail: "triple (\<lambda>w. has_rows eng k w \<and> m = 0 + length rows \<and> (\<exists>evs. rows = map Inr evs))
      (job_bind (report_progress ops (QueryCompleted m d)) (\<lambda>_. job_return \<lparr>matched_rows = m, query_elapsed = d\<rparr>))
      (\<lambda>_. True) (\<lambda>q w. has_rows eng k w \<and> matched_rows q = k)"
    if "\<forall>evs. rows = map Inr evs \<longrightarrow> length evs = k" for m
    by (rule triple_bind [OF triple_report [where Q = "\<lambda>_ w. has_rows eng k w \<and> m = k"]])
       (use that in \<open>auto simp: has_rows_def intro!: triple_return\<close>)
  show "triple (\<lambda>w. has_rows eng k w \<and> (\<forall>evs. rows = map Inr evs \<longrightarrow> length evs = k))
     (job_bind
       (job_iter (\<lambda>row matched.
          job_bind (job_lift (map_err FetchRow row)) (\<lambda>event.
            (let matched = Suc matched in
             if matched mod 100 = 0
             then job_bind (report_progress ops (Querying matched (se_seq event) (se_score event))) (\<lambda>_. job_return matched)
             else job_return matched)))
        rows 0) (\<lambda>matched.
     job_bind (report_progress ops (QueryCompleted matched d)) (\<lambda>_.
     job_return \<lparr>matched_rows = matched, query_elapsed = d\<rparr>)))
     (\<lambda>_. True) (\<lambda>q w. has_rows eng k w \<and> matched_rows q = k)"
    by (rule triple_pure_pre) (rule triple_bind [OF triple_rows_sqlite tail])
qed auto

lemma triple_query_if:
  assumes "rows_laws ops eng"
  shows "triple (has_rows eng k) (query_if b (sqlite_range_query ops rate d)) (\<lambda>_. True)
    (\<lambda>q w. has_rows eng k w \<and> (q \<noteq> None) = b \<and> (\<forall>r. q = Some r \<longrightarrow> matched_rows r = k))"
  unfolding query_if_def
  by (rule triple_if; (rule triple_bind [OF triple_sqlite_query [OF assms]])?) (auto intro!: triple_return)

lemma run_ingest_has_rows:
  assumes "rows_laws ops eng"
  shows "triple (has_rows eng k) (run_ingest ops every n (sqlite_ingest eng (sqlite_event_stream run_id n))) (\<lambda>_. True)
    (\<lambda>ins w. has_rows eng (k + n div 100000) w \<and> ins = n)"
proof -
  have pub: "has_rows eng (k + n div 100000) (e', r) \<and> ins = n"
    if "sqlite_ingest eng (sqlite_event_stream run_id n) e = (Inr ins, e')" "has_rows eng k (e, r')" for e e' ins r r'
  proof -
    have "ins = length (sqlite_event_stream run_id n) \<and>
      committed eng e' = committed eng e @ sqlite_event_stream run_id n"
      using sqlite_loader.load_Inr [OF _ that(1)] assms unfolding rows_laws_def by (metis fold_append)
    moreover have "length (filter high_score (sqlite_event_stream run_id n)) = n div 100000"
      by (simp add: sqlite_event_stream_def filter_map comp_def high_score_event count_high)
    ultimately show ?thesis using that(2) by (simp add: has_rows_def sqlite_event_stream_def)
  qed
  show ?thesis
    by (auto simp: triple_def run_ingest_def map_err_def split: prod.splits sum.splits dest: pub)
qed

lemma triple_rows_report: "triple (\<lambda>w. has_rows eng k w \<and> \<phi>) (report_progress ops p) (\<lambda>_. True) (\<lambda>_ w. has_rows eng k w \<and> \<phi>)"
  by (rule triple_report) (simp_all add: has_rows_def)

text \<open>What a completed run holds: the selected queries, each with \<open>k\<close> rows.\<close>

definition sqlite_done :: "sqlite_config \<Rightarrow> nat \<Rightarrow> nat \<Rightarrow> query_result option \<Rightarrow> query_result option \<Rightarrow> bool" where
  "sqlite_done config ins k pq rq \<longleftrightarrow>
     ins = sc_expected_records config \<and> (pq \<noteq> None) = sc_point_query config \<and> (rq \<noteq> None) = sc_range_query config \<and>
     (\<forall>q. pq = Some q \<or> rq = Some q \<longrightarrow> matched_rows q = k) \<and> (sc_point_query config \<or> sc_range_query config)"

lemma triple_sqlite_end:
  "triple (\<lambda>_. sqlite_done config ins k pq rq)
    (job_bind (report_progress ops p1) (\<lambda>_.
     job_bind
       (if b
        then job_bind (report_progress ops p2) (\<lambda>_.
             job_bind (db_call SyncFailed f) (\<lambda>_.
             job_bind (report_progress ops p3) (\<lambda>_.
             job_bind (db_call SyncFailed g) (\<lambda>_.
             job_bind (report_progress ops p4) (\<lambda>_.
             job_return s)))))
        else job_return n) (\<lambda>(passive, hard).
     job_bind (db_call CloseFailed h) (\<lambda>_.
     job_bind (report_progress ops p5) (\<lambda>_.
     job_return \<lparr>sr_inserted = ins, sr_ingest_elapsed = d, sr_point_query = pq, sr_range_query = rq,
       sr_passive_sync_elapsed = passive, sr_hard_sync_elapsed = hard, sr_close_elapsed = d'\<rparr>)))))
    (\<lambda>_. True) (\<lambda>r _. sqlite_done config (sr_inserted r) k (sr_point_query r) (sr_range_query r))"
  by (auto simp: job_bind_assoc case_prod_beta intro!: triple_bind [OF triple_pure_report] triple_bind [OF triple_pure_call]
      triple_pure_report triple_if triple_return)

lemma triple_sqlite_queries:
  assumes "rows_laws ops eng" "ins = sc_expected_records config"
    and tail: "\<And>pq rq q. triple (\<lambda>_. sqlite_done config ins k pq rq) (tail pq rq q) (\<lambda>_. True) R"
  shows "triple (has_rows eng k)
    (job_bind (report_progress ops p) (\<lambda>_.
     job_bind (query_if (sc_point_query config) (sqlite_range_query ops rate d1)) (\<lambda>point_query.
     job_bind (query_if (sc_range_query config) (sqlite_range_query ops rate d2)) (\<lambda>range_query.
     job_bind (job_lift (ok_or NoQuerySelected (case range_query of Some q \<Rightarrow> Some q | None \<Rightarrow> point_query)))
       (tail point_query range_query)))))
    (\<lambda>_. True) R"
proof (rule triple_bind [OF triple_report [where Q = "\<lambda>_. has_rows eng k"]])
  show "triple (has_rows eng k)
    (job_bind (query_if (sc_point_query config) (sqlite_range_query ops rate d1)) (\<lambda>point_query.
     job_bind (query_if (sc_range_query config) (sqlite_range_query ops rate d2)) (\<lambda>range_query.
     job_bind (job_lift (ok_or NoQuerySelected (case range_query of Some q \<Rightarrow> Some q | None \<Rightarrow> point_query)))
       (tail point_query range_query))))
    (\<lambda>_. True) R"
  proof (rule triple_bind [OF triple_query_if [OF assms(1)]], rule triple_pure_pre)
    fix pq :: "query_result option"
    assume pq: "(pq \<noteq> None) = sc_point_query config \<and> (\<forall>r. pq = Some r \<longrightarrow> matched_rows r = k)"
    show "triple (has_rows eng k)
      (job_bind (query_if (sc_range_query config) (sqlite_range_query ops rate d2)) (\<lambda>range_query.
       job_bind (job_lift (ok_or NoQuerySelected (case range_query of Some q \<Rightarrow> Some q | None \<Rightarrow> pq)))
         (tail pq range_query)))
      (\<lambda>_. True) R"
    proof (rule triple_bind [OF triple_query_if [OF assms(1)]], rule triple_pure_pre)
      fix rq :: "query_result option"
      assume rq: "(rq \<noteq> None) = sc_range_query config \<and> (\<forall>r. rq = Some r \<longrightarrow> matched_rows r = k)"
      show "triple (has_rows eng k)
        (job_bind (job_lift (ok_or NoQuerySelected (case rq of Some q \<Rightarrow> Some q | None \<Rightarrow> pq))) (tail pq rq)) (\<lambda>_. True) R"
        by (rule triple_bind [OF triple_lift [where Q = "\<lambda>_ _. sqlite_done config ins k pq rq"] tail])
           (use pq rq assms(2) in \<open>auto simp: sqlite_done_def split: option.splits\<close>)
    qed
  qed
qed (simp_all add: has_rows_def)

lemma triple_sqlite_run:
  assumes "rows_laws ops eng"
    and prior: "\<And>e0 e1. bo_open ops = Inr e0 \<Longrightarrow> bo_create_table ops e0 = Inr e1 \<Longrightarrow>
      length (filter high_score (committed eng e1)) = k"
  shows "triple (\<lambda>_. True) (sqlite_run_benchmark ops eng config (Inr run_id) elapsed) (\<lambda>_. True)
    (\<lambda>r _. sqlite_done config (sr_inserted r) (k + sc_expected_records config div 100000)
       (sr_point_query r) (sr_range_query r))"
  unfolding sqlite_run_benchmark_def Let_def job_bind_simps(3) sqlite_point_query_def
  by (rule triple_bind [OF triple_db_call [where Q = "\<lambda>_ w. bo_open ops = Inr (fst w)"]
        triple_bind [OF triple_db_call [where Q = "\<lambda>_. has_rows eng k"]
        triple_bind [OF triple_report [where Q = "\<lambda>_. has_rows eng k"]
        triple_bind [OF triple_report [where Q = "\<lambda>_. has_rows eng k"]
        triple_bind [OF run_ingest_has_rows [OF assms(1)] triple_pure_pre
          [OF triple_sqlite_queries [OF assms(1) _ triple_sqlite_end]]]]]]])
     (auto simp: has_rows_def prior)

text \<open>The SQLite benchmark, when it completes, has inserted the configured records, holds
  a result for exactly the selected queries (at least one was), and each of them matched the
  high scores that were there before plus one in every hundred thousand of the new ones.\<close>

theorem sqlite_benchmark_counts_high_scores:
  assumes "rows_laws ops eng" "bo_open ops = Inr e0" "bo_create_table ops e0 = Inr e1"
    and "sqlite_run_benchmark ops eng config (Inr run_id) elapsed w = (Inr r, w')"
  shows "sqlite_done config (sr_inserted r)
    (length (filter high_score (committed eng e1)) + sc_expected_records config div 100000)
    (sr_point_query r) (sr_range_query r)"
proof -
  have "triple (\<lambda>_. True) (sqlite_run_benchmark ops eng config (Inr run_id) elapsed) (\<lambda>_. True)
    (\<lambda>r _. sqlite_done config (sr_inserted r)
      (length (filter high_score (committed eng e1)) + sc_expected_records config div 100000)
      (sr_point_query r) (sr_range_query r))"
    by (rule triple_sqlite_run [OF assms(1)]) (use assms(2,3) in simp)
  from tripleD_Inr [OF this _ assms(4)] show ?thesis by simp
qed

definition rows_engine :: "(sqlite_event list, sqlite_event list, sqlite_event, sqlite_event list) engine_ops" where
  "rows_engine =
     \<lparr>begin_txn = Inr, open_table = Inr, put_item = (\<lambda>i t. Inr (t @ [i])), commit_txn = (\<lambda>t _. Inr t),
      committed = (\<lambda>e. e), pending = (\<lambda>t. t)\<rparr>"

definition rows_bench :: "(sqlite_event list, unit) bench_ops" where
  "rows_bench =
     \<lparr>bo_open = Inr [], bo_create_table = Inr, bo_begin_read = (\<lambda>_. Inr ()), bo_open_table = (\<lambda>_. Inr ()),
      bo_get = (\<lambda>e k. Inr None), bo_select = (\<lambda>e. map Inr (filter high_score e)), bo_sync = Inr, bo_sync_hard = Inr,
      bo_close = Inr, bo_report = (\<lambda>p r. (Inr (), r))\<rparr>"

lemma rows_laws_rows: "rows_laws rows_bench rows_engine"
proof -
  have "engine_laws (\<lambda>ev rows. rows @ [ev]) rows_engine"
    by (simp add: engine_laws_def rows_engine_def)
  moreover have "length rows = length (filter high_score e)" if "bo_select rows_bench e = map Inr rows" for e rows
    using that map_eq_imp_length_eq [of Inr "filter high_score e" Inr rows] by (simp add: rows_bench_def)
  ultimately show ?thesis by (simp add: rows_laws_def rows_engine_def)
qed

definition small_sqlite_config :: sqlite_config where
  "small_sqlite_config =
     \<lparr>sc_expected_records = 2, sc_progress_every = None, sc_point_query = False, sc_range_query = True,
      sc_wal_maintenance = False\<rparr>"

lemma small_stream: "sqlite_event_stream run_id 2 = [sqlite_make_event run_id 0, sqlite_make_event run_id 1]"
  by (simp add: sqlite_event_stream_def upt_rec)

lemma rows_bench_simps [simp]:
  "report_progress rows_bench p w = (Inr (), w)"
  "db_call err (\<lambda>_. bo_open rows_bench) w = (Inr (), ([], snd w))"
  "db_call err (bo_create_table rows_bench) w = (Inr (), w)"
  "db_call err (bo_close rows_bench) w = (Inr (), w)"
  "db_read (\<lambda>e. Inr (bo_select rows_bench e)) w = (Inr (map Inr (filter high_score (fst w))), w)"
  by (cases w; simp add: rows_bench_def report_progress_def db_call_def db_read_def)+

lemma small_ingest:
  "run_ingest rows_bench None 2 (sqlite_ingest rows_engine (sqlite_event_stream run_id 2)) ([], ()) =
     (Inr 2, ([sqlite_make_event run_id 0, sqlite_make_event run_id 1], ()))"
  by (simp add: run_ingest_def sqlite_ingest_def rows_engine_def small_stream pulled_def report_pulled_def reports_at_def)

lemma small_query:
  "sqlite_range_query rows_bench rate d ([sqlite_make_event run_id 0, sqlite_make_event run_id 1], ()) =
     (Inr \<lparr>matched_rows = 0, query_elapsed = d\<rparr>, ([sqlite_make_event run_id 0, sqlite_make_event run_id 1], ()))"
  by (simp add: sqlite_range_query_def job_bind_def job_return_def high_score_event)

definition small_sqlite_result :: sqlite_result where
  "small_sqlite_result =
     \<lparr>sr_inserted = 2, sr_ingest_elapsed = 7, sr_point_query = None,
      sr_range_query = Some \<lparr>matched_rows = 0, query_elapsed = 7\<rparr>, sr_passive_sync_elapsed = None,
      sr_hard_sync_elapsed = None, sr_close_elapsed = 7\<rparr>"

lemma small_sqlite_run:
  "sqlite_run_benchmark rows_bench rows_engine small_sqlite_config (Inr run_id) (\<lambda>_. 7) ([], ()) =
     (Inr small_sqlite_result, ([sqlite_make_event run_id 0, sqlite_make_event run_id 1], ()))"
  by (simp add: sqlite_run_benchmark_def small_sqlite_config_def query_if_def Let_def
      job_bind_def job_lift_def job_return_def small_ingest small_query [unfolded One_nat_def] small_sqlite_result_def)

theorem sqlite_benchmark_counts_high_scores_witness:
  "sqlite_done small_sqlite_config 2 (2 div 100000) None (Some \<lparr>matched_rows = 0, query_elapsed = 7\<rparr>)"
  using sqlite_benchmark_counts_high_scores [OF rows_laws_rows _ _ small_sqlite_run, of "[]" "[]"]
  by (simp add: rows_bench_def rows_engine_def small_sqlite_config_def small_sqlite_result_def)

section \<open>A benchmark touches the outside only through its reports\<close>

lemma db_calls_keep: "keeps (\<lambda>w. P (snd w)) (db_call err f)" "keeps (\<lambda>w. P (snd w)) (db_read g)"
  by (auto simp: keeps_def db_call_def db_read_def split: sum.splits)

lemma bench_calls_keep:
  assumes "\<And>p. keeps P (bo_report ops p)"
  shows "keeps (\<lambda>w. P (snd w)) (report_progress ops p)" "keeps (\<lambda>w. P (snd w)) (run_ingest ops every n load)"
proof -
  show "keeps (\<lambda>w. P (snd w)) (report_progress ops p)"
    using keepsD [OF assms] by (simp add: keeps_def report_progress_def case_prod_beta)
  have one: "P (job_ignore (bo_report ops q) s)" if "P s" for s q
    using keepsD [OF assms that] by (simp add: job_ignore_def)
  have "P (foldl (\<lambda>r i. if reports_at every i then job_ignore (bo_report ops (InsertedRecords i n)) r else r) s is)"
    if "P s" for s "is"
    using that by (induction "is" arbitrary: s) (auto intro: one)
  then show "keeps (\<lambda>w. P (snd w)) (run_ingest ops every n load)"
    by (simp add: keeps_def run_ingest_def report_pulled_def case_prod_beta)
qed

lemma heed_run_keeps:
  assumes "\<And>p. keeps P (bo_report ops p)"
  shows "keeps (\<lambda>w. P (snd w)) (heed_run_benchmark ops eng config clock elapsed)"
  unfolding heed_run_benchmark_def heed_point_query_def Let_def
  by (intro keeps_bind keeps_iter keeps_if keeps_return keeps_lift db_calls_keep bench_calls_keep assms)

lemma redb_run_keeps:
  assumes "\<And>p. keeps P (bo_report ops p)"
  shows "keeps (\<lambda>w. P (snd w)) (redb_run_benchmark ops eng config clock elapsed)"
  unfolding redb_run_benchmark_def redb_point_query_def Let_def
  by (intro keeps_bind keeps_iter keeps_if keeps_return keeps_lift db_calls_keep bench_calls_keep assms)

lemma sqlite_run_keeps:
  assumes "\<And>p. keeps P (bo_report ops p)"
  shows "keeps (\<lambda>w. P (snd w)) (sqlite_run_benchmark ops eng config clock elapsed)"
  unfolding sqlite_run_benchmark_def query_if_def sqlite_point_query_def sqlite_range_query_def Let_def case_prod_beta
  by (intro keeps_bind keeps_iter keeps_if keeps_return keeps_lift db_calls_keep bench_calls_keep assms)

section \<open>When the events are well typed\<close>

lemma payload_length_iff: "length (payload_text run_id seq) = 53 \<longleftrightarrow> seq < 10 ^ 12"
proof
  assume len: "length (payload_text run_id seq) = 53"
  show "seq < 10 ^ 12"
  proof (rule ccontr)
    assume "\<not> seq < 10 ^ 12"
    then have "12 < length (show_nat seq)"
      unfolding show_nat_def by (intro length_to_base_lower) simp_all
    then have "53 < length (payload_text run_id seq)" by (simp add: payload_text_def)
    with len show False by simp
  qed
qed (rule payload_length)

lemma heed_make_event_eq:
  "heed_make_event run_id seq = (if seq < 10 ^ 12 then Some (good_event run_id seq) else None)"
  unfolding heed_make_event_def to_byte_array_def payload_length_iff by (simp add: good_event_def)

lemma heed_event_stream_None:
  assumes "10 ^ 12 < n"
  shows "heed_event_stream run_id n = None"
proof -
  have none: "those xs = None" if "None \<in> set xs" for xs :: "event option list"
    using that by (induction xs) (auto split: option.splits)
  have "heed_make_event run_id (10 ^ 12) = None" by (simp add: heed_make_event_eq)
  with assms have "None \<in> set (map (heed_make_event run_id) [0..<n])"
    by (simp add: image_iff) (metis atLeastLessThan_iff zero_le)
  from none [OF this] show ?thesis by (simp add: heed_event_stream_def)
qed

text \<open>C24: The fixed-size events are well typed: the stream of \<open>n\<close> events is made without a panic exactly for up to
  10^12 of them, and then every payload fills its 53 bytes, every score is below 100,000, and no two events
  share a key.\<close>

theorem event_stream_typed:
  "(case heed_event_stream run_id n of
      None \<Rightarrow> 10 ^ 12 < n
    | Some es \<Rightarrow> n \<le> 10 ^ 12 \<and> length es = n \<and>
        list_all (\<lambda>ev. length (ev_payload ev) = 53 \<and> ev_score ev < 100000) es \<and>
        distinct (map (heed_record_key run_id) [0..<length es])) \<and>
   redb_event_stream run_id n = heed_event_stream run_id n"
proof (cases "n \<le> 10 ^ 12")
  case True
  have "word_of_nat (i mod 100000) < (100000 :: u64)" for i
  proof -
    have "i mod 100000 < 100000" by simp
    moreover from this have "unat (word_of_nat (i mod 100000) :: u64) = i mod 100000"
      by (simp add: unsigned_of_nat take_bit_nat_eq_self)
    ultimately show ?thesis by (simp add: word_less_nat_alt)
  qed
  then have "list_all (\<lambda>ev. length (ev_payload ev) = 53 \<and> ev_score ev < 100000) (map (good_event run_id) [0..<n])"
    using True by (auto simp: list_all_iff good_event_def payload_length)
  moreover have "distinct (map (heed_record_key run_id) [0..<n])"
    using True by (auto simp: distinct_map inj_on_def record_key_inj)
  ultimately show ?thesis using True by (simp add: heed_event_stream_Some redb_same)
next
  case False
  then show ?thesis by (simp add: heed_event_stream_None redb_same)
qed

end
