(* ===== verification/Demoscene.thy ===== *)
theory Demoscene
  imports TelegramGateway Benchmarks
begin

text \<open>
  The Telegram demo bot, \<open>src/src/logic/telegram_demoscene.rs\<close>: its commands, its inline
  menu and the callbacks of its buttons, and the jobs that answer them, over an abstract
  Telegram: \<open>api_call\<close> answers a request with a message id or an error and changes the world
  \<open>'s\<close>, \<open>api_sleep\<close> waits. Parsing a command is \<open>teloxide\<close>'s derived \<open>Cmd::parse\<close>, an
  argument; the benchmarks and the chart animation are the record \<open>services\<close>. File contents
  are named, not copied (\<open>src/src/resources.rs\<close>).
\<close>

section \<open>Requests\<close>

datatype resource = Frame nat | ResultZip | DemoAudio | DemoVoice | DemoVideo | DemoSticker
  | BulletinLow nat | BulletinNeutral nat | BulletinHi nat

record embedded_media =
  em_file_name :: rstr
  em_mime_type :: rstr
  em_bytes :: resource

definition demo_audio :: embedded_media where
  "demo_audio = \<lparr>em_file_name = ''demo_audio.mp3'', em_mime_type = ''audio/mpeg'', em_bytes = DemoAudio\<rparr>"

definition demo_voice :: embedded_media where
  "demo_voice = \<lparr>em_file_name = ''demo_voice.ogg'', em_mime_type = ''audio/ogg'', em_bytes = DemoVoice\<rparr>"

definition demo_video :: embedded_media where
  "demo_video = \<lparr>em_file_name = ''bot_ogre_robot.mp4'', em_mime_type = ''video/mp4'', em_bytes = DemoVideo\<rparr>"

definition demo_sticker :: embedded_media where
  "demo_sticker = \<lparr>em_file_name = ''demo_sticker.webp'', em_mime_type = ''image/webp'', em_bytes = DemoSticker\<rparr>"

text \<open>The lengths of the three bulletin lists.\<close>

definition bulletin_sets :: nat where
  "bulletin_sets = 3"

type_synonym chat_id = int
type_synonym input_file = "resource \<times> rstr"

datatype media = UploadPhoto input_file | DocumentFile input_file | AudioFile input_file
  | VoiceFile input_file | VideoFile input_file | StickerFile input_file | PhotoFile rstr

datatype button = Callback (button_text: rstr) (button_data: rstr)

datatype bot_call =
    SendMessage chat_id rstr bool "button list list"
  | EditMessageText chat_id int rstr
  | SendMedia chat_id media rstr
  | EditMessageMedia chat_id int media rstr
  | EditMessageCaption chat_id int rstr
  | EditReplyMarkup chat_id int
  | PinChatMessage chat_id int
  | SetMessageReaction chat_id int rstr
  | AnswerCallbackQuery rstr
  | SetMyCommands "(rstr \<times> rstr) list"
  | SetChatMenuButton

fun call_chat :: "bot_call \<Rightarrow> chat_id option" where
  "call_chat (SendMessage c _ _ _) = Some c"
| "call_chat (EditMessageText c _ _) = Some c"
| "call_chat (SendMedia c _ _) = Some c"
| "call_chat (EditMessageMedia c _ _ _) = Some c"
| "call_chat (EditMessageCaption c _ _) = Some c"
| "call_chat (EditReplyMarkup c _) = Some c"
| "call_chat (PinChatMessage c _) = Some c"
| "call_chat (SetMessageReaction c _ _) = Some c"
| "call_chat (AnswerCallbackQuery _) = None"
| "call_chat (SetMyCommands _) = None"
| "call_chat SetChatMenuButton = None"

record 's bot_api =
  api_call :: "bot_call \<Rightarrow> (rstr, 's, int) job"
  api_sleep :: "nat \<Rightarrow> 's \<Rightarrow> 's"

definition pause :: "'s bot_api \<Rightarrow> nat \<Rightarrow> (rstr, 's, unit) job" where
  "pause tg ms s = (Inr (), api_sleep tg ms s)"

definition send_text :: "'s bot_api \<Rightarrow> chat_id \<Rightarrow> rstr \<Rightarrow> (rstr, 's, int) job" where
  "send_text tg chat t = api_call tg (SendMessage chat t False [])"

definition forget :: "('e, 's, 'a) job \<Rightarrow> ('e, 's, unit) job" where
  "forget j = job_bind j (\<lambda>_. job_return ())"

definition fail_with :: "rstr \<Rightarrow> (rstr, 's, 'a) job \<Rightarrow> (rstr, 's, 'a) job" where
  "fail_with context = job_map_err (\<lambda>err. context @ '' failed: '' @ err)"

section \<open>Commands and callbacks\<close>

datatype cmd = Help | Start | ChatIdCmd | PinCmd | Graphical | Menu | RunCmd | RenderCmd | React
  | AdditionalMedia | SqliteBenchmark | RedbBenchmark | HeedBenchmark | FollowAsset | BroadcastCmd

definition cb_run :: rstr where "cb_run = ''mm:run''"
definition cb_render :: rstr where "cb_render = ''mm:render''"
definition cb_additional_media :: rstr where "cb_additional_media = ''mm:additionalmedia''"
definition cb_chat_id :: rstr where "cb_chat_id = ''mm:chatid''"
definition cb_follow_asset :: rstr where "cb_follow_asset = ''mm:followasset''"
definition cb_sqlite_benchmark :: rstr where "cb_sqlite_benchmark = ''mm:sqlitebenchmark''"
definition cb_redb_benchmark :: rstr where "cb_redb_benchmark = ''mm:redbbenchmark''"
definition cb_heed_benchmark :: rstr where "cb_heed_benchmark = ''mm:heedbenchmark''"
definition cb_broadcast :: rstr where "cb_broadcast = ''mm:broadcast''"
definition cb_settings :: rstr where "cb_settings = ''mm:settings''"
definition cb_close :: rstr where "cb_close = ''mm:close''"

lemmas callbacks = cb_run_def cb_render_def cb_additional_media_def cb_chat_id_def cb_follow_asset_def
  cb_sqlite_benchmark_def cb_redb_benchmark_def cb_heed_benchmark_def cb_broadcast_def cb_settings_def cb_close_def

datatype callback_arm = ArmRun | ArmRender | ArmMedia | ArmChatId | ArmFollow | ArmSqlite | ArmRedb
  | ArmHeed | ArmBroadcast | ArmClose | ArmUnknown

text \<open>The arms of \<open>match callback_data\<close>.\<close>

definition callback_arm :: "rstr \<Rightarrow> callback_arm" where
  "callback_arm d =
     (if d = cb_run then ArmRun
      else if d = cb_render then ArmRender
      else if d = cb_additional_media then ArmMedia
      else if d = cb_chat_id then ArmChatId
      else if d = cb_follow_asset then ArmFollow
      else if d = cb_sqlite_benchmark then ArmSqlite
      else if d = cb_redb_benchmark then ArmRedb
      else if d = cb_heed_benchmark then ArmHeed
      else if d = cb_broadcast then ArmBroadcast
      else if d = cb_close then ArmClose
      else ArmUnknown)"

definition main_menu :: "button list list" where
  "main_menu =
     [[Callback ([CHR 0xF0, CHR 0x9F, CHR 0x92, CHR 0xA9, CHR 0x20] @ ''Show Your Chat ID'') cb_chat_id],
      [Callback ([CHR 0xF0, CHR 0x9F, CHR 0x93, CHR 0x88, CHR 0x20] @ ''Live Trade Simulation'') cb_follow_asset, Callback ([CHR 0xF0, CHR 0x9F, CHR 0x8E, CHR 0x89, CHR 0x20] @ ''Broadcast demo'') cb_broadcast],
      [Callback ([CHR 0xE2, CHR 0x9C, CHR 0x8F, CHR 0xEF, CHR 0xB8, CHR 0x8F, CHR 0x20] @ ''Edit text'') cb_run, Callback ([CHR 0xF0, CHR 0x9F, CHR 0x96, CHR 0xBC, CHR 0xEF, CHR 0xB8, CHR 0x8F, CHR 0x20] @ ''Edit image'') cb_render],
      [Callback ([CHR 0xF0, CHR 0x9F, CHR 0x8E, CHR 0x9E, CHR 0xEF, CHR 0xB8, CHR 0x8F, CHR 0x20] @ ''Additional Media'') cb_additional_media, Callback ([CHR 0xF0, CHR 0x9F, CHR 0xA7, CHR 0xA0, CHR 0x20] @ ''Heed Benchmarks'') cb_heed_benchmark],
      [Callback ([CHR 0xF0, CHR 0x9F, CHR 0xAA, CHR 0xB6, CHR 0x20] @ ''SQLite Benchmarks'') cb_sqlite_benchmark, Callback ([CHR 0xF0, CHR 0x9F, CHR 0xA6, CHR 0x80, CHR 0x20] @ ''ReDB Benchmarks'') cb_redb_benchmark],
      [Callback ([CHR 0xE2, CHR 0x9A, CHR 0x99, CHR 0xEF, CHR 0xB8, CHR 0x8F, CHR 0x20] @ ''Settings'') cb_settings, Callback ([CHR 0xE2, CHR 0x9D, CHR 0x8C, CHR 0x20] @ ''Close'') cb_close]]"

section \<open>Jobs\<close>

definition react_to_message :: "'s bot_api \<Rightarrow> chat_id \<Rightarrow> int \<Rightarrow> (rstr, 's, unit) job" where
  "react_to_message tg chat mid =
     forget (fail_with (''reacting to Telegram message '' @ show_int mid)
       (api_call tg (SetMessageReaction chat mid [CHR 0xF0, CHR 0x9F, CHR 0x8E, CHR 0x89])))"

definition working :: "nat \<Rightarrow> rstr" where
  "working p = ''Working'' @ [CHR 0xE2, CHR 0x80, CHR 0xA6, CHR 0x20] @ show_nat p @ ''%''"

definition run_long_job :: "'s bot_api \<Rightarrow> chat_id \<Rightarrow> (rstr, 's, unit) job" where
  "run_long_job tg chat =
     job_bind (send_text tg chat (working 0)) (\<lambda>m.
     job_bind
       (job_iter (\<lambda>p m. job_bind (pause tg 900) (\<lambda>_. api_call tg (EditMessageText chat m (working p))))
         [5, 15, 35, 60, 85, 100] m) (\<lambda>m.
     job_bind (api_call tg (EditMessageText chat m ([CHR 0xE2, CHR 0x9C, CHR 0x85] @ '' Done. See the file bellow.''))) (\<lambda>_.
     forget (fail_with ''`run_long_job`''
       (api_call tg (SendMedia chat (DocumentFile (ResultZip, ''result.zip'')) (''Here'' @ [CHR 0xE2, CHR 0x80, CHR 0x99] @ ''s your result.'')))))))"

definition render_swap :: "'s bot_api \<Rightarrow> chat_id \<Rightarrow> (rstr, 's, unit) job" where
  "render_swap tg chat =
     job_bind (api_call tg (SendMedia chat (UploadPhoto (Frame 0, ''frame0.png'')) ''Rendering 0%'')) (\<lambda>m.
     job_bind
       (job_iter (\<lambda>(f, cap, name) _.
          job_bind (pause tg 900) (\<lambda>_.
          forget (api_call tg (EditMessageMedia chat m (UploadPhoto (Frame f, name)) (''Rendering '' @ cap)))))
         [(1, ''25%'', ''frame1.png''), (2, ''70%'', ''frame2.png''), (3, ''99%'', ''frame3.png'')] ()) (\<lambda>_.
     forget (fail_with ''`render_swap`''
       (api_call tg (EditMessageCaption chat m ([CHR 0xE2, CHR 0x9C, CHR 0x85] @ '' Render complete.''))))))"

definition as_input_file :: "embedded_media \<Rightarrow> input_file" where
  "as_input_file m = (em_bytes m, em_file_name m)"

definition additional_media :: "'s bot_api \<Rightarrow> chat_id \<Rightarrow> (rstr, 's, unit) job" where
  "additional_media tg chat =
     job_bind (api_call tg (SendMedia chat (AudioFile (as_input_file demo_audio)) ''Embedded MP3 audio'')) (\<lambda>_.
     job_bind (api_call tg (SendMedia chat (VoiceFile (as_input_file demo_voice)) ''Embedded OGG/Opus voice message'')) (\<lambda>_.
     job_bind (api_call tg (SendMedia chat (VideoFile (as_input_file demo_video)) ''Embedded h264 MP4 video'')) (\<lambda>_.
     forget (fail_with ''`additional_media`''
       (api_call tg (SendMedia chat (StickerFile (as_input_file demo_sticker)) []))))))"

text \<open>
  The benchmarks report by editing one message; the shared cell holds its latest id. A
  benchmark is a job over that cell and the bot's world.
\<close>

type_synonym 's benchmark = "(progress \<Rightarrow> (rstr, 's \<times> int, unit) job) \<Rightarrow> (rstr, 's \<times> int, unit) job"

definition edit_report :: "'s bot_api \<Rightarrow> chat_id \<Rightarrow> (progress \<Rightarrow> rstr) \<Rightarrow> progress \<Rightarrow> (rstr, 's \<times> int, unit) job" where
  "edit_report tg chat show_progress p w =
     (case api_call tg (EditMessageText chat (snd w) (show_progress p)) (fst w) of
        (Inl e, s) \<Rightarrow> (Inl e, (s, snd w))
      | (Inr m, s) \<Rightarrow> (Inr (), (s, m)))"

definition run_with_message :: "'s benchmark \<Rightarrow> (progress \<Rightarrow> (rstr, 's \<times> int, unit) job) \<Rightarrow> int \<Rightarrow> (rstr, 's, unit) job" where
  "run_with_message bench report m s = (case bench report (s, m) of (r, (s', _)) \<Rightarrow> (r, s'))"

record 's services =
  sv_sqlite :: "'s benchmark"
  sv_redb :: "'s benchmark"
  sv_heed :: "'s benchmark"
  sv_plot :: "'s bot_api \<Rightarrow> chat_id \<Rightarrow> (rstr, 's, unit) job"
  sv_progress_text :: "progress \<Rightarrow> rstr"
  sv_analysis :: rstr
  sv_random_f64 :: f64
  sv_random_index :: "nat \<Rightarrow> nat"

definition sqlite_benchmark :: "'s services \<Rightarrow> 's bot_api \<Rightarrow> chat_id \<Rightarrow> (rstr, 's, unit) job" where
  "sqlite_benchmark sv tg chat =
     job_bind (send_text tg chat ''Starting SQLite Benchmark...'') (\<lambda>m.
     fail_with ''`sqlitebenchmark`'' (run_with_message (sv_sqlite sv) (edit_report tg chat (sv_progress_text sv)) m))"

definition redb_benchmark :: "'s services \<Rightarrow> 's bot_api \<Rightarrow> chat_id \<Rightarrow> (rstr, 's, unit) job" where
  "redb_benchmark sv tg chat =
     job_bind (send_text tg chat ''Starting ReDB Benchmark...'') (\<lambda>m.
     fail_with ''`redbbenchmark`'' (run_with_message (sv_redb sv) (edit_report tg chat (sv_progress_text sv)) m))"

definition heed_benchmark :: "'s services \<Rightarrow> 's bot_api \<Rightarrow> chat_id \<Rightarrow> (rstr, 's, unit) job" where
  "heed_benchmark sv tg chat =
     job_bind (send_text tg chat ''Starting Heed Benchmark...'') (\<lambda>m.
     fail_with ''`heedbenchmark`'' (run_with_message (sv_heed sv) (edit_report tg chat (sv_progress_text sv)) m))"

definition follow_asset :: "'s services \<Rightarrow> 's bot_api \<Rightarrow> chat_id \<Rightarrow> (rstr, 's, unit) job" where
  "follow_asset sv tg chat = fail_with ''`follow-asset` demo'' (sv_plot sv tg chat)"

text \<open>\<open>replace("<br>", "")\<close>: the occurrences from left to right.\<close>

fun remove_br :: "rstr \<Rightarrow> rstr" where
  "remove_br [] = []"
| "remove_br (c # cs) =
     (if prefix ''<br>'' (c # cs) then remove_br (drop 4 (c # cs)) else c # remove_br cs)"

definition choose_bulletin :: "f64 \<Rightarrow> nat \<Rightarrow> resource" where
  "choose_bulletin x i =
     (if f_less x (f_div (of_int_f64 1) (of_int_f64 3)) then BulletinLow i
      else if f_less x (f_div (of_int_f64 2) (of_int_f64 3)) then BulletinNeutral i
      else BulletinHi i)"

definition broadcast :: "'s services \<Rightarrow> 's bot_api \<Rightarrow> chat_id \<Rightarrow> (rstr, 's, unit) job" where
  "broadcast sv tg chat =
     job_bind (api_call tg (SendMessage chat (remove_br (sv_analysis sv)) True [])) (\<lambda>_.
     (let bulletin = choose_bulletin (sv_random_f64 sv) (sv_random_index sv bulletin_sets) in
     forget (fail_with ''`broadcast` demo''
       (api_call tg (SendMedia chat (VideoFile (bulletin, ''OgreRobot_yesterday_review.mp4'')) ''Expectations for the day'')))))"

section \<open>The dialog processor\<close>

definition chat_id_text :: "rstr \<Rightarrow> chat_id \<Rightarrow> rstr" where
  "chat_id_text icon chat =
     ''Your <u>UserId</u>/<u>ChatId</u> is '' @ icon @ ''<b>'' @ show_int chat @
     ''</b>'' @ [CHR 0x0A] @ ''It can be used to send you <i>daily messages</i>.'' @ [CHR 0x0A] @ ''Share wisely...''"

definition mt_job :: "'s bot_api \<Rightarrow> bot_call \<Rightarrow> (rstr, 's, unit) job" where
  "mt_job tg c =
     forget (job_map_err (\<lambda>err. sending_prefix @ [CHR 0x27] @ ''{payload}'' @ [CHR 0x27] @ '': '' @ err) (api_call tg c))"

definition mts_job :: "(rstr, 's, unit) job \<Rightarrow> (rstr, 's, unit) job" where
  "mts_job = job_map_err (\<lambda>err. ''Telegram Gateway: error processing or sending MTs: '' @ err)"

definition process_command ::
  "'s services \<Rightarrow> rstr \<Rightarrow> 's bot_api \<Rightarrow> chat_id \<Rightarrow> message \<Rightarrow> cmd \<Rightarrow> (rstr, 's, unit) job" where
  "process_command sv descriptions tg chat msg c =
     (case c of
        Start \<Rightarrow> mt_job tg (SendMessage chat (''Welcome to the '' @ [CHR 0xF0, CHR 0x9F, CHR 0xA4, CHR 0x96] @ '' <b>OgreRobot's Telegram Demoscene</b>!'' @ [CHR 0x0A] @
          ''Pick an option:'' @ [CHR 0x0A] @ descriptions) True [])
      | Help \<Rightarrow> mt_job tg (SendMessage chat descriptions False [])
      | ChatIdCmd \<Rightarrow> mt_job tg (SendMessage chat (chat_id_text [CHR 0xF0, CHR 0x9F, CHR 0xAA, CHR 0xAA, CHR 0x20] chat) True [])
      | RunCmd \<Rightarrow> mts_job (run_long_job tg chat)
      | RenderCmd \<Rightarrow> mts_job (render_swap tg chat)
      | React \<Rightarrow> mts_job (react_to_message tg chat (msg_id msg))
      | AdditionalMedia \<Rightarrow> mts_job (additional_media tg chat)
      | Graphical \<Rightarrow> mt_job tg (SendMessage chat ''Choose:'' False main_menu)
      | Menu \<Rightarrow> mt_job tg (SendMessage chat ''Choose:'' False main_menu)
      | PinCmd \<Rightarrow>
          (case reply_to msg of
             Some reply \<Rightarrow> mt_job tg (PinChatMessage chat reply)
           | None \<Rightarrow> mt_job tg (SendMessage chat ''Reply to a textual message, then type `/pin`'' False main_menu))
      | SqliteBenchmark \<Rightarrow> mts_job (sqlite_benchmark sv tg chat)
      | RedbBenchmark \<Rightarrow> mts_job (redb_benchmark sv tg chat)
      | HeedBenchmark \<Rightarrow> mts_job (heed_benchmark sv tg chat)
      | FollowAsset \<Rightarrow> mts_job (follow_asset sv tg chat)
      | BroadcastCmd \<Rightarrow> mts_job (broadcast sv tg chat))"

definition process_callback ::
  "'s services \<Rightarrow> 's bot_api \<Rightarrow> chat_id \<Rightarrow> callback_query \<Rightarrow> (rstr, 's, unit) job" where
  "process_callback sv tg chat q =
     (let callback_data = unwrap_or_default (cq_data q);
          mid = (case Option.bind (cq_message q) regular_message of None \<Rightarrow> 0 | Some m \<Rightarrow> msg_id m)
      in mts_job
        (job_bind
          (case callback_arm callback_data of
             ArmRun \<Rightarrow> run_long_job tg chat
           | ArmRender \<Rightarrow> render_swap tg chat
           | ArmMedia \<Rightarrow> additional_media tg chat
           | ArmChatId \<Rightarrow> forget (fail_with ''`chat_id`'' (api_call tg (SendMessage chat (chat_id_text [] chat) True [])))
           | ArmFollow \<Rightarrow> follow_asset sv tg chat
           | ArmSqlite \<Rightarrow> sqlite_benchmark sv tg chat
           | ArmRedb \<Rightarrow> redb_benchmark sv tg chat
           | ArmHeed \<Rightarrow> heed_benchmark sv tg chat
           | ArmBroadcast \<Rightarrow> broadcast sv tg chat
           | ArmClose \<Rightarrow> forget (api_call tg (EditReplyMarkup chat mid))
           | ArmUnknown \<Rightarrow> forget (send_text tg chat (''BUG! Unknown callback query '' @ [CHR 0x27] @ callback_data @ [CHR 0x27])))
          (\<lambda>_. forget (job_map_err (\<lambda>err. ''Updating the callback's spinner failed: '' @ err)
                 (api_call tg (AnswerCallbackQuery (cq_id q)))))))"

text \<open>\<open>ChatId(user.id.0 as i64)\<close>\<close>

definition chat_of_user :: "telegram_user \<Rightarrow> chat_id" where
  "chat_of_user u = sint (tu_id u)"

definition process_mo ::
  "'s services \<Rightarrow> (rstr \<Rightarrow> rstr \<Rightarrow> cmd option) \<Rightarrow> rstr \<Rightarrow> 's bot_api \<Rightarrow> (telegram_user, telegram_mo) mo \<Rightarrow> (rstr, 's, unit) job" where
  "process_mo sv parse_cmd descriptions tg m =
     (let chat = chat_of_user (inner (sender m))
      in case payload m of
           Message msg \<Rightarrow>
             (case msg_text msg of
                Some text \<Rightarrow>
                  (case parse_cmd text ''telegram_demoscene'' of
                     Some c \<Rightarrow> process_command sv descriptions tg chat msg c
                   | None \<Rightarrow> mt_job tg (SendMessage chat ''Unknown command. Try /help'' False []))
              | None \<Rightarrow> mt_job tg (SendMessage chat ''Try sending the text /help'' False []))
         | CallbackQuery q \<Rightarrow> process_callback sv tg chat q)"

text \<open>\<open>process\<close> maps the stream: one job per message.\<close>

definition process_stream ::
  "'s services \<Rightarrow> (rstr \<Rightarrow> rstr \<Rightarrow> cmd option) \<Rightarrow> rstr \<Rightarrow> 's bot_api \<Rightarrow>
   (telegram_user, telegram_mo) mo list \<Rightarrow> (rstr, 's, unit) job list" where
  "process_stream sv parse_cmd descriptions tg = map (process_mo sv parse_cmd descriptions tg)"

definition register_native_command_menu :: "'s bot_api \<Rightarrow> (rstr \<times> rstr) list \<Rightarrow> (rstr, 's, unit) job" where
  "register_native_command_menu tg bot_commands =
     job_bind (fail_with ''registering Telegram native commands''
       (api_call tg (SetMyCommands (map (\<lambda>(c, d). (dropWhile (\<lambda>x. x = CHR ''/'') c, d)) bot_commands)))) (\<lambda>_.
     forget (fail_with ''selecting Telegram's command-list menu button'' (api_call tg SetChatMenuButton)))"

section \<open>Where a job's requests go\<close>

text \<open>The same Telegram, with every request it gets written down.\<close>

definition recording :: "'s bot_api \<Rightarrow> (bot_call list \<times> 's) bot_api" where
  "recording tg =
     \<lparr>api_call = (\<lambda>c (tr, s). case api_call tg c s of (r, s') \<Rightarrow> (r, (tr @ [c], s'))),
      api_sleep = (\<lambda>ms (tr, s). (tr, api_sleep tg ms s))\<rparr>"

definition stays_in :: "chat_id \<Rightarrow> bot_call list \<times> 's \<Rightarrow> bool" where
  "stays_in chat w \<longleftrightarrow> list_all (\<lambda>c. call_chat c = None \<or> call_chat c = Some chat) (fst w)"

text \<open>A benchmark acts on the bot's world only through its reports.\<close>

definition reports_only :: "'s benchmark \<Rightarrow> bool" where
  "reports_only bench \<longleftrightarrow> (\<forall>P report. (\<forall>p. keeps P (report p)) \<longrightarrow> keeps P (bench report))"

definition services_stay :: "(bot_call list \<times> 's) services \<Rightarrow> 's bot_api \<Rightarrow> bool" where
  "services_stay sv tg \<longleftrightarrow>
     reports_only (sv_sqlite sv) \<and> reports_only (sv_redb sv) \<and> reports_only (sv_heed sv) \<and>
     (\<forall>chat. keeps (stays_in chat) (sv_plot sv (recording tg) chat))"

lemma stays_in_call [simp]:
  "call_chat c = None \<or> call_chat c = Some chat \<Longrightarrow> keeps (stays_in chat) (api_call (recording tg) c)"
  by (auto simp: keeps_def recording_def stays_in_def split: prod.splits)

lemma stays_in_pause [simp]: "keeps (stays_in chat) (pause (recording tg) ms)"
  by (auto simp: keeps_def pause_def recording_def stays_in_def split: prod.splits)

lemma keeps_forget [intro]: "keeps P j \<Longrightarrow> keeps P (forget j)"
  unfolding forget_def by (intro keeps_bind keeps_return)

lemma keeps_fail_with [intro]: "keeps P j \<Longrightarrow> keeps P (fail_with c j)"
  unfolding fail_with_def by (rule keeps_map_err)

lemmas keeps_jobs = keeps_bind keeps_iter keeps_forget keeps_fail_with keeps_map_err keeps_return stays_in_pause

lemma keeps_edit_report: "keeps (\<lambda>w. stays_in chat (fst w)) (edit_report (recording tg) chat f p)"
proof -
  have "keeps (stays_in chat) (api_call (recording tg) (EditMessageText chat m (f p)))" for m
    by simp
  then have call: "stays_in chat (snd (api_call (recording tg) (EditMessageText chat m (f p)) s))" if "stays_in chat s" for m s
    using that by (rule keepsD)
  show ?thesis
    by (auto simp: keeps_def edit_report_def case_prod_beta split: sum.splits intro: call)
qed

lemma keeps_run_with_message:
  assumes "reports_only bench"
  shows "keeps (stays_in chat) (run_with_message bench (edit_report (recording tg) chat f) m)"
proof -
  have "keeps (\<lambda>w. stays_in chat (fst w)) (bench (edit_report (recording tg) chat f))"
    using assms keeps_edit_report unfolding reports_only_def by blast
  then show ?thesis
    by (simp add: keeps_def run_with_message_def case_prod_beta)
qed

lemma benchmarks_stay:
  assumes "services_stay sv tg"
  shows "keeps (stays_in chat) (sqlite_benchmark sv (recording tg) chat)"
    "keeps (stays_in chat) (redb_benchmark sv (recording tg) chat)"
    "keeps (stays_in chat) (heed_benchmark sv (recording tg) chat)"
    "keeps (stays_in chat) (follow_asset sv (recording tg) chat)"
  using assms
  by (auto simp: services_stay_def sqlite_benchmark_def redb_benchmark_def heed_benchmark_def follow_asset_def send_text_def
      intro!: keeps_jobs keeps_run_with_message)

lemma jobs_stay:
  "keeps (stays_in chat) (react_to_message (recording tg) chat mid)"
  "keeps (stays_in chat) (run_long_job (recording tg) chat)"
  "keeps (stays_in chat) (render_swap (recording tg) chat)"
  "keeps (stays_in chat) (additional_media (recording tg) chat)"
  "keeps (stays_in chat) (broadcast sv (recording tg) chat)"
  by (auto simp: react_to_message_def run_long_job_def render_swap_def additional_media_def broadcast_def send_text_def
      Let_def intro!: keeps_jobs)

lemma mt_job_stays: "call_chat c = Some chat \<Longrightarrow> keeps (stays_in chat) (mt_job (recording tg) c)"
  by (auto simp: mt_job_def intro!: keeps_jobs)

lemma process_command_stays:
  "services_stay sv tg \<Longrightarrow> keeps (stays_in chat) (process_command sv ds (recording tg) chat msg c)"
  by (auto simp: process_command_def mts_job_def intro!: mt_job_stays keeps_map_err jobs_stay benchmarks_stay split: cmd.splits option.splits)

lemma process_callback_stays:
  "services_stay sv tg \<Longrightarrow> keeps (stays_in chat) (process_callback sv (recording tg) chat q)"
  by (auto simp: process_callback_def mts_job_def Let_def send_text_def intro!: keeps_jobs jobs_stay benchmarks_stay
      split: callback_arm.splits)

lemma process_mo_stays:
  "services_stay sv tg \<Longrightarrow>
   keeps (stays_in (chat_of_user (inner (sender m)))) (process_mo sv parse_cmd ds (recording tg) m)"
  by (auto simp: process_mo_def Let_def intro!: process_command_stays process_callback_stays mt_job_stays
      split: telegram_mo.splits option.splits)

text \<open>The benchmarks of \<open>Benchmarks\<close>, as the bot starts them, are such benchmarks.\<close>

definition as_benchmark ::
  "('e \<times> 'r \<Rightarrow> (bench_error, 'a) result \<times> ('e \<times> 'r)) \<Rightarrow> 'e \<Rightarrow> (bench_error \<Rightarrow> rstr) \<Rightarrow> (rstr, 'r, unit) job" where
  "as_benchmark run e0 show_error r =
     (case run (e0, r) of (res, (_, r')) \<Rightarrow> (map_err show_error (bind_res res (\<lambda>_. Inr ())), r'))"

definition sqlite_ui :: "('e, 's \<times> int) bench_ops \<Rightarrow> ('e, 't, sqlite_event, 'c) engine_ops \<Rightarrow> (bench_error, 128 word) result \<Rightarrow>
   (nat \<Rightarrow> duration) \<Rightarrow> 'e \<Rightarrow> (bench_error \<Rightarrow> rstr) \<Rightarrow> 's benchmark" where
  "sqlite_ui ops eng clock elapsed e0 show_error report =
     as_benchmark (sqlite_run_benchmark (ops\<lparr>bo_report := report\<rparr>) eng sqlite_ui_config clock elapsed) e0 show_error"

definition redb_ui :: "('e, 's \<times> int) bench_ops \<Rightarrow> ('e, 't, u64 \<times> event, 'c) engine_ops \<Rightarrow> (bench_error, 128 word) result \<Rightarrow>
   (nat \<Rightarrow> duration) \<Rightarrow> 'e \<Rightarrow> (bench_error \<Rightarrow> rstr) \<Rightarrow> 's benchmark" where
  "redb_ui ops eng clock elapsed e0 show_error report =
     as_benchmark (redb_run_benchmark (ops\<lparr>bo_report := report\<rparr>) eng redb_ui_config clock elapsed) e0 show_error"

definition heed_ui :: "('e, 's \<times> int) bench_ops \<Rightarrow> ('e, 't, u64 \<times> event, 'c) engine_ops \<Rightarrow> (bench_error, 128 word) result \<Rightarrow>
   (nat \<Rightarrow> duration) \<Rightarrow> 'e \<Rightarrow> (bench_error \<Rightarrow> rstr) \<Rightarrow> 's benchmark" where
  "heed_ui ops eng clock elapsed e0 show_error report =
     as_benchmark (heed_run_benchmark (ops\<lparr>bo_report := report\<rparr>) eng heed_ui_config clock elapsed) e0 show_error"

lemma keeps_as_benchmark:
  "keeps (\<lambda>w. P (snd w)) run \<Longrightarrow> keeps P (as_benchmark run e0 show_error)"
  by (auto simp: keeps_def as_benchmark_def case_prod_beta)

lemma ui_reports_only:
  "reports_only (sqlite_ui ops1 eng1 clock elapsed e1 show_error)"
  "reports_only (redb_ui ops2 eng2 clock elapsed e2 show_error)"
  "reports_only (heed_ui ops3 eng3 clock elapsed e3 show_error)"
  unfolding reports_only_def sqlite_ui_def redb_ui_def heed_ui_def
  by (auto intro!: keeps_as_benchmark sqlite_run_keeps redb_run_keeps heed_run_keeps)

section \<open>Properties\<close>

text \<open>C26: Whatever a message asks for and however Telegram answers, every request the dialog
  processor makes for it goes to the chat of the user who sent it (or to no chat at all, when
  it acknowledges a click).\<close>

theorem requests_stay_in_chat:
  assumes "services_stay sv tg"
  shows "list_all (\<lambda>c. call_chat c = None \<or> call_chat c = Some (sint (tu_id (inner (sender m)))))
    (fst (snd (process_mo sv parse_cmd descriptions (recording tg) m ([], s))))"
  using keepsD [OF process_mo_stays [OF assms], of m "([], s)"]
  by (simp add: stays_in_def chat_of_user_def)

text \<open>Of the buttons of the main menu, exactly the Settings button has no arm: a click on it
  is answered as a bug.\<close>

theorem settings_button_unhandled:
  "filter (\<lambda>b. callback_arm (button_data b) = ArmUnknown) (concat main_menu) =
     [Callback ([CHR 0xE2, CHR 0x9A, CHR 0x99, CHR 0xEF, CHR 0xB8, CHR 0x8F, CHR 0x20] @ ''Settings'') cb_settings]"
  by (simp add: main_menu_def callback_arm_def callbacks)

lemma recording_Inr:
  "api_call (recording tg) c w = (Inr m, w') \<longleftrightarrow> api_call tg c (snd w) = (Inr m, snd w') \<and> fst w' = fst w @ [c]"
  by (cases w; cases w') (auto simp: recording_def split: prod.splits)

text \<open>A click is handled successfully only if the last request made for it acknowledges
  that very click and went through; an action that fails leaves the click without its
  acknowledgement.\<close>

theorem click_acknowledged:
  assumes "process_callback sv (recording tg) chat q (tr, s) = (Inr (), (tr', s'))"
  shows "\<exists>before s1 m. tr' = before @ [AnswerCallbackQuery (cq_id q)] \<and>
    api_call tg (AnswerCallbackQuery (cq_id q)) s1 = (Inr m, s')"
  using assms
  unfolding process_callback_def mts_job_def Let_def forget_def job_map_err_Inr job_bind_Inr recording_Inr
  by auto

definition quiet_telegram :: "unit bot_api" where
  "quiet_telegram = \<lparr>api_call = (\<lambda>_ s. (Inr 1, s)), api_sleep = (\<lambda>_ s. s)\<rparr>"

definition idle_services :: "(bot_call list \<times> unit) services" where
  "idle_services =
     \<lparr>sv_sqlite = (\<lambda>_. job_return ()), sv_redb = (\<lambda>_. job_return ()), sv_heed = (\<lambda>_. job_return ()),
      sv_plot = (\<lambda>_ _. job_return ()), sv_progress_text = (\<lambda>_. []), sv_analysis = [], sv_random_f64 = Fin 0,
      sv_random_index = (\<lambda>_. 0)\<rparr>"

lemma idle_services_stay: "services_stay idle_services quiet_telegram"
  by (simp add: services_stay_def idle_services_def reports_only_def)

definition demo_user :: telegram_user where
  "demo_user = \<lparr>tu_id = 97, username = None, first_name = ''Ann'', last_name = None, language_code = None\<rparr>"

definition demo_update :: telegram_mo where
  "demo_update = Message \<lparr>msg_id = 5, msg_from = Some demo_user, chat_kind = PrivateChat, msg_text = Some ''/run'', reply_to = None\<rparr>"

theorem requests_stay_in_chat_witness:
  "list_all (\<lambda>c. call_chat c = None \<or> call_chat c = Some 97)
    (fst (snd (process_mo idle_services (\<lambda>_ _. Some RunCmd) [] (recording quiet_telegram)
       (mo_new 5 (map_user demo_user) (dialog_new 5 Private English) demo_update) ([], ()))))"
  using requests_stay_in_chat [OF idle_services_stay,
      of "mo_new 5 (map_user demo_user) (dialog_new 5 Private English) demo_update" "\<lambda>_ _. Some RunCmd" "[]" "()"]
  by (simp add: demo_user_def)

definition demo_click :: callback_query where
  "demo_click = \<lparr>cq_id = ''77'', cq_from = demo_user, cq_message = None, cq_data = Some cb_close\<rparr>"

lemma demo_click_runs:
  "process_callback idle_services (recording quiet_telegram) 97 demo_click ([], ()) =
     (Inr (), ([EditReplyMarkup 97 0, AnswerCallbackQuery ''77''], ()))"
  by (simp add: process_callback_def demo_click_def callback_arm_def callbacks unwrap_or_default_def mts_job_def
      job_map_err_def forget_def job_bind_def job_return_def quiet_telegram_def recording_def idle_services_def)

theorem click_acknowledged_witness:
  "\<exists>before. [EditReplyMarkup 97 0, AnswerCallbackQuery ''77''] = before @ [AnswerCallbackQuery ''77'']"
  using click_acknowledged [OF demo_click_runs] unfolding demo_click_def callback_query.simps by blast

end
