(* ===== verification/ChartTheme.thy ===== *)
theory ChartTheme
  imports Float64
begin

text \<open>
  The theme of the chart: \<open>src/src/plot/config.rs\<close>, one record per struct. Sizes that are
  \<open>i32\<close> are integers, \<open>u32\<close> sizes 32-bit words (cast to \<open>i32\<close> by \<open>sint\<close>), the PNG
  levels bytes.
\<close>

type_synonym u32 = "32 word"
type_synonym u8 = "8 word"

datatype rgb_color = RGBColor u8 u8 u8
datatype rgba_color = RGBAColor u8 u8 u8 f64

record canvas_theme =
  canvas_width :: u32
  canvas_height :: u32

record typography_theme =
  font_family :: rstr
  title_font_px :: u32
  subtitle_font_px :: u32
  axis_tick_font_px :: u32
  axis_label_font_px :: u32
  movement_label_font_px :: u32
  avg_advance_em :: f64
  line_height_em :: f64

record palette_theme =
  canvas_bg :: rgb_color
  plot_bg :: rgb_color
  axis_color :: rgb_color
  grid_color :: rgba_color
  text_color :: rgb_color
  muted_text :: rgb_color

record layout_theme =
  outer_left_px :: int
  outer_right_px :: int
  outer_top_px :: int
  outer_bottom_px :: int
  title_to_subtitle_gap_px :: int
  subtitle_to_plot_gap_px :: int
  y_tick_label_to_axis_gap_px :: int
  x_axis_to_tick_end_px :: int
  x_tick_to_label_gap_px :: int
  x_labels_to_axis_labels_gap_px :: int
  axis_label_to_canvas_edge_gap_px :: int
  plot_min_inner_top_gap_px :: int
  plot_min_inner_bottom_gap_px :: int
  movement_label_canvas_gap_px :: int
  max_x_tick_labels :: nat
  min_x_tick_label_gap_px :: int

record scale_theme =
  force_px_per_cent :: "int option"
  min_px_per_cent :: int
  max_px_per_cent :: int
  padding_cents :: int

record axis_theme =
  x_label :: rstr
  y_label :: rstr
  axis_stroke_width_px :: u32
  grid_stroke_width_px :: u32
  tick_stroke_width_px :: u32
  x_tick_length_px :: int

record series_theme =
  quote_line :: rgb_color
  quote_width_px :: u32
  point_fill :: rgb_color
  point_outline :: rgb_color
  point_radius_px :: int
  point_outline_extra_radius_px :: int

record movement_theme =
  important_delta_cents :: int
  rise_line :: rgb_color
  fall_line :: rgb_color
  rise_label :: rgb_color
  fall_label :: rgb_color
  line_width_px :: u32
  label_offset_from_segment_px :: int
  label_bg :: "rgba_color option"
  label_bg_padding_x_px :: int
  label_bg_padding_y_px :: int

datatype png_encode_mode = Fast | Balanced | Level u8 | Uncompressed | OxipngRaw u8

definition show_u8 :: "u8 \<Rightarrow> rstr" where
  "show_u8 n = show_nat (unat n)"

fun mode_name :: "png_encode_mode \<Rightarrow> rstr" where
  "mode_name Fast = ''image-fast''"
| "mode_name Balanced = ''image-balanced''"
| "mode_name (Level level) = ''image-level-'' @ show_u8 level"
| "mode_name Uncompressed = ''image-uncompressed''"
| "mode_name (OxipngRaw preset) = ''oxipng-raw-preset-'' @ show_u8 preset"

record theme =
  canvas :: canvas_theme
  typography :: typography_theme
  palette :: palette_theme
  layout_t :: layout_theme
  scale_t :: scale_theme
  axis_t :: axis_theme
  series :: series_theme
  movement :: movement_theme
  png_mode :: png_encode_mode

text \<open>\<open>impl Default for Theme\<close>.\<close>

definition default_layout :: layout_theme where
  "default_layout = \<lparr>
     outer_left_px = 18, outer_right_px = 42, outer_top_px = 32, outer_bottom_px = 18,
     title_to_subtitle_gap_px = 4, subtitle_to_plot_gap_px = 22, y_tick_label_to_axis_gap_px = 18,
     x_axis_to_tick_end_px = 7, x_tick_to_label_gap_px = 7, x_labels_to_axis_labels_gap_px = 18,
     axis_label_to_canvas_edge_gap_px = 2, plot_min_inner_top_gap_px = 12, plot_min_inner_bottom_gap_px = 12,
     movement_label_canvas_gap_px = 4, max_x_tick_labels = 8, min_x_tick_label_gap_px = 38\<rparr>"

definition default_theme :: theme where
  "default_theme = \<lparr>
     canvas = \<lparr>canvas_width = 1280, canvas_height = 720\<rparr>,
     typography = \<lparr>
       font_family = ''sans-serif'', title_font_px = 32, subtitle_font_px = 17, axis_tick_font_px = 17,
       axis_label_font_px = 18, movement_label_font_px = 18,
       avg_advance_em = to_f64 (62 / 100), line_height_em = to_f64 (118 / 100)\<rparr>,
     palette = \<lparr>
       canvas_bg = RGBColor 16 20 30, plot_bg = RGBColor 24 30 44, axis_color = RGBColor 174 185 204,
       grid_color = RGBAColor 210 220 240 (to_f64 (16 / 100)), text_color = RGBColor 238 242 248,
       muted_text = RGBColor 175 184 198\<rparr>,
     layout_t = default_layout,
     scale_t = \<lparr>force_px_per_cent = None, min_px_per_cent = 5, max_px_per_cent = 22, padding_cents = 4\<rparr>,
     axis_t = \<lparr>
       x_label = ''data'', y_label = ''R$ por US$ 1'', axis_stroke_width_px = 2, grid_stroke_width_px = 1,
       tick_stroke_width_px = 1, x_tick_length_px = 7\<rparr>,
     series = \<lparr>
       quote_line = RGBColor 110 168 255, quote_width_px = 3, point_fill = RGBColor 238 242 248,
       point_outline = RGBColor 16 20 30, point_radius_px = 4, point_outline_extra_radius_px = 2\<rparr>,
     movement = \<lparr>
       important_delta_cents = 3, rise_line = RGBColor 70 210 125, fall_line = RGBColor 240 82 82,
       rise_label = RGBColor 70 230 140, fall_label = RGBColor 255 95 95, line_width_px = 8,
       label_offset_from_segment_px = 14, label_bg = None, label_bg_padding_x_px = 8, label_bg_padding_y_px = 5\<rparr>,
     png_mode = Fast\<rparr>"


end
