(* ===== verification/Metrics.thy ===== *)
theory Metrics
  imports ChartTheme Jobs "HOL-Library.AList"
begin

text \<open>
  Measuring text: \<open>src/src/plot/render/metrics.rs\<close>. \<open>FontMetricsCache\<close> is the list of its
  bindings, and measuring is a job on it. A job whose result does not depend on what the
  cache holds, as long as the cache holds right sizes, is \<open>transparent\<close>.
\<close>

datatype text_rotation = NoRotation | Rotate270

record text_box =
  box_width :: int
  box_height :: int

record text_key =
  key_text :: rstr
  key_font_px :: u32
  key_rotation :: text_rotation

type_synonym metrics = "(text_key \<times> text_box) list"
type_synonym ('e, 'a) measuring = "('e, metrics, 'a) job"

section \<open>Sizes\<close>

definition raw_box :: "typography_theme \<Rightarrow> text_key \<Rightarrow> text_box" where
  "raw_box ty key =
     (let raw_width = as_i32 (f_ceil (f_mul (f_mul (usize_f64 (chars_count (key_text key)))
                         (usize_f64 (unat (key_font_px key)))) (avg_advance_em ty)));
          raw_height = as_i32 (f_ceil (f_mul (usize_f64 (unat (key_font_px key))) (line_height_em ty)))
      in case key_rotation key of
           NoRotation \<Rightarrow> \<lparr>box_width = raw_width, box_height = raw_height\<rparr>
         | Rotate270 \<Rightarrow> \<lparr>box_width = raw_height, box_height = raw_width\<rparr>)"

definition measure_text ::
  "rstr \<Rightarrow> u32 \<Rightarrow> text_rotation \<Rightarrow> typography_theme \<Rightarrow> ('e, text_box) measuring" where
  "measure_text s font_px rotation ty cache =
     (let key = \<lparr>key_text = s, key_font_px = font_px, key_rotation = rotation\<rparr> in
      case map_of cache key of
        Some v \<Rightarrow> (Inr v, cache)
      | None \<Rightarrow> let v = raw_box ty key in (Inr v, AList.update key v cache))"

definition metric_cache_len :: "metrics \<Rightarrow> nat" where
  "metric_cache_len cache = length cache"

text \<open>\<open>is_empty\<close>, and \<open>Default\<close>.\<close>

definition metric_cache_is_empty :: "metrics \<Rightarrow> bool" where
  "metric_cache_is_empty cache \<longleftrightarrow> cache = []"

section \<open>Jobs that do not depend on the cache\<close>

definition right_sizes :: "typography_theme \<Rightarrow> metrics \<Rightarrow> bool" where
  "right_sizes ty cache \<longleftrightarrow> (\<forall>key v. map_of cache key = Some v \<longrightarrow> v = raw_box ty key)"

lemma right_sizes_Nil [simp]: "right_sizes ty []"
  by (simp add: right_sizes_def)

text \<open>
  What a user of a memo table relies on: the table's answers are those of a function, and
  asking keeps it so. A job that only looks things up through it gives one result whatever
  the table holds.
\<close>

locale memo_table =
  fixes ask :: "'k \<Rightarrow> 's \<Rightarrow> ('e, 'v) result \<times> 's"
    and answer :: "'k \<Rightarrow> 'v"
    and good :: "'s \<Rightarrow> bool"
  assumes ask_answers: "good s \<Longrightarrow> fst (ask k s) = Inr (answer k)"
    and ask_keeps: "good s \<Longrightarrow> good (snd (ask k s))"
begin

definition pure_as :: "('e, 's, 'a) job \<Rightarrow> ('e, 'a) result \<Rightarrow> bool" where
  "pure_as j r \<longleftrightarrow> (\<forall>s. good s \<longrightarrow> fst (j s) = r \<and> good (snd (j s)))"

lemma pure_asD: "pure_as j r \<Longrightarrow> good s \<Longrightarrow> fst (j s) = r"
  by (simp add: pure_as_def)

lemma pure_as_keeps: "pure_as j r \<Longrightarrow> good s \<Longrightarrow> good (snd (j s))"
  by (simp add: pure_as_def)

lemma pure_ask: "pure_as (ask k) (Inr (answer k))"
  by (simp add: pure_as_def ask_answers ask_keeps)

lemma pure_return: "pure_as (job_return x) (Inr x)"
  by (simp add: pure_as_def job_return_def)

lemma pure_fail: "pure_as (job_fail e) (Inl e)"
  by (simp add: pure_as_def job_fail_def)

lemma pure_bind:
  assumes "pure_as j r" "\<And>x. r = Inr x \<Longrightarrow> pure_as (f x) (g x)"
  shows "pure_as (job_bind j f) (bind_res r g)"
  unfolding pure_as_def
proof (intro allI impI)
  fix s assume "good s"
  with assms(1) have j: "fst (j s) = r" "good (snd (j s))" by (simp_all add: pure_as_def)
  show "fst (job_bind j f s) = bind_res r g \<and> good (snd (job_bind j f s))"
    using j assms(2) by (cases "j s"; cases r) (auto simp: job_bind_def pure_as_def)
qed

lemma pure_if: "pure_as j r \<Longrightarrow> pure_as k q \<Longrightarrow> pure_as (if b then j else k) (if b then r else q)"
  by simp

lemma pure_iter:
  "(\<And>i a. pure_as (f i a) (g i a)) \<Longrightarrow>
   pure_as (job_iter f is a) (foldl (\<lambda>r i. bind_res r (g i)) (Inr a) is)"
proof (induction "is" arbitrary: a)
  case Nil
  then show ?case by (simp add: pure_return)
next
  case (Cons i "is")
  have inl: "foldl (\<lambda>r i. bind_res r (g i)) (Inl e) js = Inl e" for e js
    by (induction js) simp_all
  have "pure_as (job_bind (f i a) (job_iter f is))
      (bind_res (g i a) (\<lambda>b. foldl (\<lambda>r i. bind_res r (g i)) (Inr b) is))"
    by (rule pure_bind) (simp_all add: Cons)
  then show ?case by (cases "g i a") (simp_all add: inl)
qed

lemma pure_map:
  "(\<And>i. i \<in> set is \<Longrightarrow> pure_as (f i) (Inr (g i))) \<Longrightarrow> pure_as (job_map f is) (Inr (map g is))"
proof (induction "is")
  case Nil
  then show ?case by (simp add: pure_return)
next
  case (Cons i "is")
  have "pure_as (job_map f (i # is)) (bind_res (Inr (g i)) (\<lambda>x. bind_res (Inr (map g is)) (\<lambda>xs. Inr (x # xs))))"
    unfolding job_map.simps by (intro pure_bind pure_return Cons) simp_all
  then show ?case by simp
qed

end

definition text_size :: "typography_theme \<Rightarrow> rstr \<Rightarrow> u32 \<Rightarrow> text_rotation \<Rightarrow> text_box" where
  "text_size ty s font_px rotation = raw_box ty \<lparr>key_text = s, key_font_px = font_px, key_rotation = rotation\<rparr>"

lemma text_key_eta [simp]:
  "\<lparr>key_text = key_text k, key_font_px = key_font_px k, key_rotation = key_rotation k\<rparr> = (k :: text_key)"
  by (cases k) simp

interpretation fonts: memo_table
  "\<lambda>key. measure_text (key_text key) (key_font_px key) (key_rotation key) ty" "raw_box ty" "right_sizes ty" for ty
  by unfold_locales
    (auto simp: measure_text_def Let_def right_sizes_def update_conv' split: option.splits)

lemma pure_measure: "fonts.pure_as ty (measure_text s px r ty) (Inr (text_size ty s px r))"
  using fonts.pure_ask [of ty "\<lparr>key_text = s, key_font_px = px, key_rotation = r\<rparr>"] by (simp add: text_size_def)

text \<open>Sizes are never negative and grow at most linearly with the text.\<close>

lemma ceil_scaled:
  assumes "0 \<le> n" "n < 2 ^ 30" "0 \<le> a" "a \<le> 2"
  shows "0 \<le> as_i32 (f_ceil (f_mul (Fin (of_int n)) (Fin a)))"
    and "as_i32 (f_ceil (f_mul (Fin (of_int n)) (Fin a))) \<le> 2 * n"
proof -
  have le: "of_int n * a \<le> of_int (2 * n)"
    using assms mult_left_mono [of a 2 "of_int n"] by simp
  have nn: "0 \<le> of_int n * a" using assms by simp
  from le nn have "\<bar>of_int n * a\<bar> \<le> of_int (2 * n)" by simp
  from to_f64_le [OF this] assms(2) have eq: "f_mul (Fin (of_int n)) (Fin a) = Fin (rnd (of_int n * a))" by simp
  have "0 \<le> rnd (of_int n * a)" using nn by (rule rnd_nonneg)
  moreover have "rnd (of_int n * a) \<le> of_int (2 * n)"
    using rnd_mono [OF le] rnd_of_int [of "2 * n"] assms(1,2) by simp
  ultimately have "0 \<le> \<lceil>rnd (of_int n * a)\<rceil>" "\<lceil>rnd (of_int n * a)\<rceil> \<le> 2 * n"
    by (simp_all add: ceiling_le_iff less_ceiling_iff le_ceiling_iff)
  with eq assms show "0 \<le> as_i32 (f_ceil (f_mul (Fin (of_int n)) (Fin a)))"
    and "as_i32 (f_ceil (f_mul (Fin (of_int n)) (Fin a))) \<le> 2 * n"
    by (auto simp: f_ceil_def as_i32_def)
qed

definition readable :: "typography_theme \<Rightarrow> bool" where
  "readable ty \<longleftrightarrow> (\<exists>a l. avg_advance_em ty = Fin a \<and> line_height_em ty = Fin l \<and> 0 \<le> a \<and> a \<le> 2 \<and> 0 \<le> l \<and> l \<le> 2)"

lemma usize_f64_small: "n < 2 ^ 53 \<Longrightarrow> usize_f64 n = Fin (of_int (int n))"
proof (rule of_int_f64_small)
  assume "n < 2 ^ 53"
  then have "int n < int (2 ^ 53)" by (simp only: of_nat_less_iff)
  then show "\<bar>int n\<bar> \<le> 2 ^ 53" by simp
qed

lemma usize_f64_mul:
  assumes "m < 2 ^ 15" "n < 2 ^ 15"
  shows "f_mul (usize_f64 m) (usize_f64 n) = Fin (of_int (int (m * n)))"
    and "m * n < 2 ^ 30"
proof -
  have "m * n \<le> m * 2 ^ 15" using assms(2) by (intro mult_le_mono) auto
  also have "\<dots> < 2 ^ 15 * 2 ^ 15" using assms(1) by simp
  finally show lt: "m * n < 2 ^ 30" by simp
  then have "int (m * n) < int (2 ^ 30)" by (simp only: of_nat_less_iff)
  then have le: "\<bar>int (m * n)\<bar> \<le> 2 ^ 53" by (simp del: of_nat_mult)
  have "f_mul (usize_f64 m) (usize_f64 n) = of_int_f64 (int (m * n))"
    unfolding usize_f64_small [OF less_le_trans [OF assms(1)], simplified]
      usize_f64_small [OF less_le_trans [OF assms(2)], simplified]
    by (simp only: f_mul.simps of_int_f64_def of_nat_mult of_int_mult of_int_of_nat_eq)
  then show "f_mul (usize_f64 m) (usize_f64 n) = Fin (of_int (int (m * n)))"
    by (simp only: of_int_f64_small [OF le])
qed

text \<open>The width of a text is at most twice its characters times the font size, its height twice the font size.\<close>

lemma text_height:
  assumes "readable ty" "unat px < 2 ^ 15"
  shows "0 \<le> box_height (text_size ty s px NoRotation)"
    and "box_height (text_size ty s px NoRotation) \<le> 2 * int (unat px)"
proof -
  from assms(1) obtain a l where ty: "avg_advance_em ty = Fin a" "line_height_em ty = Fin l"
    and al: "0 \<le> a" "a \<le> 2" "0 \<le> l" "l \<le> 2" by (auto simp: readable_def)
  from assms(2) have "int (unat px) < int (2 ^ 15)" by (simp only: of_nat_less_iff)
  with assms(2) have j: "int (unat px) < 2 ^ 30" "unat px < 2 ^ 53" by simp_all
  note h = ceil_scaled [OF of_nat_0_le_iff j(1) al(3,4)]
  show "0 \<le> box_height (text_size ty s px NoRotation)"
    and "box_height (text_size ty s px NoRotation) \<le> 2 * int (unat px)"
    using h [folded usize_f64_small [OF j(2)]] unfolding text_size_def raw_box_def ty
    by (simp_all only: Let_def text_key.simps text_rotation.case text_box.simps)
qed

lemma text_width:
  assumes "readable ty" "chars_count s < 2 ^ 15" "unat px < 2 ^ 15"
  shows "0 \<le> box_width (text_size ty s px NoRotation)"
    and "box_width (text_size ty s px NoRotation) \<le> 2 * int (chars_count s * unat px)"
proof -
  from assms(1) obtain a l where ty: "avg_advance_em ty = Fin a" "line_height_em ty = Fin l"
    and al: "0 \<le> a" "a \<le> 2" "0 \<le> l" "l \<le> 2" by (auto simp: readable_def)
  note m = usize_f64_mul [OF assms(2,3)]
  from m(2) have i: "int (chars_count s * unat px) < 2 ^ 30"
    by (metis of_nat_less_iff of_nat_numeral of_nat_power)
  note w = ceil_scaled [OF of_nat_0_le_iff i al(1,2)]
  show "0 \<le> box_width (text_size ty s px NoRotation)"
    and "box_width (text_size ty s px NoRotation) \<le> 2 * int (chars_count s * unat px)"
    using w [folded m(1)] unfolding text_size_def raw_box_def ty
    by (simp_all only: Let_def text_key.simps text_rotation.case text_box.simps)
qed

lemma text_size_Rotate270 [simp]:
  "box_width (text_size ty s px Rotate270) = box_height (text_size ty s px NoRotation)"
  "box_height (text_size ty s px Rotate270) = box_width (text_size ty s px NoRotation)"
  by (simp_all add: text_size_def raw_box_def Let_def)

end
