(* ===== verification/Quotes.thy ===== *)
theory Quotes
  imports Float64 "HOL-Library.Product_Lexorder"
begin

text \<open>
  The quotes of the chart and their important moves: \<open>src/src/plot/data.rs\<close> and
  \<open>src/src/plot/moves.rs\<close>. Calendar dates are \<open>chrono\<close>'s: a date is its year, month and
  day with their order; parsing a date and adding days are arguments, and so is the answer
  of the web service.
\<close>

section \<open>Dates\<close>

datatype date = Date (year: int) (month: nat) (day: nat)

instantiation date :: linorder
begin

definition less_eq_date :: "date \<Rightarrow> date \<Rightarrow> bool" where
  "less_eq_date a b \<longleftrightarrow> (year a, month a, day a) \<le> (year b, month b, day b)"

definition less_date :: "date \<Rightarrow> date \<Rightarrow> bool" where
  "less_date a b \<longleftrightarrow> (year a, month a, day a) < (year b, month b, day b)"

instance
  by standard (auto simp: less_eq_date_def less_date_def less_le_not_le date.expand prod_eq_iff split: if_splits)

end

text \<open>\<open>format("%d/%m")\<close>, and \<open>bcb_date\<close>.\<close>

definition two_digits :: "nat \<Rightarrow> rstr" where
  "two_digits n = pad_left CHR ''0'' 2 (show_nat n)"

definition date_label :: "date \<Rightarrow> rstr" where
  "date_label d = two_digits (day d) @ ''/'' @ two_digits (month d)"

definition bcb_date :: "date \<Rightarrow> rstr" where
  "bcb_date d = two_digits (month d) @ ''-'' @ two_digits (day d) @ ''-'' @ pad_left CHR ''0'' 4 (show_int (year d))"

section \<open>Quotes\<close>

record quote =
  q_date :: date
  usd_brl :: f64

record bcb_quote =
  cotacao_venda :: f64
  data_hora_cotacao :: rstr

datatype fetch_error = HttpError rstr | DateError rstr | SlicePanic | TooFewQuotes

text \<open>\<open>BTreeMap::insert\<close> on the sorted list of bindings: the value of a day is replaced.\<close>

fun day_insert :: "date \<Rightarrow> f64 \<Rightarrow> (date \<times> f64) list \<Rightarrow> (date \<times> f64) list" where
  "day_insert d v [] = [(d, v)]"
| "day_insert d v ((e, w) # m) =
     (if d < e then (d, v) # (e, w) # m
      else if d = e then (d, v) # m
      else (e, w) # day_insert d v m)"

text \<open>\<open>&s[..10]\<close> panics when the text is shorter or the cut is inside a character.\<close>

definition slice_10 :: "rstr \<Rightarrow> rstr option" where
  "slice_10 s =
     (if length s < 10 \<or> (10 < length s \<and> is_continuation (s ! 10)) then None else Some (take 10 s))"

fun collect_days ::
  "(rstr \<Rightarrow> (rstr, date) result) \<Rightarrow> bcb_quote list \<Rightarrow> (date \<times> f64) list \<Rightarrow> (fetch_error, (date \<times> f64) list) result" where
  "collect_days parse_date [] m = Inr m"
| "collect_days parse_date (q # qs) m =
     bind_res (ok_or SlicePanic (slice_10 (data_hora_cotacao q))) (\<lambda>text.
     bind_res (map_err DateError (parse_date text)) (\<lambda>d.
     collect_days parse_date qs (day_insert d (cotacao_venda q) m)))"

definition fetch_quotes ::
  "(rstr \<Rightarrow> (rstr, date) result) \<Rightarrow> (rstr, bcb_quote list) result \<Rightarrow> nat \<Rightarrow> (fetch_error, quote list) result" where
  "fetch_quotes parse_date response last_n =
     bind_res (map_err HttpError response) (\<lambda>values.
     bind_res (collect_days parse_date values []) (\<lambda>by_day.
     (let quotes = map (\<lambda>(d, v). \<lparr>q_date = d, usd_brl = v\<rparr>) by_day;
          quotes = (if last_n < length quotes then drop (length quotes - last_n) quotes else quotes)
      in if length quotes < 8 then Inl TooFewQuotes else Inr quotes)))"

text \<open>The URL asked for, from 75 days before \<open>end\<close>.\<close>

definition bcb_url :: "(date \<Rightarrow> nat \<Rightarrow> date) \<Rightarrow> date \<Rightarrow> rstr" where
  "bcb_url minus_days end_date =
     ''https://olinda.bcb.gov.br/olinda/servico/PTAX/versao/v1/odata/'' @
     ''CotacaoDolarPeriodo(dataInicial='' @ [CHR 0x27] @ bcb_date (minus_days end_date 75) @ [CHR 0x27] @
     '',dataFinalCotacao='' @ [CHR 0x27] @ bcb_date end_date @ [CHR 0x27] @ '')?$top=180&$format=json''"

text \<open>The literals, in thousandths.\<close>

definition synthetic_values :: "int list" where
  "synthetic_values =
     [5640, 5660, 5610, 5730, 5760, 5740, 5620, 5600, 5670, 5700, 5580, 5560, 5590, 5710, 5690, 5650, 5770, 5800,
      5680, 5660, 5720, 5840, 5820, 5790, 5670, 5690, 5740, 5630, 5650, 5780]"

definition synthetic_quotes :: "(date \<Rightarrow> nat \<Rightarrow> date) \<Rightarrow> quote list" where
  "synthetic_quotes plus_days =
     map (\<lambda>(i, v). \<lparr>q_date = plus_days (Date 2026 5 4) i, usd_brl = to_f64 (of_int v / 1000)\<rparr>)
       (zip [0..<length synthetic_values] synthetic_values)"

section \<open>Important moves\<close>

datatype move_kind = Rise | Fall

record important_move =
  start_idx :: nat
  end_idx :: nat
  delta :: f64
  move_kind :: move_kind

definition eps :: f64 where
  "eps = to_f64 (1 / 10000000)"

definition maybe_push_move ::
  "important_move list \<Rightarrow> nat \<Rightarrow> nat \<Rightarrow> f64 \<Rightarrow> f64 \<Rightarrow> important_move list" where
  "maybe_push_move out s e d threshold =
     (if e \<le> s \<or> f_less (f_add (f_abs d) eps) threshold then out
      else out @ [\<lparr>start_idx = s, end_idx = e, delta = d, move_kind = (if f_le (Fin 0) d then Rise else Fall)\<rparr>])"

record run_state =
  rs_out :: "important_move list"
  run_start :: nat
  run_delta :: f64
  direction :: int

definition step_at :: "quote list \<Rightarrow> nat \<Rightarrow> f64" where
  "step_at qs i = f_sub (usd_brl (qs ! i)) (usd_brl (qs ! (i - 1)))"

definition step_direction :: "f64 \<Rightarrow> int" where
  "step_direction x = (if f_less eps x then 1 else if f_less x (f_neg eps) then - 1 else 0)"

text \<open>The body of the loop at index \<open>i\<close>.\<close>

definition detect_step :: "quote list \<Rightarrow> f64 \<Rightarrow> nat \<Rightarrow> run_state \<Rightarrow> run_state" where
  "detect_step qs threshold i st =
     (let x = step_at qs i; dir = step_direction x in
      if dir = 0 then
        \<lparr>rs_out = maybe_push_move (rs_out st) (run_start st) (i - 1) (run_delta st) threshold,
         run_start = i, run_delta = Fin 0, direction = 0\<rparr>
      else if direction st = 0 then st\<lparr>run_start := i - 1, run_delta := x, direction := dir\<rparr>
      else if dir = direction st then st\<lparr>run_delta := f_add (run_delta st) x\<rparr>
      else
        \<lparr>rs_out = maybe_push_move (rs_out st) (run_start st) (i - 1) (run_delta st) threshold,
         run_start = i - 1, run_delta = x, direction = dir\<rparr>)"

definition detect_run :: "quote list \<Rightarrow> f64 \<Rightarrow> nat list \<Rightarrow> run_state" where
  "detect_run qs threshold is =
     fold (detect_step qs threshold) is \<lparr>rs_out = [], run_start = 0, run_delta = Fin 0, direction = 0\<rparr>"

definition threshold_of :: "int \<Rightarrow> f64" where
  "threshold_of threshold_cents = f_div (of_int_f64 threshold_cents) (of_int_f64 100)"

definition detect_important_moves :: "quote list \<Rightarrow> int \<Rightarrow> important_move list" where
  "detect_important_moves qs threshold_cents =
     (if length qs < 2 then []
      else (let threshold = threshold_of threshold_cents; st = detect_run qs threshold [1..<length qs]
            in maybe_push_move (rs_out st) (run_start st) (length qs - 1) (run_delta st) threshold))"

section \<open>The sign of a run\<close>

lemma eps_Fin: "eps = Fin (rnd (1 / 10000000))"
  unfolding eps_def by (rule to_f64_le [of _ 1]) simp_all

lemma eps_pos: "0 < rnd (1 / 10000000)"
proof -
  have "rnd (of_int 1 * 2 powi (- 24)) = of_int 1 * 2 powi (- 24)"
    by (rule rnd_exact [of 1 "- 24"]) simp_all
  moreover have "rnd (of_int 1 * 2 powi (- 24)) \<le> rnd (1 / 10000000)"
    by (rule rnd_mono) (simp add: power_int_def power_one_over)
  moreover have "(0 :: rat) < of_int 1 * 2 powi (- 24)" by simp
  ultimately show ?thesis by linarith
qed

lemma f_le_to_f64:
  assumes "rnd e \<le> rnd x" "\<bar>rnd e\<bar> < 2 ^ 1024"
  shows "f_le (Fin (rnd e)) (to_f64 x)"
  using assms by (auto simp: to_f64_def Let_def abs_less_iff)

lemma to_f64_f_le:
  assumes "rnd x \<le> rnd e" "\<bar>rnd e\<bar> < 2 ^ 1024"
  shows "f_le (to_f64 x) (Fin (rnd e))"
  using assms by (auto simp: to_f64_def Let_def abs_less_iff)

definition signed_run :: "int \<Rightarrow> f64 \<Rightarrow> bool" where
  "signed_run dir d \<longleftrightarrow> (if dir = 1 then f_le eps d else f_le d (f_neg eps))"

lemma signed_run_add:
  assumes "dir = 1 \<or> dir = - 1" "signed_run dir d" "step_direction x = dir"
  shows "signed_run dir (f_add d x)"
proof -
  let ?e = "1 / 10000000 :: rat"
  have e: "\<bar>rnd ?e\<bar> < 2 ^ 1024" "0 < rnd ?e"
    using eps_pos rnd_abs_le [of ?e 1] by auto
  have up: "f_le eps (to_f64 (a + b))" if "rnd ?e \<le> a" "rnd ?e < b" for a b
  proof -
    have "rnd (rnd ?e) \<le> rnd (a + b)" using that e by (intro rnd_mono) linarith
    with f_le_to_f64 [of "rnd ?e" "a + b"] e show ?thesis by (simp add: eps_Fin)
  qed
  have down: "f_le (to_f64 (a + b)) (f_neg eps)" if "a \<le> - rnd ?e" "b < - rnd ?e" for a b
  proof -
    have "rnd (a + b) \<le> rnd (- rnd ?e)" using that e by (intro rnd_mono) linarith
    with to_f64_f_le [of "a + b" "- rnd ?e"] e show ?thesis by (simp add: eps_Fin rnd_minus)
  qed
  show ?thesis
  proof (cases "dir = 1")
    case True
    with assms(2) have d: "(\<exists>a. d = Fin a \<and> rnd ?e \<le> a) \<or> d = PInf"
      by (cases d) (simp_all add: signed_run_def eps_Fin)
    from True assms(3) have x: "(\<exists>b. x = Fin b \<and> rnd ?e < b) \<or> x = PInf"
      by (cases x) (simp_all add: step_direction_def eps_Fin split: if_splits)
    from d x have "f_le eps (f_add d x)"
      by (elim disjE exE conjE) (simp_all add: up, simp_all add: eps_Fin)
    with True show ?thesis by (simp add: signed_run_def)
  next
    case False
    with assms(1,2) have d: "(\<exists>a. d = Fin a \<and> a \<le> - rnd ?e) \<or> d = NInf"
      by (cases d) (simp_all add: signed_run_def eps_Fin)
    from False assms(1,3) have x: "(\<exists>b. x = Fin b \<and> b < - rnd ?e) \<or> x = NInf"
      by (cases x) (auto simp: step_direction_def eps_Fin split: if_splits)
    from d x have "f_le (f_add d x) (f_neg eps)"
      by (elim disjE exE conjE) (simp_all add: down, simp_all add: eps_Fin)
    with False show ?thesis by (simp add: signed_run_def)
  qed
qed

lemma signed_run_first:
  "step_direction x = dir \<Longrightarrow> dir \<noteq> 0 \<Longrightarrow> signed_run dir x"
  by (cases x) (auto simp: signed_run_def step_direction_def eps_Fin split: if_splits)

lemma signed_run_kind:
  "dir = 1 \<or> dir = - 1 \<Longrightarrow> signed_run dir d \<Longrightarrow> f_le (Fin 0) d \<longleftrightarrow> dir = 1"
  using eps_pos by (cases d) (auto simp: signed_run_def eps_Fin)

lemma step_direction_cases: "step_direction x = 0 \<or> step_direction x = 1 \<or> step_direction x = - 1"
  by (simp add: step_direction_def)

section \<open>The moves are the significant maximal runs\<close>

text \<open>
  The reference: a maximal run is a longest stretch of steps in one direction, its total
  the sum of its steps in order, and the chart marks the ones whose total reaches the
  threshold.
\<close>

definition dir_at :: "quote list \<Rightarrow> nat \<Rightarrow> int" where
  "dir_at qs i = step_direction (step_at qs i)"

definition same_way :: "quote list \<Rightarrow> int \<Rightarrow> nat \<Rightarrow> nat \<Rightarrow> bool" where
  "same_way qs d s e \<longleftrightarrow> (\<forall>i\<in>{s<..e}. dir_at qs i = d)"

definition one_way :: "quote list \<Rightarrow> nat \<Rightarrow> nat \<Rightarrow> bool" where
  "one_way qs s e \<longleftrightarrow> s < e \<and> dir_at qs e \<noteq> 0 \<and> same_way qs (dir_at qs e) s e \<and>
     (s = 0 \<or> dir_at qs s \<noteq> dir_at qs e)"

definition maximal_run :: "quote list \<Rightarrow> nat \<Rightarrow> nat \<Rightarrow> bool" where
  "maximal_run qs s e \<longleftrightarrow> one_way qs s e \<and> e < length qs \<and>
     (e + 1 = length qs \<or> dir_at qs (e + 1) \<noteq> dir_at qs e)"

definition run_total :: "quote list \<Rightarrow> nat \<Rightarrow> nat \<Rightarrow> f64" where
  "run_total qs s e = foldl f_add (step_at qs (s + 1)) (map (step_at qs) [s + 2..<e + 1])"

definition significant :: "quote list \<Rightarrow> int \<Rightarrow> nat \<Rightarrow> nat \<Rightarrow> bool" where
  "significant qs t s e \<longleftrightarrow> \<not> f_less (f_add (f_abs (run_total qs s e)) eps) (threshold_of t)"

definition run_move :: "quote list \<Rightarrow> nat \<Rightarrow> nat \<Rightarrow> important_move" where
  "run_move qs s e = \<lparr>start_idx = s, end_idx = e, delta = run_total qs s e,
     move_kind = (if dir_at qs e = 1 then Rise else Fall)\<rparr>"

definition moves_upto :: "quote list \<Rightarrow> int \<Rightarrow> nat \<Rightarrow> important_move set" where
  "moves_upto qs t b = {run_move qs s e | s e. maximal_run qs s e \<and> significant qs t s e \<and> e \<le> b}"

lemma dir_at_cases: "dir_at qs i \<noteq> 0 \<Longrightarrow> dir_at qs i = 1 \<or> dir_at qs i = - 1"
  using step_direction_cases by (auto simp: dir_at_def)

lemma run_total_first [simp]: "run_total qs s (Suc s) = step_at qs (Suc s)"
  by (simp add: run_total_def)

lemma run_total_Suc: "s < e \<Longrightarrow> run_total qs s (Suc e) = f_add (run_total qs s e) (step_at qs (Suc e))"
  by (simp add: run_total_def)

lemma same_way_empty [simp]: "same_way qs d s s"
  by (simp add: same_way_def)

lemma same_way_Suc: "s \<le> e \<Longrightarrow> same_way qs d s (Suc e) \<longleftrightarrow> same_way qs d s e \<and> dir_at qs (Suc e) = d"
  by (auto simp: same_way_def le_Suc_eq)

lemma same_wayD: "same_way qs d s e \<Longrightarrow> s < i \<Longrightarrow> i \<le> e \<Longrightarrow> dir_at qs i = d"
  by (simp add: same_way_def)

lemma one_way_less: "one_way qs s e \<Longrightarrow> s < e"
  and one_way_dir: "one_way qs s e \<Longrightarrow> dir_at qs e \<noteq> 0"
  and one_way_same: "one_way qs s e \<Longrightarrow> same_way qs (dir_at qs e) s e"
  and one_way_start: "one_way qs s e \<Longrightarrow> 0 < s \<Longrightarrow> dir_at qs s \<noteq> dir_at qs e"
  by (auto simp: one_way_def)

lemma one_way_first: "one_way qs i (Suc i) \<longleftrightarrow> dir_at qs (Suc i) \<noteq> 0 \<and> (i = 0 \<or> dir_at qs i \<noteq> dir_at qs (Suc i))"
  by (simp add: one_way_def same_way_Suc)

lemma one_way_Suc: "one_way qs s e \<Longrightarrow> dir_at qs (Suc e) = dir_at qs e \<Longrightarrow> one_way qs s (Suc e)"
  by (simp add: one_way_def same_way_Suc)

lemma signed_run_total:
  assumes "s < e" "same_way qs d s e" "d \<noteq> 0"
  shows "signed_run d (run_total qs s e)"
  using assms(1,2)
proof (induction e)
  case (Suc e)
  from Suc.prems have last: "step_direction (step_at qs (Suc e)) = d" and before: "same_way qs d s e"
    by (simp_all add: same_way_Suc dir_at_def)
  show ?case
  proof (cases "s = e")
    case True
    with last assms(3) show ?thesis by (simp add: signed_run_first)
  next
    case False
    with Suc before have "signed_run d (run_total qs s e)" by simp
    moreover from last assms(3) step_direction_cases have "d = 1 \<or> d = - 1" by metis
    ultimately show ?thesis
      using False Suc.prems(1) last by (simp add: run_total_Suc signed_run_add)
  qed
qed simp

lemma run_total_kind: "one_way qs s e \<Longrightarrow> f_le (Fin 0) (run_total qs s e) \<longleftrightarrow> dir_at qs e = 1"
  by (rule signed_run_kind [OF dir_at_cases signed_run_total]) (simp_all add: one_way_less one_way_dir one_way_same)

lemma push_run:
  "one_way qs s e \<Longrightarrow>
   maybe_push_move out s e (run_total qs s e) (threshold_of t) =
     (if significant qs t s e then out @ [run_move qs s e] else out)"
  by (auto simp: maybe_push_move_def significant_def run_move_def run_total_kind dest: one_way_less)

lemma push_nothing [simp]: "maybe_push_move out s s d thr = out"
  by (simp add: maybe_push_move_def)

text \<open>No maximal run ends strictly inside another, and none ends where the price stands still.\<close>

lemma maximal_run_unique:
  assumes "one_way qs s e" "maximal_run qs s' e'" "s < e'" "e' \<le> e" "e < length qs"
  shows "s' = s" and "e' = e"
proof -
  note same = same_wayD [OF one_way_same [OF assms(1)]]
  from assms(2) have ow': "one_way qs s' e'"
    and end': "e' + 1 = length qs \<or> dir_at qs (e' + 1) \<noteq> dir_at qs e'"
    by (simp_all add: maximal_run_def)
  show e: "e' = e"
    using end' same [of e'] same [of "e' + 1"] assms(3-5) by (cases "e' = e") auto
  show "s' = s"
  proof (rule linorder_cases [of s s'])
    assume "s < s'"
    with one_way_start [OF ow'] one_way_less [OF ow'] same [of s'] e show ?thesis by simp
  next
    assume less: "s' < s"
    with one_way_less [OF assms(1)] have "dir_at qs s = dir_at qs e"
      using same_wayD [OF one_way_same [OF ow'], of s] e by simp
    with one_way_start [OF assms(1)] less show ?thesis by simp
  qed simp
qed

lemma moves_upto_still: "dir_at qs (Suc b) = 0 \<Longrightarrow> moves_upto qs t (Suc b) = moves_upto qs t b"
  using one_way_dir [of qs _ "Suc b"] by (fastforce simp: moves_upto_def maximal_run_def le_Suc_eq)

lemma moves_upto_run:
  assumes "maximal_run qs s e"
  shows "moves_upto qs t e = moves_upto qs t s \<union> (if significant qs t s e then {run_move qs s e} else {})"
proof -
  from assms have ow: "one_way qs s e" "e < length qs" "s < e" by (auto simp: maximal_run_def dest: one_way_less)
  note u = maximal_run_unique [OF ow(1) _ _ _ ow(2)]
  have *: "maximal_run qs s' e' \<and> e' \<le> e \<longleftrightarrow> maximal_run qs s' e' \<and> e' \<le> s \<or> s' = s \<and> e' = e" for s' e'
    using u [of s' e'] assms ow(3) by (cases "e' \<le> s") auto
  have "m \<in> moves_upto qs t e \<longleftrightarrow>
      m \<in> moves_upto qs t s \<or> significant qs t s e \<and> m = run_move qs s e" for m
  proof -
    have "m \<in> moves_upto qs t e \<longleftrightarrow>
        (\<exists>s' e'. m = run_move qs s' e' \<and> significant qs t s' e' \<and> (maximal_run qs s' e' \<and> e' \<le> e))"
      by (auto simp: moves_upto_def)
    also have "\<dots> \<longleftrightarrow> m \<in> moves_upto qs t s \<or> significant qs t s e \<and> m = run_move qs s e"
      unfolding * by (auto simp: moves_upto_def)
    finally show ?thesis .
  qed
  then show ?thesis by auto
qed

text \<open>The loop: what is known when the indices below \<open>k\<close> are done.\<close>

definition loop_inv :: "quote list \<Rightarrow> int \<Rightarrow> nat \<Rightarrow> run_state \<Rightarrow> bool" where
  "loop_inv qs t k st \<longleftrightarrow>
     set (rs_out st) = moves_upto qs t (run_start st) \<and>
     sorted_wrt (\<lambda>a b. end_idx a \<le> start_idx b) (rs_out st) \<and>
     (if direction st = 0 then run_start st + 1 = k \<and> (run_start st = 0 \<or> dir_at qs (run_start st) = 0)
      else one_way qs (run_start st) (k - 1) \<and> direction st = dir_at qs (k - 1) \<and>
           run_delta st = run_total qs (run_start st) (k - 1))"

lemma moves_upto_end: "m \<in> moves_upto qs t b \<Longrightarrow> end_idx m \<le> b"
  by (auto simp: moves_upto_def run_move_def)

lemma push_sorted:
  assumes "sorted_wrt (\<lambda>a b. end_idx a \<le> start_idx b) out" "set out = moves_upto qs t s" "maximal_run qs s e"
  shows "sorted_wrt (\<lambda>a b. end_idx a \<le> start_idx b) (maybe_push_move out s e (run_total qs s e) (threshold_of t))"
    and "set (maybe_push_move out s e (run_total qs s e) (threshold_of t)) = moves_upto qs t e"
  using assms moves_upto_end [of _ qs t s]
  by (auto simp: push_run maximal_run_def sorted_wrt_append run_move_def)
    (auto simp: moves_upto_run [OF assms(3)] run_move_def)

lemma detect_step_inv:
  assumes "loop_inv qs t (Suc k) st" "Suc k < length qs"
  shows "loop_inv qs t (Suc (Suc k)) (detect_step qs (threshold_of t) (Suc k) st)"
proof (cases "direction st = 0")
  case True
  with assms show ?thesis
    by (auto simp: loop_inv_def detect_step_def Let_def dir_at_def [symmetric] moves_upto_still one_way_first)
next
  case False
  with assms(1) have ow: "one_way qs (run_start st) k" and d: "direction st = dir_at qs k"
    "run_delta st = run_total qs (run_start st) k" and out: "set (rs_out st) = moves_upto qs t (run_start st)"
    "sorted_wrt (\<lambda>a b. end_idx a \<le> start_idx b) (rs_out st)"
    by (auto simp: loop_inv_def)
  show ?thesis
  proof (cases "dir_at qs (Suc k) = dir_at qs k")
    case True
    with False ow d out show ?thesis
      by (auto simp: loop_inv_def detect_step_def Let_def dir_at_def [symmetric] one_way_Suc run_total_Suc one_way_dir dest: one_way_less)
  next
    case turn: False
    with ow assms(2) have mr: "maximal_run qs (run_start st) k"
      by (auto simp: maximal_run_def)
    from push_sorted [OF out(2,1) mr] turn False ow d show ?thesis
      by (auto simp: loop_inv_def detect_step_def Let_def dir_at_def [symmetric] one_way_first moves_upto_still)
  qed
qed

lemma detect_run_inv:
  "k < length qs \<Longrightarrow> loop_inv qs t (Suc k) (detect_run qs (threshold_of t) [1..<Suc k])"
proof (induction k)
  case 0
  then show ?case
    by (auto simp: loop_inv_def detect_run_def moves_upto_def maximal_run_def one_way_def)
next
  case (Suc k)
  from detect_step_inv [OF Suc.IH] Suc.prems show ?case
    by (simp add: detect_run_def)
qed

lemma detected_moves:
  "set (detect_important_moves qs t) =
     {run_move qs s e | s e. maximal_run qs s e \<and> significant qs t s e}
   \<and> sorted_wrt (\<lambda>a b. end_idx a \<le> start_idx b) (detect_important_moves qs t)"
proof (cases "length qs < 2")
  case True
  then show ?thesis by (auto simp: detect_important_moves_def maximal_run_def one_way_def)
next
  case False
  define n where "n = length qs - 1"
  from False have n: "n < length qs" "length qs = Suc n" by (auto simp: n_def)
  define st where "st = detect_run qs (threshold_of t) [1..<length qs]"
  from detect_run_inv [OF n(1)] n(2) have inv: "loop_inv qs t (Suc n) st" by (simp add: st_def)
  have eq: "detect_important_moves qs t =
      maybe_push_move (rs_out st) (run_start st) n (run_delta st) (threshold_of t)"
    using False by (simp add: detect_important_moves_def st_def n_def Let_def)
  have all: "{run_move qs s e | s e. maximal_run qs s e \<and> significant qs t s e} = moves_upto qs t n"
    using n by (fastforce simp: moves_upto_def maximal_run_def)
  show ?thesis
  proof (cases "direction st = 0")
    case True
    with inv show ?thesis unfolding eq all by (simp add: loop_inv_def)
  next
    case dir: False
    with inv n have "maximal_run qs (run_start st) n" by (auto simp: loop_inv_def maximal_run_def)
    from push_sorted [OF _ _ this] dir inv show ?thesis unfolding eq all by (simp add: loop_inv_def)
  qed
qed

text \<open>C28: The moves the chart marks are exactly the significant maximal runs of the quotes: each
  longest stretch of steps in one direction whose total reaches the threshold is reported
  once, with its first and last index, its total and its direction, nothing else is, and
  they come in order without overlapping.
\<close>

theorem moves_are_maximal_runs:
  "set (detect_important_moves qs t) =
     {run_move qs s e | s e. maximal_run qs s e \<and> significant qs t s e}
   \<and> sorted_wrt (\<lambda>a b. end_idx a \<le> start_idx b) (detect_important_moves qs t)"
  by (rule detected_moves)

section \<open>The days of the chart\<close>

abbreviation ascending :: "('a :: linorder) list \<Rightarrow> bool" where
  "ascending \<equiv> sorted_wrt (<)"

lemma fst_day_insert: "fst ` set (day_insert d v m) = insert d (fst ` set m)"
  by (induction d v m rule: day_insert.induct) auto

lemma set_day_insert: "x \<in> set (day_insert d v m) \<Longrightarrow> x = (d, v) \<or> x \<in> set m"
  by (induction d v m rule: day_insert.induct) (auto split: if_splits)

lemma day_insert_ascending: "ascending (map fst m) \<Longrightarrow> ascending (map fst (day_insert d v m))"
  by (induction d v m rule: day_insert.induct) (auto dest!: set_day_insert)

lemma map_of_day_insert: "ascending (map fst m) \<Longrightarrow> map_of (day_insert d v m) = (map_of m)(d \<mapsto> v)"
  by (induction d v m rule: day_insert.induct) (auto simp: fun_eq_iff)

text \<open>The day and the rate of an answer's record, when its timestamp parses.\<close>

definition day_of :: "(rstr \<Rightarrow> (rstr, date) result) \<Rightarrow> bcb_quote \<Rightarrow> date \<times> f64" where
  "day_of parse_date q = (projr (parse_date (take 10 (data_hora_cotacao q))), cotacao_venda q)"

lemma collect_days_spec:
  assumes "collect_days parse_date vs m = Inr m'" "ascending (map fst m)"
  shows "ascending (map fst m') \<and> map_of m' = map_of m ++ map_of (rev (map (day_of parse_date) vs))"
  using assms
proof (induction vs arbitrary: m)
  case (Cons q vs)
  from Cons.prems(1) obtain t d where t: "slice_10 (data_hora_cotacao q) = Some t"
    and d: "parse_date t = Inr d"
    and rest: "collect_days parse_date vs (day_insert d (cotacao_venda q) m) = Inr m'"
    by auto
  from t have "t = take 10 (data_hora_cotacao q)" by (auto simp: slice_10_def split: if_splits)
  with d have "day_of parse_date q = (d, cotacao_venda q)" by (simp add: day_of_def)
  with Cons.IH [OF rest day_insert_ascending [OF Cons.prems(2)]] map_of_day_insert [OF Cons.prems(2)]
  show ?case by (simp add: map_add_def fun_eq_iff split: option.splits)
qed simp

lemma ascending_drop: "ascending xs \<Longrightarrow> ascending (drop k xs)"
  by (simp add: sorted_wrt_drop)

lemma ascending_before_drop:
  "ascending xs \<Longrightarrow> k < length xs \<Longrightarrow> x \<in> set xs \<Longrightarrow> x \<in> set (drop k xs) \<or> x < hd (drop k xs)"
  by (auto simp: hd_drop_conv_nth in_set_conv_nth sorted_wrt_iff_nth_less)
    (metis add.commute le_add_diff_inverse2 length_drop less_diff_conv not_le nth_drop)

text \<open>C29: The rates the chart is drawn from are the most recent days of the answer: strictly
  ascending days, at least eight and at most as many as asked for, each with the last rate
  the answer gives for that day, and every other day of the answer is an earlier one.
\<close>

theorem fetch_quotes_latest_days:
  assumes "fetch_quotes parse_date (Inr values) last_n = Inr qs"
  shows "ascending (map q_date qs) \<and> 8 \<le> length qs \<and> length qs \<le> last_n \<and>
    (\<forall>q\<in>set qs. map_of (rev (map (day_of parse_date) values)) (q_date q) = Some (usd_brl q)) \<and>
    (\<forall>v\<in>set values. fst (day_of parse_date v) \<in> q_date ` set qs \<or> fst (day_of parse_date v) < q_date (hd qs))"
proof -
  from assms obtain m where m: "collect_days parse_date values [] = Inr m"
    and qs: "qs = map (\<lambda>(d, v). \<lparr>q_date = d, usd_brl = v\<rparr>) (drop (length m - last_n) m)" and len: "8 \<le> length qs"
    by (auto simp: fetch_quotes_def Let_def drop_map split: if_splits)
  from collect_days_spec [OF m] have asc: "ascending (map fst m)"
    and of_m: "map_of m = map_of (rev (map (day_of parse_date) values))" by simp_all
  from qs have dates: "map q_date qs = drop (length m - last_n) (map fst m)"
    by (simp add: drop_map comp_def case_prod_beta)
  have "map_of m (q_date q) = Some (usd_brl q)" if "q \<in> set qs" for q
  proof -
    from that qs have "(q_date q, usd_brl q) \<in> set m" by (auto dest: in_set_dropD)
    moreover from asc have "distinct (map fst m)" by (simp add: strict_sorted_iff)
    ultimately show ?thesis by simp
  qed
  moreover have "d \<in> q_date ` set qs \<or> d < q_date (hd qs)" if "d \<in> fst ` set m" for d
  proof -
    from len qs have "length m - last_n < length (map fst m)" "qs \<noteq> []" by auto
    with ascending_before_drop [OF asc, of "length m - last_n" d] that show ?thesis
      unfolding dates [symmetric] by (simp add: hd_map)
  qed
  moreover have "fst (day_of parse_date v) \<in> fst ` set m" if "v \<in> set values" for v
  proof -
    from that have "fst (day_of parse_date v) \<in> dom (map_of m)"
      unfolding of_m dom_map_of_conv_image_fst by auto
    then show ?thesis by (simp only: dom_map_of_conv_image_fst)
  qed
  moreover have "ascending (map q_date qs)" "length qs \<le> last_n"
    by (simp_all only: dates ascending_drop [OF asc]) (simp add: qs)
  ultimately show ?thesis
    using len unfolding of_m by blast
qed

definition sample_answer :: "bcb_quote list" where
  "sample_answer =
     map (\<lambda>d. \<lparr>cotacao_venda = Fin (of_nat d), data_hora_cotacao = ''2026-05-0'' @ show_nat d @ '' 13:00:00''\<rparr>)
       [2, 1, 3, 4, 5, 6, 7, 8, 9, 9]"

definition sample_date :: "rstr \<Rightarrow> (rstr, date) result" where
  "sample_date t = (case parse_digits (drop 8 t) of None \<Rightarrow> Inl ''bad date'' | Some d \<Rightarrow> Inr (Date 2026 5 d))"

theorem fetch_quotes_latest_days_witness:
  "\<exists>qs. fetch_quotes sample_date (Inr sample_answer) 8 = Inr qs \<and> map (day \<circ> q_date) qs = [2, 3, 4, 5, 6, 7, 8, 9] \<and>
     ascending (map q_date qs)"
proof -
  have "map_err (\<lambda>_. 0 :: nat) (bind_res (fetch_quotes sample_date (Inr sample_answer) 8) (\<lambda>qs. Inr (map (day \<circ> q_date) qs)))
      = Inr [2, 3, 4, 5, 6, 7, 8, 9]"
    by code_simp
  then obtain qs where qs: "fetch_quotes sample_date (Inr sample_answer) 8 = Inr qs"
    and days: "map (day \<circ> q_date) qs = [2, 3, 4, 5, 6, 7, 8, 9]"
    by (auto simp: map_err_def split: sum.splits)
  show ?thesis
    by (intro exI [of _ qs] conjI) (rule qs, rule days, rule conjunct1 [OF fetch_quotes_latest_days [OF qs]])
qed

end
