(* ===== verification/Layout.thy ===== *)
theory Layout
  imports Metrics Quotes
begin

text \<open>
  The layout of the chart: \<open>src/src/plot/render/layout.rs\<close>. Coordinates are \<open>i32\<close>: a sum,
  difference or product wraps, and since wrapping commutes with them an expression of these
  operations is wrapped once, by \<open>i32\<close>; where the code divides, compares or takes a maximum the
  operands are wrapped first. Building the layout is a job on the metrics cache; where the
  program would panic or never return it ends in an error of its own.
\<close>

datatype layout_error = LayoutError rstr | IndexPanic | NeverReturns

record positioned_text =
  pt_text :: rstr
  pt_x :: int
  pt_y :: int
  pt_bbox :: text_box

record y_tick_layout =
  yt_cents :: int
  yt_y :: int
  yt_label :: positioned_text

record x_tick_layout =
  xt_idx :: nat
  xt_x :: int
  xt_label :: positioned_text

record chart_layout =
  cl_width :: u32
  cl_height :: u32
  plot_left :: int
  plot_right :: int
  plot_top :: int
  plot_bottom :: int
  plot_width :: int
  plot_height :: int
  y_min_cent :: int
  y_max_cent :: int
  px_per_cent :: int
  cl_title :: positioned_text
  cl_subtitle :: positioned_text
  y_ticks :: "y_tick_layout list"
  x_ticks :: "x_tick_layout list"
  axis_labels :: "positioned_text list"

section \<open>Coordinates and ticks\<close>

definition x_of_index :: "nat \<Rightarrow> nat \<Rightarrow> int \<Rightarrow> int \<Rightarrow> int" where
  "x_of_index idx n left w =
     i32 (left + as_i32 (f_round (f_mul (f_div (usize_f64 idx) (usize_f64 (n - 1))) (of_int_f64 w))))"

definition y_of_price :: "f64 \<Rightarrow> int \<Rightarrow> int \<Rightarrow> int \<Rightarrow> int" where
  "y_of_price price y_min px bottom =
     (let cents_from_min = f_sub (f_mul price (Fin 100)) (of_int_f64 y_min)
      in i32 (bottom - as_i32 (f_round (f_mul cents_from_min (of_int_f64 px)))))"

definition y_of_cents :: "int \<Rightarrow> int \<Rightarrow> int \<Rightarrow> int \<Rightarrow> int" where
  "y_of_cents cents y_min px bottom = i32 (bottom - (cents - y_min) * px)"

definition nice_cent_tick :: "int \<Rightarrow> int" where
  "nice_cent_tick n =
     (if 0 \<le> n \<and> n \<le> 20 then 2
      else if 21 \<le> n \<and> n \<le> 50 then 5
      else if 51 \<le> n \<and> n \<le> 120 then 10
      else if 121 \<le> n \<and> n \<le> 250 then 25
      else 50)"

definition div_ceil :: "int \<Rightarrow> int \<Rightarrow> int" where
  "div_ceil a b = (if 0 \<le> a then tdiv (i32 (a + b - 1)) b else tdiv a b)"

text \<open>The loop over \<open>c\<close>: near \<open>i32::MAX\<close> the counter wraps and the loop may never end
  (\<open>tick_loop_hangs\<close>).\<close>

partial_function (option) tick_loop :: "int \<Rightarrow> int \<Rightarrow> int \<Rightarrow> int list option" where
  "tick_loop y_max tick c =
     (if c \<le> y_max then Option.bind (tick_loop y_max tick (i32 (c + tick))) (\<lambda>cs. Some (c # cs)) else Some [])"

definition build_y_tick_cents :: "int \<Rightarrow> int \<Rightarrow> int list option" where
  "build_y_tick_cents y_min y_max =
     (let y_span = max (i32 (y_max - y_min)) 1;
          tick_cents = nice_cent_tick y_span;
          first_tick = i32 (div_ceil y_min tick_cents * tick_cents)
      in tick_loop y_max tick_cents first_tick)"

text \<open>The indices labelled below the axis: evenly spaced, without repetition, first and last included.\<close>

definition push_new :: "nat list \<Rightarrow> nat \<Rightarrow> nat list" where
  "push_new out idx = (if out \<noteq> [] \<and> last out = idx then out else out @ [idx])"

definition spaced_index :: "nat \<Rightarrow> nat \<Rightarrow> nat \<Rightarrow> nat" where
  "spaced_index n target k =
     as_usize (f_round (f_div (f_mul (usize_f64 k) (usize_f64 (n - 1))) (usize_f64 (target - 1))))"

definition label_target :: "nat \<Rightarrow> nat \<Rightarrow> int \<Rightarrow> int \<Rightarrow> nat" where
  "label_target n max_labels width min_gap =
     (let by_gap = nat (max (i32 (tdiv width (max min_gap 1) + 1)) 2)
      in min (min (max max_labels 2) by_gap) n)"

definition choose_evenly_spaced_indices :: "nat \<Rightarrow> nat \<Rightarrow> int \<Rightarrow> int \<Rightarrow> nat list" where
  "choose_evenly_spaced_indices n max_labels width min_gap =
     (if n = 0 then []
      else if n = 1 then [0]
      else
        (let target = label_target n max_labels width min_gap
         in if target = 2 then [0, n - 1]
            else
              (let out = foldl (\<lambda>out k. push_new out (spaced_index n target k)) [] [0..<target];
                   out = (if out = [] \<or> hd out \<noteq> 0 then 0 # out else out)
               in if last out \<noteq> n - 1 then out @ [n - 1] else out)))"

definition format_brl_cent :: "int \<Rightarrow> rstr" where
  "format_brl_cent cents =
     (let sign = (if cents < 0 then ''-'' else []);
          a = i32 \<bar>cents\<bar>
      in replace_char CHR ''.'' CHR '',''
           (sign @ ''R$ '' @ show_int (tdiv a 100) @ ''.'' @ pad_left CHR ''0'' 2 (show_int (trem a 100))))"

section \<open>Building the layout\<close>

type_synonym 'a lay = "(layout_error, 'a) measuring"

definition measure_in :: "theme \<Rightarrow> rstr \<Rightarrow> u32 \<Rightarrow> text_rotation \<Rightarrow> text_box lay" where
  "measure_in t s font_px rotation = measure_text s font_px rotation (typography t)"

definition max_or_0 :: "int list \<Rightarrow> int" where
  "max_or_0 xs = (if xs = [] then 0 else Max (set xs))"

definition y_range :: "theme \<Rightarrow> quote list \<Rightarrow> int \<times> int" where
  "y_range t qs =
     (let min_price = foldl f_min PInf (map usd_brl qs);
          max_price = foldl f_max NInf (map usd_brl qs)
      in (i32 (as_i32 (f_floor (f_mul min_price (Fin 100))) - padding_cents (scale_t t)),
          i32 (as_i32 (f_ceil (f_mul max_price (Fin 100))) + padding_cents (scale_t t))))"

text \<open>The horizontal extent: the labels of the price axis stand left of the plot.\<close>

record x_extent =
  xe_ticks :: "int list"
  xe_labels :: "rstr list"
  xe_left :: int
  xe_right :: int
  xe_width :: int

definition measure_x_extent :: "theme \<Rightarrow> int \<Rightarrow> int \<Rightarrow> x_extent lay" where
  "measure_x_extent t y_min y_max =
     (case build_y_tick_cents y_min y_max of
        None \<Rightarrow> job_fail NeverReturns
      | Some ticks \<Rightarrow>
          (let labels = map format_brl_cent ticks in
           job_bind (job_map (\<lambda>s. job_bind (measure_in t s (axis_tick_font_px (typography t)) NoRotation)
                                    (\<lambda>b. job_return (box_width b))) labels) (\<lambda>widths.
           (let left = i32 (outer_left_px (layout_t t) + max_or_0 widths + y_tick_label_to_axis_gap_px (layout_t t));
                right = i32 (sint (canvas_width (canvas t)) - outer_right_px (layout_t t));
                w = i32 (right - left)
            in if w \<le> 0
               then job_fail (LayoutError ''not enough horizontal room after measured labels and margins'')
               else job_return \<lparr>xe_ticks = ticks, xe_labels = labels, xe_left = left, xe_right = right, xe_width = w\<rparr>))))"

definition title_text :: "nat \<Rightarrow> rstr" where
  "title_text n = ''USD/BRL - '' @ [CHR 0xC3, CHR 0xBA] @ ''ltimos '' @ show_nat n @ '' preg'' @ [CHR 0xC3, CHR 0xB5] @ ''es''"

definition subtitle_text :: "int \<Rightarrow> int \<Rightarrow> nat \<Rightarrow> rstr" where
  "subtitle_text px important_cents detected =
     ''escala vertical: '' @ show_int px @ '' px = R$ 0,01 '' @ [CHR 0xE2, CHR 0x80, CHR 0xA2] @
     '' pernas importantes: '' @ [CHR 0xE2, CHR 0x89, CHR 0xA5] @ '' '' @ format_brl_cent important_cents @
     '' '' @ [CHR 0xE2, CHR 0x80, CHR 0xA2] @ '' detectadas: '' @ show_nat detected"

text \<open>The title, and where the subtitle and the plot area start below it.\<close>

definition place_headings :: "theme \<Rightarrow> nat \<Rightarrow> int \<Rightarrow> (positioned_text \<times> int \<times> int) lay" where
  "place_headings t n left =
     job_bind (measure_in t (title_text n) (title_font_px (typography t)) NoRotation) (\<lambda>title_bbox.
     job_bind (measure_in t ''subtitle'' (subtitle_font_px (typography t)) NoRotation) (\<lambda>b.
     (let title = \<lparr>pt_text = title_text n, pt_x = left, pt_y = outer_top_px (layout_t t), pt_bbox = title_bbox\<rparr>;
          subtitle_y = i32 (pt_y title + box_height title_bbox + title_to_subtitle_gap_px (layout_t t));
          area_top = i32 (subtitle_y + box_height b + subtitle_to_plot_gap_px (layout_t t))
      in job_return (title, subtitle_y, area_top))))"

text \<open>The dates below the plot: which are shown, and the tallest.\<close>

definition label_of :: "quote list \<Rightarrow> nat \<Rightarrow> (layout_error, rstr) result" where
  "label_of qs idx = (if idx < length qs then Inr (date_label (q_date (qs ! idx))) else Inl IndexPanic)"

definition measure_dates :: "theme \<Rightarrow> quote list \<Rightarrow> nat list \<Rightarrow> int lay" where
  "measure_dates t qs is =
     job_bind (job_map (\<lambda>idx. job_bind (job_lift (label_of qs idx)) (\<lambda>s.
                 job_bind (measure_in t s (axis_tick_font_px (typography t)) Rotate270) (\<lambda>b.
                 job_return (box_height b)))) is) (\<lambda>heights.
     job_return (max_or_0 heights))"

definition measure_axis_labels :: "theme \<Rightarrow> (text_box \<times> text_box \<times> int) lay" where
  "measure_axis_labels t =
     job_bind (measure_in t (x_label (axis_t t)) (axis_label_font_px (typography t)) NoRotation) (\<lambda>xb.
     job_bind (measure_in t (y_label (axis_t t)) (axis_label_font_px (typography t)) NoRotation) (\<lambda>yb.
     job_return (xb, yb,
       if x_label (axis_t t) = [] \<and> y_label (axis_t t) = [] then 0 else max (box_height xb) (box_height yb))))"

section \<open>The vertical extent\<close>

record y_extent =
  ye_px_per_cent :: int
  ye_top :: int
  ye_bottom :: int
  ye_height :: int

definition bottom_reserved :: "theme \<Rightarrow> int \<Rightarrow> int \<Rightarrow> int" where
  "bottom_reserved t axis_label_height max_x_label_height =
     i32 (outer_bottom_px (layout_t t) + axis_label_to_canvas_edge_gap_px (layout_t t) + axis_label_height +
          (if axis_label_height = 0 then 0 else x_labels_to_axis_labels_gap_px (layout_t t)) +
          max_x_label_height + x_tick_to_label_gap_px (layout_t t) + x_tick_length_px (axis_t t))"

text \<open>\<open>i32\<close> division: \<open>i32::MIN / -1\<close> cannot arise, the span is at least 1.\<close>

definition scale_px :: "theme \<Rightarrow> int \<Rightarrow> int \<Rightarrow> int" where
  "scale_px t inner_h span_cents =
     (case force_px_per_cent (scale_t t) of
        Some px \<Rightarrow> px
      | None \<Rightarrow> min (max (tdiv inner_h span_cents) (min_px_per_cent (scale_t t))) (max_px_per_cent (scale_t t)))"

definition fit_vertically :: "theme \<Rightarrow> int \<Rightarrow> int \<Rightarrow> int \<Rightarrow> (layout_error, y_extent) result" where
  "fit_vertically t span_cents area_top reserved =
     (let area_bottom = i32 (sint (canvas_height (canvas t)) - reserved);
          available_h = i32 (area_bottom - area_top)
      in if available_h \<le> 0
         then Inl (LayoutError ''not enough vertical room after measured labels and margins'')
         else
           (let inner_h = i32 (available_h - plot_min_inner_top_gap_px (layout_t t) - plot_min_inner_bottom_gap_px (layout_t t))
            in if inner_h \<le> 0
               then Inl (LayoutError ''not enough inner vertical room for plot'')
               else
                 (let px = scale_px t inner_h span_cents;
                      height = i32 (span_cents * px)
                  in if inner_h < height
                     then Inl (LayoutError (''data range needs '' @ show_int height @ ''px, but only '' @ show_int inner_h @
                            ''px are available; reduce force_px_per_cent or increase canvas height''))
                     else
                       (let top = i32 (area_top + plot_min_inner_top_gap_px (layout_t t) + tdiv (i32 (inner_h - height)) 2)
                        in Inr \<lparr>ye_px_per_cent = px, ye_top = top, ye_bottom = i32 (top + height), ye_height = height\<rparr>))))"

section \<open>Ticks and axis labels\<close>

definition place_y_tick :: "theme \<Rightarrow> int \<Rightarrow> y_extent \<Rightarrow> int \<Rightarrow> int \<times> rstr \<Rightarrow> y_tick_layout lay" where
  "place_y_tick t y_min ye left cl =
     (let y = y_of_cents (fst cl) y_min (ye_px_per_cent ye) (ye_bottom ye) in
      job_bind (measure_in t (snd cl) (axis_tick_font_px (typography t)) NoRotation) (\<lambda>bbox.
      job_return \<lparr>yt_cents = fst cl, yt_y = y,
        yt_label = \<lparr>pt_text = snd cl, pt_x = i32 (left - y_tick_label_to_axis_gap_px (layout_t t) - box_width bbox),
                   pt_y = i32 (y - tdiv (box_height bbox) 2), pt_bbox = bbox\<rparr>\<rparr>))"

definition place_x_tick :: "theme \<Rightarrow> quote list \<Rightarrow> x_extent \<Rightarrow> y_extent \<Rightarrow> nat \<Rightarrow> x_tick_layout lay" where
  "place_x_tick t qs xe ye idx =
     (let x = x_of_index idx (length qs) (xe_left xe) (xe_width xe) in
      job_bind (job_lift (label_of qs idx)) (\<lambda>label.
      job_bind (measure_in t label (axis_tick_font_px (typography t)) Rotate270) (\<lambda>bbox.
      job_return \<lparr>xt_idx = idx, xt_x = x,
        xt_label = \<lparr>pt_text = label, pt_x = i32 (x - tdiv (box_width bbox) 2),
                   pt_y = i32 (ye_bottom ye + x_tick_length_px (axis_t t) + x_tick_to_label_gap_px (layout_t t) + box_height bbox),
                   pt_bbox = bbox\<rparr>\<rparr>)))"

definition place_axis_labels :: "theme \<Rightarrow> x_extent \<Rightarrow> text_box \<Rightarrow> text_box \<Rightarrow> int \<Rightarrow> positioned_text list" where
  "place_axis_labels t xe xb yb axis_label_height =
     (let y = i32 (sint (canvas_height (canvas t)) - outer_bottom_px (layout_t t) -
                   axis_label_to_canvas_edge_gap_px (layout_t t) - axis_label_height)
      in (if y_label (axis_t t) \<noteq> []
          then [\<lparr>pt_text = y_label (axis_t t), pt_x = outer_left_px (layout_t t), pt_y = y, pt_bbox = yb\<rparr>] else []) @
         (if x_label (axis_t t) \<noteq> []
          then [\<lparr>pt_text = x_label (axis_t t), pt_x = i32 (xe_right xe - box_width xb), pt_y = y, pt_bbox = xb\<rparr>] else []))"

section \<open>The whole layout\<close>

text \<open>The last part: with the scale known, the subtitle, the ticks and the labels are placed.\<close>

definition assemble_layout ::
  "quote list \<Rightarrow> important_move list \<Rightarrow> theme \<Rightarrow> int \<Rightarrow> int \<Rightarrow> x_extent \<Rightarrow> positioned_text \<Rightarrow> int \<Rightarrow> nat list \<Rightarrow>
   text_box \<Rightarrow> text_box \<Rightarrow> int \<Rightarrow> y_extent \<Rightarrow> chart_layout lay" where
  "assemble_layout qs moves t y_min y_max xe title subtitle_y x_indices xb yb axis_label_height ye =
     (let subtitle = subtitle_text (ye_px_per_cent ye) (important_delta_cents (movement t)) (length moves) in
      job_bind (measure_in t subtitle (subtitle_font_px (typography t)) NoRotation) (\<lambda>subtitle_bbox.
      job_bind (job_map (place_y_tick t y_min ye (xe_left xe)) (zip (xe_ticks xe) (xe_labels xe))) (\<lambda>yts.
      job_bind (job_map (place_x_tick t qs xe ye) x_indices) (\<lambda>xts.
      job_return
        \<lparr>cl_width = canvas_width (canvas t), cl_height = canvas_height (canvas t),
         plot_left = xe_left xe, plot_right = xe_right xe, plot_top = ye_top ye, plot_bottom = ye_bottom ye,
         plot_width = xe_width xe, plot_height = ye_height ye,
         y_min_cent = y_min, y_max_cent = y_max, px_per_cent = ye_px_per_cent ye,
         cl_title = title,
         cl_subtitle = \<lparr>pt_text = subtitle, pt_x = xe_left xe, pt_y = subtitle_y, pt_bbox = subtitle_bbox\<rparr>,
         y_ticks = yts, x_ticks = xts,
         axis_labels = place_axis_labels t xe xb yb axis_label_height\<rparr>))))"

text \<open>The part below the headings: what stands under the plot fixes how high it can be.\<close>

definition layout_below ::
  "quote list \<Rightarrow> important_move list \<Rightarrow> theme \<Rightarrow> int \<Rightarrow> int \<Rightarrow> x_extent \<Rightarrow> positioned_text \<times> int \<times> int \<Rightarrow> chart_layout lay" where
  "layout_below qs moves t y_min y_max xe headings =
     (case headings of (title, subtitle_y, area_top) \<Rightarrow>
       (let x_indices = choose_evenly_spaced_indices (length qs) (max_x_tick_labels (layout_t t)) (xe_width xe)
                          (min_x_tick_label_gap_px (layout_t t))
        in
        job_bind (measure_dates t qs x_indices) (\<lambda>max_x_label_height.
        job_bind (measure_axis_labels t) (\<lambda>(xb, yb, axis_label_height).
        job_bind (job_lift (fit_vertically t (max (i32 (y_max - y_min)) 1) area_top
                     (bottom_reserved t axis_label_height max_x_label_height))) (\<lambda>ye.
        assemble_layout qs moves t y_min y_max xe title subtitle_y x_indices xb yb axis_label_height ye)))))"

definition build_layout :: "quote list \<Rightarrow> important_move list \<Rightarrow> theme \<Rightarrow> chart_layout lay" where
  "build_layout qs moves t =
     (if length qs < 2 then job_fail (LayoutError ''need at least two quotes'')
      else
        (let y_min = fst (y_range t qs); y_max = snd (y_range t qs) in
         job_bind (measure_x_extent t y_min y_max) (\<lambda>xe.
         job_bind (place_headings t (length qs) (xe_left xe)) (layout_below qs moves t y_min y_max xe))))"

section \<open>The layout does not depend on what was measured before\<close>

text \<open>A job of the layout has one result, whatever the cache holds.\<close>

definition settled :: "theme \<Rightarrow> 'a lay \<Rightarrow> bool" where
  "settled t j \<longleftrightarrow> (\<exists>r. fonts.pure_as (typography t) j r)"

named_theorems settled_rules \<open>how settled jobs are built\<close>

lemma settled_measure [settled_rules]: "settled t (measure_in t s px rot)"
  unfolding settled_def measure_in_def by (rule exI, rule pure_measure)

lemma settled_return [settled_rules]: "settled t (job_return x)"
  unfolding settled_def by (rule exI, rule fonts.pure_return)

lemma settled_fail [settled_rules]: "settled t (job_fail e)"
  unfolding settled_def by (rule exI, rule fonts.pure_fail)

lemma settled_lift [settled_rules]: "settled t (job_lift r)"
  unfolding settled_def by (auto simp: fonts.pure_as_def job_lift_def)

lemma settled_bind [settled_rules]:
  assumes "settled t j" "\<And>x. settled t (f x)"
  shows "settled t (job_bind j f)"
proof -
  from assms obtain r where r: "fonts.pure_as (typography t) j r" by (auto simp: settled_def)
  from assms(2) obtain g where "\<And>x. fonts.pure_as (typography t) (f x) (g x)"
    unfolding settled_def by metis
  with r have "fonts.pure_as (typography t) (job_bind j f) (bind_res r g)" by (intro fonts.pure_bind)
  then show ?thesis by (auto simp: settled_def)
qed

lemma settled_if [settled_rules]: "settled t j \<Longrightarrow> settled t k \<Longrightarrow> settled t (if b then j else k)"
  by simp

lemma settled_map [settled_rules]: "(\<And>i. settled t (f i)) \<Longrightarrow> settled t (job_map f is)"
  by (induction "is") (auto intro: settled_rules)

lemma settled_case_prod [settled_rules]: "(\<And>x y. settled t (f x y)) \<Longrightarrow> settled t (case p of (x, y) \<Rightarrow> f x y)"
  by (cases p) simp

lemma settled_case_option [settled_rules]:
  "settled t j \<Longrightarrow> (\<And>x. settled t (f x)) \<Longrightarrow> settled t (case v of None \<Rightarrow> j | Some x \<Rightarrow> f x)"
  by (cases v) simp_all

lemma settled_build_layout: "settled t (build_layout qs moves t)"
  unfolding build_layout_def layout_below_def assemble_layout_def measure_x_extent_def place_headings_def measure_dates_def measure_axis_labels_def
    place_y_tick_def place_x_tick_def Let_def
  by (intro settled_rules)

lemma settled_same:
  assumes "settled t j" "right_sizes (typography t) cache" "right_sizes (typography t) cache'"
  shows "fst (j cache) = fst (j cache') \<and> right_sizes (typography t) (snd (j cache))"
proof -
  from assms(1) obtain r where r: "fonts.pure_as (typography t) j r" by (auto simp: settled_def)
  from fonts.pure_asD [OF r assms(2)] fonts.pure_asD [OF r assms(3)] fonts.pure_as_keeps [OF r assms(2)]
  show ?thesis by simp
qed

lemma settled_triple:
  assumes "settled t j" "triple (right_sizes (typography t)) j E (\<lambda>x c. Q x)"
  shows "triple (right_sizes (typography t)) j E (\<lambda>x c. right_sizes (typography t) c \<and> Q x)"
proof -
  from assms(1) obtain r where r: "fonts.pure_as (typography t) j r" by (auto simp: settled_def)
  with assms(2) show ?thesis
    by (fastforce simp: triple_def fonts.pure_as_def split: prod.splits sum.splits)
qed

text \<open>The font cache is transparent: two caches that hold nothing wrong give the same layout,
  or the same error, and both still hold nothing wrong.\<close>

theorem layout_ignores_cache:
  assumes "right_sizes (typography t) cache" "right_sizes (typography t) cache'"
  shows "fst (build_layout qs moves t cache) = fst (build_layout qs moves t cache') \<and>
    right_sizes (typography t) (snd (build_layout qs moves t cache))"
  by (rule settled_same [OF settled_build_layout assms])

theorem layout_ignores_cache_witness:
  "fst (build_layout [] [] default_theme []) =
     fst (build_layout [] [] default_theme (snd (measure_in default_theme ''data'' 18 NoRotation [])))"
  unfolding measure_in_def
  by (rule layout_ignores_cache [OF right_sizes_Nil fonts.pure_as_keeps [OF pure_measure right_sizes_Nil], THEN conjunct1])

section \<open>The dates shown\<close>

text \<open>Pushing the values of a monotone function, without repeating the last one.\<close>

lemma fold_push_new:
  assumes "0 < m" "\<And>i j. i \<le> j \<Longrightarrow> j < m \<Longrightarrow> f i \<le> f j"
  shows "ascending (foldl (\<lambda>out k. push_new out (f k)) [] [0..<m]) \<and>
    foldl (\<lambda>out k. push_new out (f k)) [] [0..<m] \<noteq> [] \<and>
    hd (foldl (\<lambda>out k. push_new out (f k)) [] [0..<m]) = f 0 \<and>
    last (foldl (\<lambda>out k. push_new out (f k)) [] [0..<m]) = f (m - 1) \<and>
    length (foldl (\<lambda>out k. push_new out (f k)) [] [0..<m]) \<le> m"
  using assms
proof (induction m)
  case (Suc m)
  show ?case
  proof (cases "m = 0")
    case True
    then show ?thesis by (simp add: push_new_def)
  next
    case False
    define out where "out = foldl (\<lambda>out k. push_new out (f k)) [] [0..<m]"
    from False Suc have IH: "ascending out" "out \<noteq> []" "hd out = f 0" "last out = f (m - 1)" "length out \<le> m"
      by (simp_all add: out_def)
    have le: "f (m - 1) \<le> f m" using Suc.prems(2) [of "m - 1" m] by simp
    have "x \<le> last out" if "x \<in> set out" for x
      using that IH(1,2) by (induction out rule: rev_induct) (auto simp: sorted_wrt_append)
    with IH(4) le have "x < f m" if "x \<in> set out" "last out \<noteq> f m" for x
      using that by fastforce
    with IH have "ascending (push_new out (f m))"
      by (auto simp: push_new_def sorted_wrt_append)
    moreover have "foldl (\<lambda>out k. push_new out (f k)) [] [0..<Suc m] = push_new out (f m)"
      by (simp add: out_def)
    ultimately show ?thesis
      using IH by (simp only: diff_Suc_1) (simp add: push_new_def)
  qed
qed simp

lemma spaced_index_eq:
  assumes "n \<le> 2 ^ 26" "target \<le> n" "k < target" "2 \<le> target"
  shows "spaced_index n target k = nat (round_away (rnd (of_int (int (k * (n - 1))) / of_int (int (target - 1)))))"
    and "rnd (of_int (int (k * (n - 1))) / of_int (int (target - 1))) \<le> of_int (int (n - 1))"
proof -
  have b: "k \<le> target - 1" "n - 1 \<le> 2 ^ 26" "k \<le> 2 ^ 26" using assms by auto
  then have "k * (n - 1) \<le> 2 ^ 26 * 2 ^ 26" by (intro mult_le_mono) auto
  then have kn: "k * (n - 1) < 2 ^ 53" by simp
  have small: "n - 1 < 2 ^ 53" "k < 2 ^ 53" "target - 1 < 2 ^ 53" using assms by auto
  let ?q = "of_int (int (k * (n - 1))) / of_int (int (target - 1)) :: rat"
  have t: "0 < int (target - 1)" using assms by simp
  have "k * (n - 1) \<le> (target - 1) * (n - 1)" using b by (intro mult_le_mono) auto
  then have "int (k * (n - 1)) \<le> int (n - 1) * int (target - 1)"
    by (metis mult.commute of_nat_le_iff of_nat_mult)
  then have "(of_int (int (k * (n - 1))) :: rat) \<le> of_int (int (n - 1) * int (target - 1))"
    by (simp only: of_int_le_iff)
  with t have q: "?q \<le> of_int (int (n - 1))" by (simp add: divide_le_eq)
  have q0: "0 \<le> ?q" by simp
  have n53: "int (n - 1) \<le> 2 ^ 53"
    using small(1) by (metis less_imp_le of_nat_le_iff of_nat_numeral of_nat_power)
  from q q0 have abs: "\<bar>?q\<bar> \<le> of_int (int (n - 1))" by simp
  show le: "rnd ?q \<le> of_int (int (n - 1))"
    using rnd_mono [OF q] rnd_of_int [of "int (n - 1)"] n53 by simp
  have "f_mul (usize_f64 k) (usize_f64 (n - 1)) = usize_f64 (k * (n - 1))"
    unfolding usize_f64_small [OF small(1)] usize_f64_small [OF small(2)]
    by (simp only: f_mul.simps of_int_f64_def of_nat_mult of_int_mult of_int_of_nat_eq)
  then have "f_div (f_mul (usize_f64 k) (usize_f64 (n - 1))) (usize_f64 (target - 1)) = to_f64 ?q"
    using t by (simp only: usize_f64_small [OF kn] usize_f64_small [OF small(3)] f_div.simps) simp
  also have "\<dots> = Fin (rnd ?q)" by (rule to_f64_le [OF abs n53])
  finally have eq: "spaced_index n target k = as_usize (Fin (of_int (round_away (rnd ?q))))"
    by (simp add: spaced_index_def f_round_def)
  have "0 \<le> round_away (rnd ?q)" "round_away (rnd ?q) \<le> int (n - 1)"
    using round_away_mono [OF rnd_nonneg [OF q0]] round_away_of_int [of 0] round_away_mono [OF le]
    by (simp_all only: of_int_0 round_away_of_int)
  with small(1) show "spaced_index n target k = nat (round_away (rnd ?q))"
    unfolding eq by (simp add: as_usize_def)
qed

lemma spaced_index_props:
  assumes "n \<le> 2 ^ 26" "target \<le> n" "2 \<le> target"
  shows "i \<le> j \<Longrightarrow> j < target \<Longrightarrow> spaced_index n target i \<le> spaced_index n target j"
    and "spaced_index n target 0 = 0"
    and "spaced_index n target (target - 1) = n - 1"
proof -
  note eq = spaced_index_eq(1) [OF assms(1,2) _ assms(3)]
  show "spaced_index n target i \<le> spaced_index n target j" if "i \<le> j" "j < target"
  proof -
    have "i * (n - 1) \<le> j * (n - 1)" using that by simp
    then have "int (i * (n - 1)) \<le> int (j * (n - 1))" by (simp only: of_nat_le_iff)
    then have "(of_int (int (i * (n - 1))) :: rat) \<le> of_int (int (j * (n - 1)))" by (simp only: of_int_le_iff)
    then have "(of_int (int (i * (n - 1))) :: rat) / of_int (int (target - 1)) \<le> of_int (int (j * (n - 1))) / of_int (int (target - 1))"
      by (rule divide_right_mono) simp
    with that show ?thesis by (simp only: eq le_less_trans [OF that]) (intro nat_mono round_away_mono rnd_mono)
  qed
  show "spaced_index n target 0 = 0"
    using assms(3) eq [of 0] round_away_of_int [of 0] fl64.fl_0 by simp
  have "(of_int (int ((target - 1) * (n - 1))) :: rat) / of_int (int (target - 1)) = of_int (int (n - 1))"
    using assms(3) by (simp only: of_nat_mult of_int_mult) simp
  moreover have "\<bar>int (n - 1)\<bar> \<le> 2 ^ 53" using assms(1) by simp
  ultimately show "spaced_index n target (target - 1) = n - 1"
    using assms(3) eq [of "target - 1"] rnd_of_int [of "int (n - 1)"] by simp
qed

lemma chosen_spread:
  assumes "2 \<le> n" "n \<le> 2 ^ 26"
  shows "ascending (choose_evenly_spaced_indices n max_labels w gap) \<and>
    hd (choose_evenly_spaced_indices n max_labels w gap) = 0 \<and>
    last (choose_evenly_spaced_indices n max_labels w gap) = n - 1 \<and>
    (\<forall>i\<in>set (choose_evenly_spaced_indices n max_labels w gap). i < n) \<and>
    length (choose_evenly_spaced_indices n max_labels w gap) \<le> label_target n max_labels w gap"
proof -
  define target where "target = label_target n max_labels w gap"
  from assms(1) have t: "2 \<le> target" "target \<le> n" by (auto simp: target_def label_target_def Let_def)
  note sp = spaced_index_props [OF assms(2) t(2,1)]
  define out where "out = foldl (\<lambda>out k. push_new out (spaced_index n target k)) [] [0..<target]"
  have out: "ascending out" "out \<noteq> []" "hd out = 0" "last out = n - 1" "length out \<le> target"
    using fold_push_new [of target "spaced_index n target", OF _ sp(1)] t sp(2,3) by (simp_all add: out_def)
  have eq: "choose_evenly_spaced_indices n max_labels w gap = (if target = 2 then [0, n - 1] else out)"
    using assms(1) out(2-4) unfolding choose_evenly_spaced_indices_def target_def [symmetric] Let_def out_def [symmetric]
    by simp
  have "i < n" if "i \<in> set out" for i
  proof -
    from that out(1,2) have "i \<le> last out" by (induction out rule: rev_induct) (auto simp: sorted_wrt_append)
    with out(4) assms(1) show ?thesis by simp
  qed
  with out t assms(1) show ?thesis
    unfolding eq target_def [symmetric] by auto
qed

lemma chosen_below: "2 \<le> n \<Longrightarrow> n \<le> 2 ^ 26 \<Longrightarrow> i \<in> set (choose_evenly_spaced_indices n m w gap) \<Longrightarrow> i < n"
  using chosen_spread by blast

text \<open>The dates labelled below the chart: strictly ascending indices of the quotes, the first
  and the last among them, and never more of them than the theme's maximum (but two) and the
  room allow.\<close>

theorem date_labels_spread:
  assumes "2 \<le> n" "n \<le> 2 ^ 26"
  shows "ascending (choose_evenly_spaced_indices n max_labels w gap) \<and>
    hd (choose_evenly_spaced_indices n max_labels w gap) = 0 \<and>
    last (choose_evenly_spaced_indices n max_labels w gap) = n - 1 \<and>
    (\<forall>i\<in>set (choose_evenly_spaced_indices n max_labels w gap). i < n) \<and>
    length (choose_evenly_spaced_indices n max_labels w gap) \<le> label_target n max_labels w gap"
  using assms by (rule chosen_spread)

theorem date_labels_spread_witness:
  "ascending (choose_evenly_spaced_indices 90 8 1100 38) \<and> last (choose_evenly_spaced_indices 90 8 1100 38) = 89"
  using date_labels_spread [of 90 8 1100 38] by simp

section \<open>The price axis\<close>

lemma tdiv_neg: "a < 0 \<Longrightarrow> 0 < b \<Longrightarrow> tdiv a b = - ((- a) div b)"
  by (simp add: tdiv_def)

lemma div_ceil_bounds:
  assumes "0 < b" "- (2 ^ 31) \<le> a" "a + b - 1 < 2 ^ 31"
  shows "a \<le> div_ceil a b * b" and "div_ceil a b * b < a + b"
proof -
  have "a \<le> div_ceil a b * b \<and> div_ceil a b * b < a + b"
  proof (cases "0 \<le> a")
    case True
    with assms have "div_ceil a b * b = (a + b - 1) div b * b" by (simp add: div_ceil_def in_i32_def)
    moreover have "(a + b - 1) div b * b + (a + b - 1) mod b = a + b - 1" by simp
    moreover have "0 \<le> (a + b - 1) mod b" "(a + b - 1) mod b < b" using assms(1) by simp_all
    ultimately show ?thesis by (intro conjI; linarith)
  next
    case False
    then have "div_ceil a b * b = - ((- a) div b * b)" using assms(1) by (simp add: div_ceil_def tdiv_neg)
    moreover have "(- a) div b * b + (- a) mod b = - a" by simp
    moreover have "0 \<le> (- a) mod b" "(- a) mod b < b" using assms(1) by simp_all
    ultimately show ?thesis by (intro conjI; linarith)
  qed
  then show "a \<le> div_ceil a b * b" and "div_ceil a b * b < a + b" by simp_all
qed

lemma tick_loop_stops:
  assumes "0 < tick" "y_max + tick < 2 ^ 31" "- (2 ^ 31) \<le> c"
  shows "\<exists>cs. tick_loop y_max tick c = Some cs \<and> ascending cs \<and>
    set cs = {x. c \<le> x \<and> x \<le> y_max \<and> tick dvd x - c}"
  using assms(3)
proof (induction "nat (y_max + tick - c)" arbitrary: c rule: less_induct)
  case less
  show ?case
  proof (cases "c \<le> y_max")
    case False
    then show ?thesis by (subst tick_loop.simps) auto
  next
    case True
    with assms less.prems have w: "i32 (c + tick) = c + tick" by (simp add: in_i32_def)
    from True assms less.prems less.hyps [of "c + tick"]
    obtain cs where cs: "tick_loop y_max tick (c + tick) = Some cs" "ascending cs"
      "set cs = {x. c + tick \<le> x \<and> x \<le> y_max \<and> tick dvd x - (c + tick)}" by auto
    have step: "tick dvd x - (c + tick) \<longleftrightarrow> tick dvd x - c" for x
      by (metis diff_diff_eq dvd_diff_right_iff dvd_refl diff_add_cancel dvd_add_right_iff add.commute)
    have "x = c \<or> c + tick \<le> x" if "c \<le> x" "tick dvd x - c" for x
      using that assms(1) zdvd_imp_le [of tick "x - c"] by (cases "x = c") auto
    with cs(3) True assms(1) have "set (c # cs) = {x. c \<le> x \<and> x \<le> y_max \<and> tick dvd x - c}"
      by (auto simp: step)
    moreover from cs(2,3) assms(1) have "ascending (c # cs)" by auto
    moreover have "tick_loop y_max tick c = Some (c # cs)"
      using True cs(1) w by (subst tick_loop.simps) simp
    ultimately show ?thesis by blast
  qed
qed

lemma nice_cent_tick_pos: "0 < nice_cent_tick n" "nice_cent_tick n \<le> 50"
  by (simp_all add: nice_cent_tick_def)

lemma price_ticks_exist:
  assumes "- (10 ^ 9) \<le> y_min" "y_min \<le> y_max" "y_max \<le> 10 ^ 9"
  shows "\<exists>cs. build_y_tick_cents y_min y_max = Some cs \<and> ascending cs \<and>
    set cs = {c. y_min \<le> c \<and> c \<le> y_max \<and> nice_cent_tick (max (y_max - y_min) 1) dvd c}"
proof -
  define tick where "tick = nice_cent_tick (max (y_max - y_min) 1)"
  have tick: "0 < tick" "tick \<le> 50" by (simp_all add: tick_def nice_cent_tick_pos)
  define first where "first = div_ceil y_min tick * tick"
  from div_ceil_bounds [of tick y_min] tick assms have first: "y_min \<le> first" "first < y_min + tick"
    by (simp_all add: first_def)
  have w: "i32 (y_max - y_min) = y_max - y_min" "i32 (div_ceil y_min tick * tick) = first"
    using first tick assms by (simp_all add: in_i32_def first_def [symmetric])
  have "build_y_tick_cents y_min y_max = tick_loop y_max tick first"
    using w by (simp add: build_y_tick_cents_def Let_def tick_def)
  moreover from tick_loop_stops [of tick y_max first] tick first assms
  obtain cs where "tick_loop y_max tick first = Some cs" "ascending cs"
    "set cs = {x. first \<le> x \<and> x \<le> y_max \<and> tick dvd x - first}" by auto
  moreover have "first \<le> x \<and> tick dvd x - first \<longleftrightarrow> y_min \<le> x \<and> tick dvd x" for x
  proof -
    have "tick dvd first" by (simp add: first_def)
    then have "tick dvd x - first \<longleftrightarrow> tick dvd x" by (metis dvd_diff_right_iff diff_diff_eq2 dvd_diff_commute
      dvd_add_left_iff diff_add_cancel)
    moreover have "first \<le> x" if "y_min \<le> x" "tick dvd x - first"
      using that first zdvd_imp_le [of tick "first - x"] by (cases "first \<le> x") (auto simp: dvd_diff_commute)
    ultimately show ?thesis using first(1) by auto
  qed
  ultimately show ?thesis
    unfolding tick_def [symmetric] by auto
qed

text \<open>
  Where the counter is compared with the largest \<open>i32\<close> the loop has no way out: the wrapped
  counter never exceeds it.
\<close>

lemma tick_loop_hangs:
  assumes "c \<le> 2147483647"
  shows "tick_loop 2147483647 tick c = None"
proof (rule ccontr)
  assume "\<not> ?thesis"
  then obtain cs where cs: "tick_loop 2147483647 tick c = Some cs" by blast
  have "y_max = 2147483647 \<longrightarrow> 2147483647 < c" if "tick_loop y_max tick c = Some cs" for y_max
  proof (rule tick_loop.raw_induct [where P = "\<lambda>y_max tick c cs. y_max = 2147483647 \<longrightarrow> 2147483647 < c", OF _ that])
    fix f y_max tick c cs
    assume IH: "\<And>y_max tick c cs. f y_max tick c = Some cs \<Longrightarrow> y_max = 2147483647 \<longrightarrow> 2147483647 < c"
      and eq: "(if c \<le> y_max then Option.bind (f y_max tick (i32 (c + tick))) (\<lambda>cs. Some (c # cs)) else Some []) = Some cs"
    show "y_max = 2147483647 \<longrightarrow> 2147483647 < c"
    proof (cases "c \<le> y_max")
      case True
      with eq obtain cs' where "f y_max tick (i32 (c + tick)) = Some cs'" by (auto split: bind_splits)
      from IH [OF this] show ?thesis using in_i32_i32 [of "c + tick"] by (auto simp: in_i32_def)
    qed auto
  qed
  with cs assms show False by fastforce
qed

lemma price_ticks_hang: "build_y_tick_cents y_min 2147483647 = None"
  unfolding build_y_tick_cents_def Let_def
  using in_i32_i32 [of "div_ceil y_min (nice_cent_tick (max (i32 (2147483647 - y_min)) 1)) * nice_cent_tick (max (i32 (2147483647 - y_min)) 1)"]
  by (intro tick_loop_hangs) (simp add: in_i32_def)

text \<open>C31: The price axis is labelled: for a price range that is not turned around and lies within
  ten million reais of zero the loop ends, and its ticks are, in ascending order, exactly the
  multiples of the nice step within the range.\<close>

theorem price_ticks_complete:
  assumes "- (10 ^ 9) \<le> y_min" "y_min \<le> y_max" "y_max \<le> 10 ^ 9"
  shows "\<exists>cs. build_y_tick_cents y_min y_max = Some cs \<and> ascending cs \<and>
    set cs = {c. y_min \<le> c \<and> c \<le> y_max \<and> nice_cent_tick (max (y_max - y_min) 1) dvd c}"
  using assms by (rule price_ticks_exist)

theorem price_ticks_complete_witness:
  "\<exists>cs. build_y_tick_cents (- 7) 9 = Some cs \<and> set cs = {c. - 7 \<le> c \<and> c \<le> 9 \<and> nice_cent_tick 16 dvd c}"
  using price_ticks_complete [of "- 7" 9] by auto

end
