(* ===== verification/LayoutBounds.thy ===== *)
theory LayoutBounds
  imports Layout
begin

text \<open>
  What a layout guarantees for the themes and prices it is meant for: \<open>sane_theme\<close> bounds the
  sizes of a theme, \<open>sane_quotes\<close> the prices and dates. No coordinate wraps then, the layout
  neither panics nor hangs, and the plot and its ticks lie inside the canvas.
\<close>

section \<open>Sane inputs\<close>

definition small :: "int \<Rightarrow> bool" where
  "small x \<longleftrightarrow> 0 \<le> x \<and> x \<le> 1000"

definition sane_layout :: "layout_theme \<Rightarrow> bool" where
  "sane_layout l \<longleftrightarrow>
     list_all small [outer_left_px l, outer_right_px l, outer_top_px l, outer_bottom_px l,
       title_to_subtitle_gap_px l, subtitle_to_plot_gap_px l, y_tick_label_to_axis_gap_px l,
       x_tick_to_label_gap_px l, x_labels_to_axis_labels_gap_px l, axis_label_to_canvas_edge_gap_px l,
       plot_min_inner_top_gap_px l, plot_min_inner_bottom_gap_px l, movement_label_canvas_gap_px l,
       min_x_tick_label_gap_px l]"

definition sane_fonts :: "typography_theme \<Rightarrow> bool" where
  "sane_fonts ty \<longleftrightarrow> readable ty \<and>
     list_all (\<lambda>px. unat px \<le> 1000) [title_font_px ty, subtitle_font_px ty, axis_tick_font_px ty,
       axis_label_font_px ty, movement_label_font_px ty]"

definition sane_scale :: "scale_theme \<Rightarrow> bool" where
  "sane_scale s \<longleftrightarrow> 1 \<le> padding_cents s \<and> padding_cents s \<le> 1000 \<and>
     1 \<le> min_px_per_cent s \<and> min_px_per_cent s \<le> max_px_per_cent s \<and> max_px_per_cent s \<le> 1000 \<and>
     (case force_px_per_cent s of None \<Rightarrow> True | Some px \<Rightarrow> 1 \<le> px \<and> px \<le> 1000)"

definition sane_theme :: "theme \<Rightarrow> bool" where
  "sane_theme t \<longleftrightarrow> sane_layout (layout_t t) \<and> sane_fonts (typography t) \<and> sane_scale (scale_t t) \<and>
     small (x_tick_length_px (axis_t t)) \<and>
     0 \<le> sint (canvas_width (canvas t)) \<and> sint (canvas_width (canvas t)) \<le> 2 ^ 14 \<and>
     0 \<le> sint (canvas_height (canvas t)) \<and> sint (canvas_height (canvas t)) \<le> 2 ^ 14"

definition sane_quote :: "quote \<Rightarrow> bool" where
  "sane_quote q \<longleftrightarrow> (case usd_brl q of Fin p \<Rightarrow> \<bar>p\<bar> \<le> 10000 | _ \<Rightarrow> False) \<and>
     day (q_date q) < 100 \<and> month (q_date q) < 100"

definition sane_quotes :: "quote list \<Rightarrow> bool" where
  "sane_quotes qs \<longleftrightarrow> list_all sane_quote qs \<and> length qs \<le> 2 ^ 26"

lemma default_theme_sane: "sane_theme default_theme"
proof -
  have "0 \<le> rnd (62 / 100)" "rnd (62 / 100) \<le> 1" "0 \<le> rnd (118 / 100)" "rnd (118 / 100) \<le> 2"
    using rnd_nonneg [of "62 / 100"] rnd_mono [of "62 / 100" 1] rnd_nonneg [of "118 / 100"] rnd_mono [of "118 / 100" 2]
      rnd_of_int [of 1] rnd_of_int [of 2] by simp_all
  moreover have "to_f64 (62 / 100) = Fin (rnd (62 / 100))" "to_f64 (118 / 100) = Fin (rnd (118 / 100))"
    by (rule to_f64_le [of _ 2]; simp)+
  ultimately have "readable (typography default_theme)"
    by (auto simp: readable_def default_theme_def)
  then show ?thesis
    by (simp add: sane_theme_def sane_layout_def sane_fonts_def sane_scale_def small_def default_theme_def default_layout_def)
qed

section \<open>Bounds on measured texts\<close>

lemma sane_small: "sane_layout l \<Longrightarrow> 0 \<le> outer_left_px l \<and> outer_left_px l \<le> 1000 \<and> 0 \<le> outer_right_px l \<and> outer_right_px l \<le> 1000 \<and>
    0 \<le> outer_top_px l \<and> outer_top_px l \<le> 1000 \<and> 0 \<le> outer_bottom_px l \<and> outer_bottom_px l \<le> 1000 \<and>
    0 \<le> title_to_subtitle_gap_px l \<and> title_to_subtitle_gap_px l \<le> 1000 \<and>
    0 \<le> subtitle_to_plot_gap_px l \<and> subtitle_to_plot_gap_px l \<le> 1000 \<and>
    0 \<le> y_tick_label_to_axis_gap_px l \<and> y_tick_label_to_axis_gap_px l \<le> 1000 \<and>
    0 \<le> x_tick_to_label_gap_px l \<and> x_tick_to_label_gap_px l \<le> 1000 \<and>
    0 \<le> x_labels_to_axis_labels_gap_px l \<and> x_labels_to_axis_labels_gap_px l \<le> 1000 \<and>
    0 \<le> axis_label_to_canvas_edge_gap_px l \<and> axis_label_to_canvas_edge_gap_px l \<le> 1000 \<and>
    0 \<le> plot_min_inner_top_gap_px l \<and> plot_min_inner_top_gap_px l \<le> 1000 \<and>
    0 \<le> plot_min_inner_bottom_gap_px l \<and> plot_min_inner_bottom_gap_px l \<le> 1000"
  by (simp add: sane_layout_def small_def)

lemma triple_measure_in:
  "triple (right_sizes (typography t)) (measure_in t s px rot) E
     (\<lambda>b cache. right_sizes (typography t) cache \<and> b = text_size (typography t) s px rot)"
  unfolding triple_def
proof (intro allI impI)
  fix cache assume "right_sizes (typography t) cache"
  with pure_measure [of "typography t" s px rot] obtain cache' where
    "measure_in t s px rot cache = (Inr (text_size (typography t) s px rot), cache')"
    "right_sizes (typography t) cache'"
    unfolding fonts.pure_as_def measure_in_def by (metis prod.collapse)
  then show "case measure_in t s px rot cache of
      (Inl e, _) \<Rightarrow> E e
    | (Inr b, cache) \<Rightarrow> right_sizes (typography t) cache \<and> b = text_size (typography t) s px rot"
    by simp
qed

lemma length_format_brl_cent:
  assumes "\<bar>c\<bar> \<le> 10 ^ 9"
  shows "length (format_brl_cent c) \<le> 17"
proof -
  from assms have a: "i32 \<bar>c\<bar> = \<bar>c\<bar>" by (simp add: in_i32_def)
  have digits: "length (show_int k) \<le> w" if "0 \<le> k" "nat k < 10 ^ w" "0 < w" for k :: int and w
    using that unfolding show_int_def show_nat_def by (simp add: length_to_base)
  have "\<bar>c\<bar> div 100 < 10 ^ 10" using assms by simp
  then have "length (show_int (\<bar>c\<bar> div 100)) \<le> 10"
    by (intro digits) simp_all
  moreover have "length (show_int (\<bar>c\<bar> mod 100)) \<le> 2"
    by (intro digits) simp_all
  moreover have "length (format_brl_cent c) \<le> 1 + 3 + length (show_int (\<bar>c\<bar> div 100)) + 1 + max 2 (length (show_int (\<bar>c\<bar> mod 100)))"
    unfolding format_brl_cent_def Let_def a by simp
  ultimately show ?thesis by simp
qed

lemma length_date_label: "day d < 100 \<Longrightarrow> month d < 100 \<Longrightarrow> length (date_label d) = 5"
proof -
  have *: "length (two_digits n) = 2" if "n < 100" for n
  proof -
    from that have "length (show_nat n) \<le> 2" unfolding show_nat_def by (intro length_to_base) simp_all
    then show ?thesis by (simp add: two_digits_def)
  qed
  show "day d < 100 \<Longrightarrow> month d < 100 \<Longrightarrow> length (date_label d) = 5"
    by (simp add: date_label_def *)
qed

lemma max_or_0_bounds: "(\<And>x. x \<in> set xs \<Longrightarrow> 0 \<le> x \<and> x \<le> b) \<Longrightarrow> 0 \<le> b \<Longrightarrow> 0 \<le> max_or_0 xs \<and> max_or_0 xs \<le> b"
  unfolding max_or_0_def by (auto simp: Max_ge_iff) (metis list.set_intros(1) neq_Nil_conv)

section \<open>The range of prices\<close>

definition price :: "quote \<Rightarrow> rat" where
  "price q = (case usd_brl q of Fin p \<Rightarrow> p | _ \<Rightarrow> 0)"

lemma sane_price: "sane_quote q \<Longrightarrow> usd_brl q = Fin (price q) \<and> \<bar>price q\<bar> \<le> 10000"
  by (auto simp: sane_quote_def price_def split: f64.splits)

lemma fold_min: "foldl f_min (Fin a) (map Fin ps) = Fin (foldl min a ps)"
  by (induction ps arbitrary: a) (auto simp: f_min_def min_def)

lemma fold_max: "foldl f_max (Fin a) (map Fin ps) = Fin (foldl max a ps)"
  by (induction ps arbitrary: a) (auto simp: f_max_def max_def)

lemma foldl_min_le: "foldl min a ps \<le> a \<and> (\<forall>p\<in>set ps. foldl min a ps \<le> p) \<and> foldl min a ps \<in> insert a (set ps)"
  for a :: "'a :: linorder"
proof (induction ps arbitrary: a)
  case (Cons p ps)
  from Cons.IH [of "min a p"] show ?case by (auto simp: min_def split: if_splits)
qed simp

lemma foldl_max_ge: "a \<le> foldl max a ps \<and> (\<forall>p\<in>set ps. p \<le> foldl max a ps) \<and> foldl max a ps \<in> insert a (set ps)"
  for a :: "'a :: linorder"
proof (induction ps arbitrary: a)
  case (Cons p ps)
  from Cons.IH [of "max a p"] show ?case by (auto simp: max_def split: if_splits)
qed simp

text \<open>A price in cents, rounded as the code rounds it.\<close>

lemma cents_Fin:
  assumes "\<bar>p\<bar> \<le> 10000"
  shows "f_mul (Fin p) (Fin 100) = Fin (rnd (p * 100))" and "\<bar>rnd (p * 100)\<bar> \<le> of_int (10 ^ 6)"
proof -
  from assms have "\<bar>p * 100\<bar> \<le> of_int (10 ^ 6)" by (simp add: abs_mult)
  from to_f64_le [OF this] rnd_abs_le [OF this]
  show "f_mul (Fin p) (Fin 100) = Fin (rnd (p * 100))" and "\<bar>rnd (p * 100)\<bar> \<le> of_int (10 ^ 6)" by simp_all
qed

lemma y_range_sane:
  assumes "sane_quotes qs" "qs \<noteq> []" "sane_scale (scale_t t)"
  shows "fst (y_range t qs) < snd (y_range t qs)"
    and "- 1002000 \<le> fst (y_range t qs)" and "snd (y_range t qs) \<le> 1002000"
    and "\<And>q. q \<in> set qs \<Longrightarrow> of_int (fst (y_range t qs)) \<le> rnd (price q * 100) \<and> rnd (price q * 100) \<le> of_int (snd (y_range t qs))"
    and "\<And>a b. (\<And>q. q \<in> set qs \<Longrightarrow> of_int a \<le> price q * 100 \<and> price q * 100 \<le> of_int b) \<Longrightarrow> \<bar>a\<bar> \<le> 2 ^ 53 \<Longrightarrow> \<bar>b\<bar> \<le> 2 ^ 53 \<Longrightarrow>
      snd (y_range t qs) - fst (y_range t qs) \<le> b - a + 2 * padding_cents (scale_t t)"
proof -
  from assms(2) obtain q0 qs' where qs: "qs = q0 # qs'" by (cases qs) auto
  from assms(1) have sane: "usd_brl q = Fin (price q)" "\<bar>price q\<bar> \<le> 10000" if "q \<in> set qs" for q
    using that sane_price [of q] by (auto simp: sane_quotes_def list_all_iff)
  then have prices: "map usd_brl qs = map Fin (map price qs)" by simp
  define lo where "lo = foldl min (price q0) (map price qs')"
  define hi where "hi = foldl max (price q0) (map price qs')"
  have lo: "lo \<in> price ` set qs" "\<And>q. q \<in> set qs \<Longrightarrow> lo \<le> price q"
    using foldl_min_le [of "price q0" "map price qs'"] by (auto simp: lo_def qs)
  have hi: "hi \<in> price ` set qs" "\<And>q. q \<in> set qs \<Longrightarrow> price q \<le> hi"
    using foldl_max_ge [of "price q0" "map price qs'"] by (auto simp: hi_def qs)
  have folds: "foldl f_min PInf (map usd_brl qs) = Fin lo" "foldl f_max NInf (map usd_brl qs) = Fin hi"
    unfolding prices by (simp_all add: qs f_min_def f_max_def fold_min fold_max lo_def hi_def del: map_map)
  from lo(1) hi(1) sane(2) have b: "\<bar>lo\<bar> \<le> 10000" "\<bar>hi\<bar> \<le> 10000" by auto
  note cl = cents_Fin [OF b(1)] and ch = cents_Fin [OF b(2)]
  define L where "L = \<lfloor>rnd (lo * 100)\<rfloor>"
  define H where "H = \<lceil>rnd (hi * 100)\<rceil>"
  have "- of_int (10 ^ 6) \<le> rnd (lo * 100)" "rnd (lo * 100) \<le> of_int (10 ^ 6)"
    "- of_int (10 ^ 6) \<le> rnd (hi * 100)" "rnd (hi * 100) \<le> of_int (10 ^ 6)"
    using cl(2) ch(2) by (simp_all add: abs_le_iff)
  then have LH: "- (10 ^ 6) \<le> L" "L \<le> 10 ^ 6" "- (10 ^ 6) \<le> H" "H \<le> 10 ^ 6"
    unfolding L_def H_def by (simp_all add: le_floor_iff floor_le_iff ceiling_le_iff le_ceiling_iff)
  from assms(3) have pad: "1 \<le> padding_cents (scale_t t)" "padding_cents (scale_t t) \<le> 1000"
    by (simp_all add: sane_scale_def)
  have "as_i32 (f_floor (f_mul (Fin lo) (Fin 100))) = L" "as_i32 (f_ceil (f_mul (Fin hi) (Fin 100))) = H"
    unfolding cl(1) ch(1) using LH by (simp_all add: as_i32_def f_floor_def f_ceil_def L_def [symmetric] H_def [symmetric])
  with folds LH pad have yr: "y_range t qs = (L - padding_cents (scale_t t), H + padding_cents (scale_t t))"
    by (simp add: y_range_def Let_def in_i32_def)
  have mid: "of_int L \<le> rnd (price q * 100)" "rnd (price q * 100) \<le> of_int H" if "q \<in> set qs" for q
  proof -
    have "rnd (lo * 100) \<le> rnd (price q * 100)" "rnd (price q * 100) \<le> rnd (hi * 100)"
      using lo(2) hi(2) that by (simp_all add: rnd_mono)
    then show "of_int L \<le> rnd (price q * 100)" "rnd (price q * 100) \<le> of_int H"
      unfolding L_def H_def by linarith+
  qed
  have "of_int L \<le> (of_int H :: rat)" using mid [of q0] by (simp add: qs)
  then have "L \<le> H" by simp
  with LH pad show "fst (y_range t qs) < snd (y_range t qs)" "- 1002000 \<le> fst (y_range t qs)" "snd (y_range t qs) \<le> 1002000"
    by (simp_all add: yr)
  show "of_int (fst (y_range t qs)) \<le> rnd (price q * 100) \<and> rnd (price q * 100) \<le> of_int (snd (y_range t qs))"
    if "q \<in> set qs" for q
    using mid [OF that] pad by (simp add: yr)
  show "snd (y_range t qs) - fst (y_range t qs) \<le> b - a + 2 * padding_cents (scale_t t)"
    if within: "\<And>q. q \<in> set qs \<Longrightarrow> of_int a \<le> price q * 100 \<and> price q * 100 \<le> of_int b" and ab: "\<bar>a\<bar> \<le> 2 ^ 53" "\<bar>b\<bar> \<le> 2 ^ 53" for a b
  proof -
    from lo(1) hi(1) within have "of_int a \<le> lo * 100" "hi * 100 \<le> of_int b" by auto
    then have "of_int a \<le> rnd (lo * 100)" "rnd (hi * 100) \<le> of_int b"
      using rnd_mono [of "of_int a" "lo * 100"] rnd_mono [of "hi * 100" "of_int b"] rnd_of_int ab by simp_all
    then have "a \<le> L" "H \<le> b" by (simp_all add: L_def H_def le_floor_iff ceiling_le_iff)
    then show ?thesis by (simp add: yr)
  qed
qed

section \<open>Points of the chart\<close>

lemma rnd_between:
  assumes "of_int a \<le> x" "x \<le> of_int b" "- (2 ^ 53) \<le> a" "b \<le> 2 ^ 53"
  shows "of_int a \<le> rnd x" and "rnd x \<le> of_int b" and "to_f64 x = Fin (rnd x)"
proof -
  from assms(1,2) have "(of_int a :: rat) \<le> of_int b" by linarith
  then have ab: "a \<le> b" by simp
  show *: "of_int a \<le> rnd x" "rnd x \<le> of_int b"
    using rnd_mono [OF assms(1)] rnd_mono [OF assms(2)] rnd_of_int [of a] rnd_of_int [of b] assms(3,4) ab by simp_all
  have "\<bar>rnd x\<bar> \<le> of_int (2 ^ 53)"
  proof -
    have "(of_int b :: rat) \<le> of_int (2 ^ 53)" "of_int (- (2 ^ 53)) \<le> (of_int a :: rat)"
      using assms(3,4) by (simp_all only: of_int_le_iff)
    with * show ?thesis by (simp add: abs_le_iff)
  qed
  also have "(of_int (2 ^ 53) :: rat) < 2 ^ 1024" by simp
  finally show "to_f64 x = Fin (rnd x)" by (rule to_f64_Fin)
qed

lemma round_between:
  assumes "of_int a \<le> x" "x \<le> of_int b" "- (2 ^ 31) \<le> a" "b < 2 ^ 31"
  shows "as_i32 (f_round (Fin x)) = round_away x" and "a \<le> round_away x" and "round_away x \<le> b"
proof -
  show *: "a \<le> round_away x" "round_away x \<le> b"
    using round_away_mono [OF assms(1)] round_away_mono [OF assms(2)] by simp_all
  with assms(3,4) show "as_i32 (f_round (Fin x)) = round_away x" by (simp add: as_i32_round_Fin)
qed

lemma y_of_price_inside:
  assumes "\<bar>p\<bar> \<le> 10000" "of_int lo \<le> rnd (p * 100)" "rnd (p * 100) \<le> of_int hi"
    and "- 1002000 \<le> lo" "lo < hi" "hi \<le> 1002000" "1 \<le> px" "(hi - lo) * px \<le> 2 ^ 20" "0 \<le> bottom" "bottom \<le> 2 ^ 20"
  shows "bottom - (hi - lo) * px \<le> y_of_price (Fin p) lo px bottom" and "y_of_price (Fin p) lo px bottom \<le> bottom"
proof -
  have px: "hi - lo \<le> (hi - lo) * px" "px \<le> (hi - lo) * px"
    using assms(5,7) mult_left_mono [of 1 px "hi - lo"] mult_right_mono [of 1 "hi - lo" px] by simp_all
  let ?d = "rnd (p * 100) - of_int lo"
  have d: "of_int 0 \<le> ?d" "?d \<le> of_int (hi - lo)" using assms(2,3) by simp_all
  have "hi - lo \<le> 2 ^ 53" "px \<le> 2 ^ 53" "(hi - lo) * px \<le> 2 ^ 53" using px assms(8) by simp_all
  note b = this
  note r = rnd_between [OF d _ b(1)]
  have sub: "f_sub (f_mul (Fin p) (Fin 100)) (of_int_f64 lo) = Fin (rnd ?d)"
    using r(3) assms(4-6) unfolding cents_Fin(1) [OF assms(1)] by (simp add: f_sub_def of_int_f64_small)
  let ?m = "rnd ?d * of_int px"
  have m: "of_int 0 \<le> ?m" "?m \<le> of_int ((hi - lo) * px)"
    using r(1,2) assms(7) by (simp_all add: mult_right_mono)
  note s = rnd_between [OF m _ b(3)]
  have mul: "f_mul (Fin (rnd ?d)) (of_int_f64 px) = Fin (rnd ?m)"
    using s(3) b(2) assms(7) by (simp add: of_int_f64_small)
  note v = round_between [OF s(1,2)]
  have y: "y_of_price (Fin p) lo px bottom = i32 (bottom - round_away (rnd ?m))"
    using v(1) assms(8) unfolding y_of_price_def Let_def sub mul by simp
  have "0 \<le> round_away (rnd ?m)" "round_away (rnd ?m) \<le> (hi - lo) * px" using v(2,3) assms(8) by simp_all
  with assms(8-10) show "bottom - (hi - lo) * px \<le> y_of_price (Fin p) lo px bottom"
    and "y_of_price (Fin p) lo px bottom \<le> bottom"
    by (simp_all add: y in_i32_def)
qed

lemma x_of_index_inside:
  assumes "2 \<le> n" "n \<le> 2 ^ 26" "i < n" "0 \<le> w" "w \<le> 2 ^ 20" "0 \<le> left" "left \<le> 2 ^ 20"
  shows "x_of_index i n left w = left + round_away (rnd (rnd (of_int (int i) / of_int (int (n - 1))) * of_int w))"
    and "left \<le> x_of_index i n left w" and "x_of_index i n left w \<le> left + w"
proof -
  let ?q = "of_int (int i) / of_int (int (n - 1)) :: rat"
  have n: "0 < int (n - 1)" "int i \<le> int (n - 1)" "i < 2 ^ 53" "n - 1 < 2 ^ 53" using assms(1-3) by simp_all
  have q: "of_int 0 \<le> ?q" "?q \<le> of_int 1" using n(1,2) by (simp_all add: divide_le_eq)
  note r = rnd_between [OF q]
  have div_eq: "f_div (usize_f64 i) (usize_f64 (n - 1)) = Fin (rnd ?q)"
    using n(1) r(3) by (simp only: usize_f64_small [OF n(3)] usize_f64_small [OF n(4)] f_div.simps) simp
  let ?m = "rnd ?q * of_int w"
  have m: "of_int 0 \<le> ?m" "?m \<le> of_int w"
    using r(1,2) assms(4) mult_right_mono [of "rnd ?q" 1 "of_int w"] by simp_all
  note s = rnd_between [OF m]
  have "f_mul (Fin (rnd ?q)) (of_int_f64 w) = Fin (rnd ?m)"
    using s(3) assms(4,5) by (simp add: of_int_f64_small)
  moreover note v = round_between [OF s(1,2)]
  ultimately have "x_of_index i n left w = i32 (left + round_away (rnd ?m))"
    using assms(5) unfolding x_of_index_def div_eq by simp
  moreover have "0 \<le> round_away (rnd ?m)" "round_away (rnd ?m) \<le> w" using v(2,3) assms(5) by simp_all
  ultimately show "x_of_index i n left w = left + round_away (rnd ?m)"
    and "left \<le> x_of_index i n left w" and "x_of_index i n left w \<le> left + w"
    using assms(4-7) by (simp_all add: in_i32_def)
qed

text \<open>The points go from the left edge to the right edge, never backwards.\<close>

lemma x_of_index_mono:
  assumes "2 \<le> n" "n \<le> 2 ^ 26" "i \<le> j" "j < n" "0 \<le> w" "w \<le> 2 ^ 20" "0 \<le> left" "left \<le> 2 ^ 20"
  shows "x_of_index i n left w \<le> x_of_index j n left w"
proof -
  from assms have "0 < int (n - 1)" "int i \<le> int j" by simp_all
  from fl64.scaled_mono [OF this(1) assms(5) this(2)] have "round_away (rnd (rnd (of_int (int i) / of_int (int (n - 1))) * of_int w))
      \<le> round_away (rnd (rnd (of_int (int j) / of_int (int (n - 1))) * of_int w))"
    by (rule round_away_mono)
  with assms show ?thesis by (simp add: x_of_index_inside(1))
qed

lemma x_of_index_ends:
  assumes "2 \<le> n" "n \<le> 2 ^ 26" "0 \<le> w" "w \<le> 2 ^ 20" "0 \<le> left" "left \<le> 2 ^ 20"
  shows "x_of_index 0 n left w = left" and "x_of_index (n - 1) n left w = left + w"
proof -
  have "0 < int (n - 1)" "\<bar>w\<bar> \<le> 2 ^ 53" using assms by simp_all
  from fl64.scaled_start [of "int (n - 1)" w] fl64.scaled_end [OF this]
  show "x_of_index 0 n left w = left" and "x_of_index (n - 1) n left w = left + w"
    using assms x_of_index_inside(1) [OF assms(1,2) _ assms(3-6)] round_away_of_int [of 0] by simp_all
qed

section \<open>The steps of the layout\<close>

abbreviation sized :: "theme \<Rightarrow> metrics \<Rightarrow> bool" where
  "sized t \<equiv> right_sizes (typography t)"

definition reported :: "layout_error \<Rightarrow> bool" where
  "reported e \<longleftrightarrow> (\<exists>m. e = LayoutError m)"

lemma reported_LayoutError [simp]: "reported (LayoutError m)"
  by (simp add: reported_def)

text \<open>What measuring a text of a sane theme gives.\<close>

lemma triple_measure:
  assumes "\<And>b. b = text_size (typography t) s px rot \<Longrightarrow> Q b"
  shows "triple (\<lambda>c. sized t c \<and> \<phi>) (measure_in t s px rot) E (\<lambda>b c. sized t c \<and> \<phi> \<and> Q b)"
  using triple_measure_in [of t s px rot E] assms
  by (fastforce simp: triple_def split: prod.splits sum.splits)

lemma sane_fontsD:
  assumes "sane_fonts ty"
  shows "readable ty" and "unat (title_font_px ty) \<le> 1000" and "unat (subtitle_font_px ty) \<le> 1000"
    and "unat (axis_tick_font_px ty) \<le> 1000" and "unat (axis_label_font_px ty) \<le> 1000"
    and "unat (movement_label_font_px ty) \<le> 1000"
  using assms by (simp_all add: sane_fonts_def)

lemma text_height_sane:
  assumes "readable ty" "unat px \<le> 1000"
  shows "0 \<le> box_height (text_size ty s px NoRotation)" and "box_height (text_size ty s px NoRotation) \<le> 2 * int (unat px)"
  using text_height [OF assms(1), of px s] assms(2) by simp_all

lemma text_width_sane:
  assumes "readable ty" "unat px \<le> 1000" "length s \<le> k" "k \<le> 17"
  shows "0 \<le> box_width (text_size ty s px NoRotation)" and "box_width (text_size ty s px NoRotation) \<le> 2 * int (k * unat px)"
proof -
  have c: "chars_count s \<le> k" using chars_count_le [of s] assms(3) by simp
  then have "chars_count s * unat px \<le> k * unat px" by (intro mult_le_mono) simp_all
  then have "int (chars_count s * unat px) \<le> int (k * unat px)" by (simp only: of_nat_le_iff)
  with text_width [OF assms(1), of s px] c assms(2,4)
  show "0 \<le> box_width (text_size ty s px NoRotation)" and "box_width (text_size ty s px NoRotation) \<le> 2 * int (k * unat px)"
    by simp_all
qed

text \<open>
  The room a theme may need above, below and left of the plot, and when a chart of a given
  number of cents fits. \<open>excused E t span\<close>: the errors of \<open>E\<close> cover a layout without room.
\<close>

definition heading_room :: "theme \<Rightarrow> int" where
  "heading_room t =
     outer_top_px (layout_t t) + 2 * int (unat (title_font_px (typography t))) + title_to_subtitle_gap_px (layout_t t) +
     2 * int (unat (subtitle_font_px (typography t))) + subtitle_to_plot_gap_px (layout_t t)"

definition footer_room :: "theme \<Rightarrow> int" where
  "footer_room t =
     outer_bottom_px (layout_t t) + axis_label_to_canvas_edge_gap_px (layout_t t) +
     2 * int (unat (axis_label_font_px (typography t))) + x_labels_to_axis_labels_gap_px (layout_t t) +
     10 * int (unat (axis_tick_font_px (typography t))) + x_tick_to_label_gap_px (layout_t t) + x_tick_length_px (axis_t t)"

definition inner_room :: "theme \<Rightarrow> int" where
  "inner_room t = sint (canvas_height (canvas t)) - footer_room t - heading_room t -
     plot_min_inner_top_gap_px (layout_t t) - plot_min_inner_bottom_gap_px (layout_t t)"

definition roomy :: "theme \<Rightarrow> int \<Rightarrow> bool" where
  "roomy t span_cents \<longleftrightarrow>
     outer_left_px (layout_t t) + 34 * int (unat (axis_tick_font_px (typography t))) + y_tick_label_to_axis_gap_px (layout_t t)
       < sint (canvas_width (canvas t)) - outer_right_px (layout_t t) \<and>
     force_px_per_cent (scale_t t) = None \<and> span_cents * min_px_per_cent (scale_t t) \<le> inner_room t"

lemma heading_room_sane: "sane_theme t \<Longrightarrow> heading_room t \<le> 10000"
proof -
  assume "sane_theme t"
  then have lay: "sane_layout (layout_t t)" and "unat (title_font_px (typography t)) \<le> 1000" "unat (subtitle_font_px (typography t)) \<le> 1000"
    by (simp_all add: sane_theme_def sane_fontsD)
  then have "int (unat (title_font_px (typography t))) \<le> 1000" "int (unat (subtitle_font_px (typography t))) \<le> 1000"
    by linarith+
  with sane_small [OF lay] show ?thesis by (simp add: heading_room_def)
qed

definition excused :: "(layout_error \<Rightarrow> bool) \<Rightarrow> theme \<Rightarrow> int \<Rightarrow> bool" where
  "excused E t span_cents \<longleftrightarrow> roomy t span_cents \<or> (\<forall>m. E (LayoutError m))"

lemma excused_reported [simp]: "excused reported t span_cents"
  by (simp add: excused_def)

definition good_x :: "theme \<Rightarrow> int \<Rightarrow> int \<Rightarrow> x_extent \<Rightarrow> bool" where
  "good_x t y_min y_max xe \<longleftrightarrow>
     outer_left_px (layout_t t) \<le> xe_left xe \<and> xe_left xe < xe_right xe \<and>
     xe_right xe = sint (canvas_width (canvas t)) - outer_right_px (layout_t t) \<and>
     xe_width xe = xe_right xe - xe_left xe \<and>
     build_y_tick_cents y_min y_max = Some (xe_ticks xe) \<and> xe_labels xe = map format_brl_cent (xe_ticks xe)"

lemma triple_x_extent:
  assumes "sane_theme t" "- 1002000 \<le> y_min" "y_min < y_max" "y_max \<le> 1002000" "excused E t span_cents"
  shows "triple (sized t) (measure_x_extent t y_min y_max) E (\<lambda>xe c. sized t c \<and> good_x t y_min y_max xe)"
proof -
  from price_ticks_exist [of y_min y_max] assms(2-4) obtain ticks where
    ticks: "build_y_tick_cents y_min y_max = Some ticks"
    and set_ticks: "set ticks = {c. y_min \<le> c \<and> c \<le> y_max \<and> nice_cent_tick (max (y_max - y_min) 1) dvd c}" by auto
  then have in_range: "set ticks \<subseteq> {y_min..y_max}" by auto
  let ?ty = "typography t"
  let ?w = "34 * int (unat (axis_tick_font_px ?ty))"
  have fonts: "readable ?ty" "unat (axis_tick_font_px ?ty) \<le> 1000" and lay: "sane_layout (layout_t t)"
    and canvas: "0 \<le> sint (canvas_width (canvas t))" "sint (canvas_width (canvas t)) \<le> 2 ^ 14"
    using assms(1) by (simp_all add: sane_theme_def sane_fontsD)
  have one: "triple (sized t) (job_bind (measure_in t s (axis_tick_font_px ?ty) NoRotation) (\<lambda>b. job_return (box_width b)))
      E (\<lambda>x c. sized t c \<and> 0 \<le> x \<and> x \<le> ?w)" if "s \<in> format_brl_cent ` set ticks" for s
  proof -
    from that in_range assms(2,4) have "length s \<le> 17"
      by (fastforce intro!: length_format_brl_cent)
    note w = text_width_sane [OF fonts this order_refl]
    show ?thesis
      by (rule triple_bind [OF triple_pre [OF triple_measure [where \<phi> = True and Q = "\<lambda>b. 0 \<le> box_width b \<and> box_width b \<le> ?w"]]])
        (use w in \<open>auto intro: triple_return\<close>)
  qed
  show ?thesis
    unfolding measure_x_extent_def ticks option.case Let_def
  proof (rule triple_bind [OF triple_map [where R = "\<lambda>_ x. 0 \<le> x \<and> x \<le> ?w"]])
    fix s assume "s \<in> set (map format_brl_cent ticks)"
    then show "triple (sized t) (job_bind (measure_in t s (axis_tick_font_px ?ty) NoRotation) (\<lambda>b. job_return (box_width b)))
      E (\<lambda>x c. sized t c \<and> 0 \<le> x \<and> x \<le> ?w)" by (intro one) simp
  next
    fix widths :: "int list"
    show "triple (\<lambda>c. sized t c \<and> list_all2 (\<lambda>_ x. 0 \<le> x \<and> x \<le> ?w) (map format_brl_cent ticks) widths)
      (if i32 (i32 (sint (canvas_width (canvas t)) - outer_right_px (layout_t t)) -
               i32 (outer_left_px (layout_t t) + max_or_0 widths + y_tick_label_to_axis_gap_px (layout_t t))) \<le> 0
       then job_fail (LayoutError ''not enough horizontal room after measured labels and margins'')
       else job_return \<lparr>xe_ticks = ticks, xe_labels = map format_brl_cent ticks,
              xe_left = i32 (outer_left_px (layout_t t) + max_or_0 widths + y_tick_label_to_axis_gap_px (layout_t t)),
              xe_right = i32 (sint (canvas_width (canvas t)) - outer_right_px (layout_t t)),
              xe_width = i32 (i32 (sint (canvas_width (canvas t)) - outer_right_px (layout_t t)) -
               i32 (outer_left_px (layout_t t) + max_or_0 widths + y_tick_label_to_axis_gap_px (layout_t t)))\<rparr>)
      E (\<lambda>xe c. sized t c \<and> good_x t y_min y_max xe)" (is "triple _ ?j _ _")
      unfolding triple_def
    proof (intro allI impI, elim conjE)
      fix c assume c: "sized t c" and w: "list_all2 (\<lambda>_ x. 0 \<le> x \<and> x \<le> ?w) (map format_brl_cent ticks) widths"
      then have w0: "0 \<le> max_or_0 widths \<and> max_or_0 widths \<le> ?w"
        by (intro max_or_0_bounds) (auto simp: list_all2_conv_all_nth in_set_conv_nth)
      moreover have "int (unat (axis_tick_font_px ?ty)) \<le> 1000" using fonts(2) by linarith
      ultimately have "0 \<le> max_or_0 widths" "max_or_0 widths \<le> 34000" by linarith+
      with sane_small [OF lay] canvas have eqs:
        "i32 (outer_left_px (layout_t t) + max_or_0 widths + y_tick_label_to_axis_gap_px (layout_t t)) =
          outer_left_px (layout_t t) + max_or_0 widths + y_tick_label_to_axis_gap_px (layout_t t)"
        "i32 (sint (canvas_width (canvas t)) - outer_right_px (layout_t t)) =
          sint (canvas_width (canvas t)) - outer_right_px (layout_t t)"
        "i32 (sint (canvas_width (canvas t)) - outer_right_px (layout_t t) -
           (outer_left_px (layout_t t) + max_or_0 widths + y_tick_label_to_axis_gap_px (layout_t t))) =
         sint (canvas_width (canvas t)) - outer_right_px (layout_t t) -
           (outer_left_px (layout_t t) + max_or_0 widths + y_tick_label_to_axis_gap_px (layout_t t))"
        "0 \<le> max_or_0 widths + y_tick_label_to_axis_gap_px (layout_t t)"
        by (simp_all add: in_i32_def)
      have room: "sint (canvas_width (canvas t)) - outer_right_px (layout_t t) -
           (outer_left_px (layout_t t) + max_or_0 widths + y_tick_label_to_axis_gap_px (layout_t t)) \<le> 0 \<Longrightarrow>
         E (LayoutError ''not enough horizontal room after measured labels and margins'')"
        using assms(5) w0 by (auto simp: excused_def roomy_def)
      show "case ?j c of (Inl e, _) \<Rightarrow> E e | (Inr xe, c) \<Rightarrow> sized t c \<and> good_x t y_min y_max xe"
        using c ticks eqs(4) room unfolding eqs(1-3) by (simp add: job_fail_def job_return_def good_x_def)
    qed
  qed
qed

lemma triple_headings:
  assumes "sane_theme t"
  shows "triple (\<lambda>c. sized t c \<and> \<phi>) (place_headings t n left) E
    (\<lambda>(title, subtitle_y, area_top) c. sized t c \<and> \<phi> \<and> 0 \<le> area_top \<and> area_top \<le> heading_room t)"
proof -
  let ?ty = "typography t" and ?l = "layout_t t"
  have fonts: "readable ?ty" "unat (title_font_px ?ty) \<le> 1000" "unat (subtitle_font_px ?ty) \<le> 1000"
    and lay: "sane_layout ?l"
    using assms by (simp_all add: sane_theme_def sane_fontsD)
  define a where "a = text_size ?ty (title_text n) (title_font_px ?ty) NoRotation"
  define b where "b = text_size ?ty ''subtitle'' (subtitle_font_px ?ty) NoRotation"
  define y where "y = outer_top_px ?l + box_height a + title_to_subtitle_gap_px ?l"
  define top where "top = i32 (i32 y + box_height b + subtitle_to_plot_gap_px ?l)"
  have ab: "0 \<le> box_height a" "box_height a \<le> 2 * int (unat (title_font_px ?ty))"
    "0 \<le> box_height b" "box_height b \<le> 2 * int (unat (subtitle_font_px ?ty))"
    unfolding a_def b_def by (rule text_height_sane [OF fonts(1,2)] text_height_sane [OF fonts(1,3)])+
  moreover have "int (unat (title_font_px ?ty)) \<le> 1000" "int (unat (subtitle_font_px ?ty)) \<le> 1000"
    using fonts(2,3) by linarith+
  ultimately have top: "0 \<le> top" "top \<le> heading_room t"
    using sane_small [OF lay] by (simp_all add: top_def y_def in_i32_def heading_room_def)
  have first: "triple (\<lambda>c. sized t c \<and> \<phi>) (measure_in t (title_text n) (title_font_px ?ty) NoRotation) E
      (\<lambda>x c. sized t c \<and> \<phi> \<and> x = a)" by (rule triple_measure) (simp add: a_def)
  have second: "triple (\<lambda>c. sized t c \<and> \<phi> \<and> x = a) (measure_in t ''subtitle'' (subtitle_font_px ?ty) NoRotation) E
      (\<lambda>z c. sized t c \<and> (\<phi> \<and> x = a) \<and> z = b)" for x by (rule triple_measure) (simp add: b_def)
  show ?thesis
    unfolding place_headings_def Let_def
    by (rule triple_bind [OF first triple_bind [OF second triple_return]])
      (use top in \<open>auto simp: top_def y_def\<close>)
qed

lemma label_of_sane:
  assumes "sane_quotes qs" "i < length qs"
  shows "\<exists>s. label_of qs i = Inr s \<and> length s \<le> 5"
  using assms length_date_label [of "q_date (qs ! i)"]
  by (auto simp: label_of_def sane_quotes_def sane_quote_def list_all_length)

lemma triple_dates:
  assumes "sane_theme t" "sane_quotes qs" "\<forall>i\<in>set is. i < length qs"
  shows "triple (sized t) (measure_dates t qs is) E
    (\<lambda>h c. sized t c \<and> 0 \<le> h \<and> h \<le> 10 * int (unat (axis_tick_font_px (typography t))))"
proof -
  let ?ty = "typography t"
  let ?ok = "\<lambda>x. 0 \<le> x \<and> x \<le> 10 * int (unat (axis_tick_font_px ?ty))"
  have fonts: "readable ?ty" "unat (axis_tick_font_px ?ty) \<le> 1000"
    using assms(1) by (simp_all add: sane_theme_def sane_fontsD)
  have one: "triple (sized t) (job_bind (job_lift (label_of qs i)) (\<lambda>s.
        job_bind (measure_in t s (axis_tick_font_px ?ty) Rotate270) (\<lambda>b. job_return (box_height b))))
      E (\<lambda>x c. sized t c \<and> ?ok x)" if "i \<in> set is" for i
  proof -
    from label_of_sane [OF assms(2)] assms(3) that obtain s where s: "label_of qs i = Inr s" "length s \<le> 5" by blast
    note w = text_width_sane [OF fonts s(2)]
    show ?thesis
      unfolding s(1) job_bind_simps
      by (rule triple_bind [OF triple_pre [OF triple_measure [where \<phi> = True and Q = "\<lambda>b. ?ok (box_height b)"]]])
        (use w in \<open>auto intro: triple_return\<close>)
  qed
  show ?thesis
    unfolding measure_dates_def
  proof (rule triple_bind [OF triple_map [OF one] triple_return])
    fix heights :: "int list" and c
    assume h: "sized t c \<and> list_all2 (\<lambda>_ x. ?ok x) is heights"
    then have "?ok (max_or_0 heights)"
      by (intro max_or_0_bounds) (auto simp: list_all2_conv_all_nth in_set_conv_nth)
    with h show "sized t c \<and> ?ok (max_or_0 heights)" by simp
  qed
qed

lemma triple_axis_labels:
  assumes "sane_theme t"
  shows "triple (sized t) (measure_axis_labels t) E
    (\<lambda>(xb, yb, h) c. sized t c \<and> 0 \<le> h \<and> h \<le> 2 * int (unat (axis_label_font_px (typography t))))"
proof -
  let ?ty = "typography t"
  have fonts: "readable ?ty" "unat (axis_label_font_px ?ty) \<le> 1000"
    using assms by (simp_all add: sane_theme_def sane_fontsD)
  let ?ok = "\<lambda>b :: text_box. 0 \<le> box_height b \<and> box_height b \<le> 2 * int (unat (axis_label_font_px ?ty))"
  have ok: "?ok (text_size ?ty s (axis_label_font_px ?ty) NoRotation)" for s
    by (intro conjI text_height_sane fonts)
  have first: "triple (sized t) (measure_in t (x_label (axis_t t)) (axis_label_font_px ?ty) NoRotation) E
      (\<lambda>b c. sized t c \<and> True \<and> ?ok b)"
    by (rule triple_pre [OF triple_measure [where \<phi> = True and Q = ?ok]]) (use ok in auto)
  have second: "triple (\<lambda>c. sized t c \<and> True \<and> ?ok b) (measure_in t (y_label (axis_t t)) (axis_label_font_px ?ty) NoRotation) E
      (\<lambda>b' c. sized t c \<and> (True \<and> ?ok b) \<and> ?ok b')" for b
    by (rule triple_measure) (use ok in auto)
  show ?thesis
    unfolding measure_axis_labels_def
    by (rule triple_bind [OF first triple_bind [OF second triple_return]]) auto
qed

definition good_y :: "theme \<Rightarrow> int \<Rightarrow> int \<Rightarrow> int \<Rightarrow> y_extent \<Rightarrow> bool" where
  "good_y t span_cents area_top reserved ye \<longleftrightarrow>
     1 \<le> ye_px_per_cent ye \<and> ye_height ye = span_cents * ye_px_per_cent ye \<and>
     ye_bottom ye = ye_top ye + ye_height ye \<and>
     area_top + plot_min_inner_top_gap_px (layout_t t) \<le> ye_top ye \<and>
     ye_bottom ye + plot_min_inner_bottom_gap_px (layout_t t) \<le> sint (canvas_height (canvas t)) - reserved"

lemma scale_px_sane:
  assumes "sane_scale (scale_t t)" "1 \<le> span_cents" "span_cents \<le> 2100000" "0 < inner_h" "inner_h \<le> 2 ^ 15"
  shows "1 \<le> scale_px t inner_h span_cents" and "i32 (span_cents * scale_px t inner_h span_cents) = span_cents * scale_px t inner_h span_cents"
proof -
  have px: "1 \<le> scale_px t inner_h span_cents" "scale_px t inner_h span_cents \<le> 1000"
    using assms by (auto simp: scale_px_def sane_scale_def split: option.splits)
  have "span_cents * scale_px t inner_h span_cents \<le> 2100000 * 1000"
    using px assms(2,3) by (intro mult_mono) simp_all
  moreover have "0 \<le> span_cents * scale_px t inner_h span_cents"
    using px assms(2) by (intro mult_nonneg_nonneg) simp_all
  ultimately show "1 \<le> scale_px t inner_h span_cents"
    and "i32 (span_cents * scale_px t inner_h span_cents) = span_cents * scale_px t inner_h span_cents"
    using px(1) by (simp_all add: in_i32_def)
qed

lemma fit_vertically_sane:
  assumes "sane_theme t" "1 \<le> span_cents" "span_cents \<le> 2100000" "0 \<le> area_top" "area_top \<le> 10000"
    and "0 \<le> reserved" "reserved \<le> 50000"
  shows "fit_vertically t span_cents area_top reserved = Inr ye \<Longrightarrow> good_y t span_cents area_top reserved ye"
    and "excused E t span_cents \<Longrightarrow> area_top \<le> heading_room t \<Longrightarrow> reserved \<le> footer_room t \<Longrightarrow>
      fit_vertically t span_cents area_top reserved = Inl e \<Longrightarrow> E e"
proof -
  let ?h = "sint (canvas_height (canvas t))"
  let ?l = "layout_t t"
  have lay: "sane_layout ?l" and sc: "sane_scale (scale_t t)" and h: "0 \<le> ?h" "?h \<le> 2 ^ 14"
    using assms(1) by (simp_all add: sane_theme_def)
  from sane_small [OF lay] have gaps: "0 \<le> plot_min_inner_top_gap_px ?l" "plot_min_inner_top_gap_px ?l \<le> 1000"
    "0 \<le> plot_min_inner_bottom_gap_px ?l" "plot_min_inner_bottom_gap_px ?l \<le> 1000" by simp_all
  define inner where "inner = ?h - reserved - area_top - plot_min_inner_top_gap_px ?l - plot_min_inner_bottom_gap_px ?l"
  have eqs: "i32 (?h - reserved) = ?h - reserved" "i32 (?h - reserved - area_top) = ?h - reserved - area_top"
    "i32 (?h - reserved - area_top - plot_min_inner_top_gap_px ?l - plot_min_inner_bottom_gap_px ?l) = inner"
    using assms h gaps by (simp_all add: in_i32_def inner_def)
  note fit = fit_vertically_def [of t span_cents area_top reserved, unfolded Let_def eqs(1), unfolded eqs(2), unfolded eqs(3)]
  have split: "0 < inner \<and> span_cents * scale_px t inner span_cents \<le> inner \<and>
      ye = \<lparr>ye_px_per_cent = scale_px t inner span_cents,
        ye_top = i32 (area_top + plot_min_inner_top_gap_px ?l + tdiv (i32 (inner - span_cents * scale_px t inner span_cents)) 2),
        ye_bottom = i32 (i32 (area_top + plot_min_inner_top_gap_px ?l + tdiv (i32 (inner - span_cents * scale_px t inner span_cents)) 2)
           + span_cents * scale_px t inner span_cents),
        ye_height = span_cents * scale_px t inner span_cents\<rparr>"
    if "fit_vertically t span_cents area_top reserved = Inr ye"
  proof -
    from that have pos: "0 < inner" by (auto simp: fit split: if_splits)
    have "inner \<le> 2 ^ 15" using h assms gaps by (simp add: inner_def)
    note px = scale_px_sane [OF sc assms(2,3) pos this]
    from that pos show ?thesis by (auto simp: fit px(2) simp del: i32_i32_ops split: if_splits)
  qed
  show "good_y t span_cents area_top reserved ye" if "fit_vertically t span_cents area_top reserved = Inr ye"
  proof -
    define height where "height = span_cents * scale_px t inner span_cents"
    define half where "half = (inner - height) div 2"
    note s = split [OF that, folded height_def]
    have ib: "inner \<le> 2 ^ 15" using h assms gaps by (simp add: inner_def)
    from s have pos: "0 < inner" by simp
    note px = scale_px_sane [OF sc assms(2,3) pos ib]
    have h0: "0 \<le> height" using px(1) assms(2) by (simp add: height_def)
    with s have half: "0 \<le> half" "2 * half \<le> inner - height" by (simp_all add: half_def)
    have "tdiv (i32 (inner - height)) 2 = half" using s h0 ib by (simp add: in_i32_def half_def)
    then have top: "i32 (area_top + plot_min_inner_top_gap_px ?l + tdiv (i32 (inner - height)) 2) =
        area_top + plot_min_inner_top_gap_px ?l + half"
      "i32 (area_top + plot_min_inner_top_gap_px ?l + half + height) = area_top + plot_min_inner_top_gap_px ?l + half + height"
      using assms gaps half h0 ib by (simp_all add: in_i32_def)
    from s have "ye = \<lparr>ye_px_per_cent = scale_px t inner span_cents, ye_top = area_top + plot_min_inner_top_gap_px ?l + half,
        ye_bottom = area_top + plot_min_inner_top_gap_px ?l + half + height, ye_height = height\<rparr>"
      by (simp only: top)
    then show ?thesis
      using px(1) half h0 height_def by (simp add: good_y_def inner_def)
  qed
  show "E e" if ex: "excused E t span_cents" and room: "area_top \<le> heading_room t" "reserved \<le> footer_room t"
    and bad: "fit_vertically t span_cents area_top reserved = Inl e"
  proof (cases "roomy t span_cents")
    case False
    with ex have "E (LayoutError m)" for m by (simp add: excused_def)
    with bad show ?thesis by (auto simp: fit_vertically_def Let_def split: if_splits)
  next
    case True
    let ?px = "min_px_per_cent (scale_t t)"
    from True have auto_scale: "force_px_per_cent (scale_t t) = None" and need: "span_cents * ?px \<le> inner_room t"
      by (simp_all add: roomy_def)
    have px: "1 \<le> ?px" "?px \<le> max_px_per_cent (scale_t t)" using sc by (simp_all add: sane_scale_def)
    have "inner_room t \<le> inner" using room by (simp add: inner_room_def inner_def)
    with need have le: "?px * span_cents \<le> inner" by (simp add: mult.commute)
    have one: "1 * 1 \<le> ?px * span_cents" using px(1) assms(2) by (intro mult_mono) simp_all
    with le have pos: "0 < inner" by linarith
    have "?px \<le> inner div span_cents" using zdiv_mono1 [OF le, of span_cents] assms(2) by simp
    then have "scale_px t inner span_cents \<le> inner div span_cents"
      using pos assms(2) auto_scale by (simp add: scale_px_def)
    then have "scale_px t inner span_cents * span_cents \<le> inner div span_cents * span_cents"
      using assms(2) by (intro mult_right_mono) simp_all
    also have "\<dots> \<le> inner" using assms(2) div_mult_mod_eq [of inner span_cents] pos_mod_sign [of span_cents inner] by linarith
    finally have fits: "span_cents * scale_px t inner span_cents \<le> inner" by (simp add: mult.commute)
    have ib: "inner \<le> 2 ^ 15" using h assms gaps by (simp add: inner_def)
    have "0 < ?h - reserved - area_top" using pos gaps by (simp add: inner_def)
    with bad pos fits scale_px_sane(2) [OF sc assms(2,3) pos ib] show ?thesis
      by (simp add: fit)
  qed
qed

lemma triple_y_tick:
  "triple (sized t) (place_y_tick t y_min ye left cl) E
     (\<lambda>yt c. sized t c \<and> yt_cents yt = fst cl \<and> yt_y yt = y_of_cents (fst cl) y_min (ye_px_per_cent ye) (ye_bottom ye))"
  unfolding place_y_tick_def Let_def
  by (rule triple_bind [OF triple_pre [OF triple_measure [where \<phi> = True and Q = "\<lambda>_. True"]]])
    (auto intro!: triple_return)

lemma triple_x_tick:
  assumes "sane_quotes qs" "i < length qs"
  shows "triple (sized t) (place_x_tick t qs xe ye i) E
     (\<lambda>xt c. sized t c \<and> xt_idx xt = i \<and> xt_x xt = x_of_index i (length qs) (xe_left xe) (xe_width xe))"
proof -
  from label_of_sane [OF assms] obtain s where "label_of qs i = Inr s" by blast
  then show ?thesis
    unfolding place_x_tick_def Let_def
    by (simp, intro triple_bind [OF triple_pre [OF triple_measure [where \<phi> = True and Q = "\<lambda>_. True"]]])
      (auto intro!: triple_return)
qed

section \<open>The layout fits\<close>

definition fits_canvas :: "theme \<Rightarrow> chart_layout \<Rightarrow> bool" where
  "fits_canvas t l \<longleftrightarrow>
     0 \<le> plot_left l \<and> plot_left l < plot_right l \<and> plot_right l \<le> sint (canvas_width (canvas t)) \<and>
     plot_width l = plot_right l - plot_left l \<and>
     0 \<le> plot_top l \<and> plot_top l < plot_bottom l \<and> plot_bottom l \<le> sint (canvas_height (canvas t)) \<and>
     plot_height l = plot_bottom l - plot_top l \<and>
     plot_height l = (y_max_cent l - y_min_cent l) * px_per_cent l"

definition ticks_inside :: "chart_layout \<Rightarrow> bool" where
  "ticks_inside l \<longleftrightarrow>
     list_all (\<lambda>yt. plot_top l \<le> yt_y yt \<and> yt_y yt \<le> plot_bottom l \<and>
       yt_y yt = plot_bottom l - (yt_cents yt - y_min_cent l) * px_per_cent l) (y_ticks l) \<and>
     list_all (\<lambda>xt. plot_left l \<le> xt_x xt \<and> xt_x xt \<le> plot_right l) (x_ticks l)"

definition point_of :: "quote list \<Rightarrow> chart_layout \<Rightarrow> nat \<Rightarrow> int \<times> int" where
  "point_of qs l i =
     (x_of_index i (length qs) (plot_left l) (plot_width l),
      y_of_price (usd_brl (qs ! i)) (y_min_cent l) (px_per_cent l) (plot_bottom l))"

definition points_inside :: "quote list \<Rightarrow> chart_layout \<Rightarrow> bool" where
  "points_inside qs l \<longleftrightarrow>
     list_all (\<lambda>i. plot_left l \<le> fst (point_of qs l i) \<and> fst (point_of qs l i) \<le> plot_right l \<and>
       plot_top l \<le> snd (point_of qs l i) \<and> snd (point_of qs l i) \<le> plot_bottom l) [0..<length qs]"

definition good_layout :: "theme \<Rightarrow> quote list \<Rightarrow> chart_layout \<Rightarrow> bool" where
  "good_layout t qs l \<longleftrightarrow> fits_canvas t l \<and> ticks_inside l \<and> points_inside qs l"

lemma y_of_cents_inside:
  assumes "lo \<le> c" "c \<le> hi" "0 \<le> px" "(hi - lo) * px \<le> 2 ^ 20" "0 \<le> bottom" "bottom \<le> 2 ^ 20"
  shows "y_of_cents c lo px bottom = bottom - (c - lo) * px"
    and "bottom - (hi - lo) * px \<le> y_of_cents c lo px bottom" and "y_of_cents c lo px bottom \<le> bottom"
proof -
  define v where "v = (c - lo) * px"
  from assms have "0 \<le> v" "v \<le> (hi - lo) * px" by (simp_all add: v_def mult_right_mono)
  with assms(4-6) show "y_of_cents c lo px bottom = bottom - (c - lo) * px"
    and "bottom - (hi - lo) * px \<le> y_of_cents c lo px bottom" and "y_of_cents c lo px bottom \<le> bottom"
    unfolding y_of_cents_def v_def [symmetric] by (simp_all add: in_i32_def)
qed

lemma list_all2_right: "list_all2 P xs ys \<Longrightarrow> y \<in> set ys \<Longrightarrow> \<exists>x\<in>set xs. P x y"
  by (induction rule: list_all2_induct) auto

lemma good_layoutI:
  assumes sane: "sane_theme t" "sane_quotes qs" "2 \<le> length qs"
    and lo: "lo = fst (y_range t qs)" and hi: "hi = snd (y_range t qs)"
    and x: "good_x t lo hi xe" and y: "good_y t (hi - lo) area_top reserved ye" "0 \<le> area_top" "0 \<le> reserved"
    and yts: "list_all2 (\<lambda>cl yt. yt_cents yt = fst cl \<and> yt_y yt = y_of_cents (fst cl) lo (ye_px_per_cent ye) (ye_bottom ye))
               (zip (xe_ticks xe) (xe_labels xe)) yts"
    and xts: "list_all2 (\<lambda>i xt. xt_idx xt = i \<and> xt_x xt = x_of_index i (length qs) (xe_left xe) (xe_width xe)) is xts"
    and "is": "\<forall>i\<in>set is. i < length qs"
    and l: "plot_left l = xe_left xe" "plot_right l = xe_right xe" "plot_width l = xe_width xe"
      "plot_top l = ye_top ye" "plot_bottom l = ye_bottom ye" "plot_height l = ye_height ye"
      "y_min_cent l = lo" "y_max_cent l = hi" "px_per_cent l = ye_px_per_cent ye" "y_ticks l = yts" "x_ticks l = xts"
  shows "good_layout t qs l"
proof -
  let ?w = "sint (canvas_width (canvas t))" and ?h = "sint (canvas_height (canvas t))"
  have sc: "sane_scale (scale_t t)" and lay: "sane_layout (layout_t t)"
    and canvas: "?w \<le> 2 ^ 14" "?h \<le> 2 ^ 14"
    using sane(1) by (simp_all add: sane_theme_def)
  have qs: "qs \<noteq> []" "length qs \<le> 2 ^ 26" using sane(2,3) by (auto simp: sane_quotes_def)
  note range = y_range_sane [OF sane(2) qs(1) sc, folded lo hi]
  note gaps = sane_small [OF lay]
  have px: "1 \<le> ye_px_per_cent ye" and height: "ye_height ye = (hi - lo) * ye_px_per_cent ye"
    and bottom: "ye_bottom ye = ye_top ye + ye_height ye"
    and top: "0 \<le> ye_top ye" and low: "ye_bottom ye \<le> ?h"
    using y gaps by (simp_all add: good_y_def)
  have pos: "0 < (hi - lo) * ye_px_per_cent ye" using px range(1) by simp
  have small: "(hi - lo) * ye_px_per_cent ye \<le> 2 ^ 20" "0 \<le> ye_bottom ye" "ye_bottom ye \<le> 2 ^ 20"
    using height bottom top low canvas pos unfolding height [symmetric] by simp_all
  have xe: "0 \<le> xe_left xe" "xe_left xe < xe_right xe" "xe_right xe \<le> ?w" "xe_width xe = xe_right xe - xe_left xe"
    and ticks: "build_y_tick_cents lo hi = Some (xe_ticks xe)" "xe_labels xe = map format_brl_cent (xe_ticks xe)"
    using x gaps by (auto simp: good_x_def)
  have ws: "0 \<le> xe_width xe" "xe_width xe \<le> 2 ^ 20" "xe_left xe \<le> 2 ^ 20" using xe canvas by simp_all
  have "fits_canvas t l"
    using xe px height bottom top low pos by (simp add: fits_canvas_def l)
  moreover have "ticks_inside l"
  proof -
    from price_ticks_exist [of lo hi] ticks(1) range(1-3) have "set (xe_ticks xe) \<subseteq> {lo..hi}" by auto
    then have tk: "plot_top l \<le> yt_y yt \<and> yt_y yt \<le> plot_bottom l \<and>
        yt_y yt = plot_bottom l - (yt_cents yt - y_min_cent l) * px_per_cent l" if "yt \<in> set yts" for yt
    proof -
      from list_all2_right [OF yts that] obtain cl where cl: "cl \<in> set (zip (xe_ticks xe) (xe_labels xe))" and
        yt: "yt_cents yt = fst cl" "yt_y yt = y_of_cents (fst cl) lo (ye_px_per_cent ye) (ye_bottom ye)"
        by blast
      from cl have "fst cl \<in> set (xe_ticks xe)" by (metis fst_conv prod.collapse set_zip_leftD)
      with \<open>set (xe_ticks xe) \<subseteq> {lo..hi}\<close> have b: "lo \<le> fst cl" "fst cl \<le> hi" by auto
      have "0 \<le> ye_px_per_cent ye" using px by simp
      from y_of_cents_inside [OF b this small] yt height bottom show ?thesis by (simp add: l)
    qed
    moreover have "plot_left l \<le> xt_x xt \<and> xt_x xt \<le> plot_right l" if "xt \<in> set xts" for xt
    proof -
      from list_all2_right [OF xts that] obtain i where "i \<in> set is"
        and xt: "xt_x xt = x_of_index i (length qs) (xe_left xe) (xe_width xe)"
        by blast
      with "is" have "i < length qs" by blast
      from x_of_index_inside(2,3) [OF sane(3) qs(2) this ws(1,2) xe(1) ws(3)] xt xe(4) show ?thesis by (simp add: l)
    qed
    ultimately show ?thesis unfolding ticks_inside_def list_all_iff l by blast
  qed
  moreover have "plot_left l \<le> fst (point_of qs l i) \<and> fst (point_of qs l i) \<le> plot_right l \<and>
       plot_top l \<le> snd (point_of qs l i) \<and> snd (point_of qs l i) \<le> plot_bottom l" if i: "i < length qs" for i
  proof -
    from i have q: "qs ! i \<in> set qs" by simp
    with sane(2) sane_price [of "qs ! i"] have p: "usd_brl (qs ! i) = Fin (price (qs ! i))" "\<bar>price (qs ! i)\<bar> \<le> 10000"
      by (auto simp: sane_quotes_def list_all_iff)
    from range(4) [OF q] have c: "of_int lo \<le> rnd (price (qs ! i) * 100)" "rnd (price (qs ! i) * 100) \<le> of_int hi" by simp_all
    from y_of_price_inside [OF p(2) c range(2,1,3) px small] height bottom
      x_of_index_inside(2,3) [OF sane(3) qs(2) i ws(1,2) xe(1) ws(3)] xe(4)
    show ?thesis by (simp add: point_of_def p(1) l)
  qed
  ultimately show ?thesis by (simp add: good_layout_def points_inside_def list_all_iff)
qed

lemma triple_assemble:
  assumes "sane_theme t" "sane_quotes qs" "2 \<le> length qs"
    and range: "lo = fst (y_range t qs)" "hi = snd (y_range t qs)"
    and "good_x t lo hi xe" "good_y t (hi - lo) area_top reserved ye" "0 \<le> area_top" "0 \<le> reserved"
    and "\<forall>i\<in>set is. i < length qs"
  shows "triple (sized t) (assemble_layout qs moves t lo hi xe title subtitle_y is xb yb h ye) E
    (\<lambda>l c. good_layout t qs l)"
proof -
  let ?ys = "list_all2 (\<lambda>cl yt. yt_cents yt = fst cl \<and> yt_y yt = y_of_cents (fst cl) lo (ye_px_per_cent ye) (ye_bottom ye))
               (zip (xe_ticks xe) (xe_labels xe))"
  show ?thesis
    unfolding assemble_layout_def Let_def
  proof (rule triple_bind [OF triple_pre [OF triple_measure [where \<phi> = True and Q = "\<lambda>_. True"]]
        triple_bind [OF triple_pre [OF triple_map [OF triple_y_tick]]
        triple_bind [OF triple_phi [OF triple_map [OF triple_x_tick [OF assms(2)]]] triple_return]]])
    fix subtitle_bbox and yts :: "y_tick_layout list" and xts :: "x_tick_layout list" and c
    assume "(sized t c \<and> list_all2 (\<lambda>i xt. xt_idx xt = i \<and> xt_x xt = x_of_index i (length qs) (xe_left xe) (xe_width xe)) is xts) \<and>
      ?ys yts"
    then show "good_layout t qs
        \<lparr>cl_width = canvas_width (canvas t), cl_height = canvas_height (canvas t),
         plot_left = xe_left xe, plot_right = xe_right xe, plot_top = ye_top ye, plot_bottom = ye_bottom ye,
         plot_width = xe_width xe, plot_height = ye_height ye,
         y_min_cent = lo, y_max_cent = hi, px_per_cent = ye_px_per_cent ye, cl_title = title,
         cl_subtitle = \<lparr>pt_text = subtitle_text (ye_px_per_cent ye) (important_delta_cents (movement t)) (length moves),
           pt_x = xe_left xe, pt_y = subtitle_y, pt_bbox = subtitle_bbox\<rparr>,
         y_ticks = yts, x_ticks = xts, axis_labels = place_axis_labels t xe xb yb h\<rparr>"
      by (intro good_layoutI [OF assms(1-9) _ _ assms(10)]) simp_all
  qed (use assms(10) in auto)
qed

lemma triple_below:
  assumes "sane_theme t" "sane_quotes qs" "2 \<le> length qs"
    and range: "lo = fst (y_range t qs)" "hi = snd (y_range t qs)"
    and "good_x t lo hi xe" "0 \<le> area_top" "area_top \<le> heading_room t" "excused E t (hi - lo)"
  shows "triple (sized t) (layout_below qs moves t lo hi xe (title, subtitle_y, area_top)) E
    (\<lambda>l c. good_layout t qs l)"
proof -
  have n: "length qs \<le> 2 ^ 26" "qs \<noteq> []" using assms(2,3) by (auto simp: sane_quotes_def)
  have sc: "sane_scale (scale_t t)" and lay: "sane_layout (layout_t t)" and tick: "small (x_tick_length_px (axis_t t))"
    using assms(1) by (simp_all add: sane_theme_def)
  note b = y_range_sane(1-3) [OF assms(2) n(2) sc, folded range]
  have span: "max (i32 (hi - lo)) 1 = hi - lo" "1 \<le> hi - lo" "hi - lo \<le> 2100000" using b by (simp_all add: in_i32_def)
  have px: "int (unat (axis_label_font_px (typography t))) \<le> 1000" "int (unat (axis_tick_font_px (typography t))) \<le> 1000"
    using sane_fontsD(4,5) [of "typography t"] assms(1) by (simp_all add: sane_theme_def flip: of_nat_le_iff [where 'a = int])
  let ?tall = "2 * int (unat (axis_label_font_px (typography t)))" and ?long = "10 * int (unat (axis_tick_font_px (typography t)))"
  have resv: "0 \<le> bottom_reserved t h1 h2" "bottom_reserved t h1 h2 \<le> footer_room t" "bottom_reserved t h1 h2 \<le> 50000"
    if "0 \<le> h1" "h1 \<le> ?tall" "0 \<le> h2" "h2 \<le> ?long" for h1 h2
    using that px sane_small [OF lay] tick by (simp_all add: bottom_reserved_def footer_room_def in_i32_def small_def)
  have top: "area_top \<le> 10000" using assms(8) heading_room_sane [OF assms(1)] by linarith
  have below: "\<forall>i\<in>set (choose_evenly_spaced_indices (length qs) m w gap). i < length qs" for m w gap
    using chosen_below [OF assms(3) n(1)] by blast
  show ?thesis
    unfolding layout_below_def Let_def prod.case span(1)
  proof (rule triple_bind [OF triple_dates [OF assms(1,2) below]], rule triple_bind_3)
    fix h :: int
    show "triple (\<lambda>c. sized t c \<and> 0 \<le> h \<and> h \<le> ?long) (measure_axis_labels t) E
        (\<lambda>(xb, yb, h') c. (sized t c \<and> 0 \<le> h' \<and> h' \<le> ?tall) \<and> 0 \<le> h \<and> h \<le> ?long)"
      by (rule triple_post [OF triple_pre [OF triple_phi [OF triple_axis_labels [OF assms(1)], of "0 \<le> h \<and> h \<le> ?long"]]])
        auto
    fix xb yb :: text_box and h' :: int
    let ?is = "choose_evenly_spaced_indices (length qs) (max_x_tick_labels (layout_t t)) (xe_width xe)
                 (min_x_tick_label_gap_px (layout_t t))"
    show "triple (\<lambda>c. (sized t c \<and> 0 \<le> h' \<and> h' \<le> ?tall) \<and> 0 \<le> h \<and> h \<le> ?long)
       (job_bind (job_lift (fit_vertically t (hi - lo) area_top (bottom_reserved t h' h)))
         (assemble_layout qs moves t lo hi xe title subtitle_y ?is xb yb h')) E (\<lambda>l c. good_layout t qs l)"
    proof (cases "(0 \<le> h' \<and> h' \<le> ?tall) \<and> 0 \<le> h \<and> h \<le> ?long")
      case True
      then have r: "0 \<le> bottom_reserved t h' h" "bottom_reserved t h' h \<le> footer_room t" "bottom_reserved t h' h \<le> 50000"
        by (auto intro: resv)
      note fit = fit_vertically_sane [OF assms(1) span(2,3) assms(7) top r(1,3)]
      note fit = fit(1) fit(2) [OF assms(9,8) r(2)]
      show ?thesis
      proof (rule triple_bind [OF triple_lift triple_pure_pre])
        show "triple (sized t) (assemble_layout qs moves t lo hi xe title subtitle_y ?is xb yb h' ye) E
            (\<lambda>l c. good_layout t qs l)" if "good_y t (hi - lo) area_top (bottom_reserved t h' h) ye" for ye
          by (rule triple_assemble [OF assms(1-3) range assms(6) that assms(7) r(1) below])
      qed (use fit in auto)
    next
      case False
      then show ?thesis by (auto simp: triple_def)
    qed
  qed
qed

lemma triple_build_layout_excused:
  assumes "sane_theme t" "sane_quotes qs" "excused E t (snd (y_range t qs) - fst (y_range t qs))"
    and "2 \<le> length qs \<or> (\<forall>m. E (LayoutError m))"
  shows "triple (sized t) (build_layout qs moves t) E (\<lambda>l c. good_layout t qs l)"
proof (cases "length qs < 2")
  case True
  with assms(4) show ?thesis by (simp add: build_layout_def triple_def job_fail_def)
next
  case False
  then have len: "2 \<le> length qs" "qs \<noteq> []" by auto
  have sc: "sane_scale (scale_t t)" using assms(1) by (simp add: sane_theme_def)
  note range = y_range_sane(1-3) [OF assms(2) len(2) sc]
  have "triple (\<lambda>c. sized t c \<and> good_x t (fst (y_range t qs)) (snd (y_range t qs)) xe)
      (job_bind (place_headings t (length qs) (xe_left xe)) (layout_below qs moves t (fst (y_range t qs)) (snd (y_range t qs)) xe))
      E (\<lambda>l c. good_layout t qs l)" for xe
  proof (rule triple_bind [OF triple_headings [OF assms(1)]])
    fix p :: "positioned_text \<times> int \<times> int"
    obtain title subtitle_y area_top where p: "p = (title, subtitle_y, area_top)" by (cases p)
    show "triple ((\<lambda>(title, subtitle_y, area_top) c. sized t c \<and> good_x t (fst (y_range t qs)) (snd (y_range t qs)) xe \<and>
          0 \<le> area_top \<and> area_top \<le> heading_room t) p)
        (layout_below qs moves t (fst (y_range t qs)) (snd (y_range t qs)) xe p) E (\<lambda>l c. good_layout t qs l)"
      unfolding p prod.case
      by (rule triple_pure_pre, elim conjE) (rule triple_below [OF assms(1,2) len(1) refl refl _ _ _ assms(3)])
  qed
  with False show ?thesis
    unfolding build_layout_def Let_def
    by (simp, intro triple_bind [OF triple_x_extent [OF assms(1) range(2,1,3) assms(3)]])
qed

lemma triple_build_layout:
  assumes "sane_theme t" "sane_quotes qs"
  shows "triple (sized t) (build_layout qs moves t) reported (\<lambda>l c. good_layout t qs l)"
  by (rule triple_build_layout_excused [OF assms]) simp_all

text \<open>C30: For a sane theme and sane prices the layout neither panics nor hangs: it reports that there is
  not enough room, or its plot lies inside the canvas, its height is the price range at a whole
  number of pixels per cent, every tick is on the plot and every price of the chart is drawn
  inside it.\<close>

theorem layout_fits:
  assumes "sane_theme t" "sane_quotes qs" "right_sizes (typography t) cache"
  shows "case fst (build_layout qs moves t cache) of
      Inl e \<Rightarrow> \<exists>m. e = LayoutError m
    | Inr l \<Rightarrow> fits_canvas t l \<and> ticks_inside l \<and> points_inside qs l"
proof (cases "build_layout qs moves t cache")
  case (Pair r c')
  note spec = triple_build_layout [OF assms(1,2), of moves]
  show ?thesis
  proof (cases r)
    case (Inl e)
    from tripleD_Inl [OF spec assms(3) Pair [unfolded Inl]] Pair Inl
    show ?thesis by (simp add: reported_def)
  next
    case (Inr l)
    from tripleD_Inr [OF spec assms(3) Pair [unfolded Inr]] Pair Inr
    show ?thesis by (simp add: good_layout_def)
  qed
qed

definition sample_quotes :: "quote list" where
  "sample_quotes = map (\<lambda>i. \<lparr>q_date = Date 2026 5 (i + 1), usd_brl = Fin (5 + of_nat i / 100)\<rparr>) [0..<9]"

lemma sample_quotes_sane: "sane_quotes sample_quotes"
  by (simp add: sane_quotes_def sample_quotes_def sane_quote_def list_all_iff)

theorem layout_fits_witness:
  "case fst (build_layout sample_quotes [] default_theme []) of
      Inl e \<Rightarrow> \<exists>m. e = LayoutError m
    | Inr l \<Rightarrow> fits_canvas default_theme l \<and> ticks_inside l \<and> points_inside sample_quotes l"
  by (rule layout_fits [OF default_theme_sane sample_quotes_sane right_sizes_Nil])

section \<open>The default theme has room\<close>

definition default_sized :: "theme \<Rightarrow> bool" where
  "default_sized t \<longleftrightarrow> canvas t = canvas default_theme \<and> typography t = typography default_theme \<and>
     layout_t t = layout_t default_theme \<and> scale_t t = scale_t default_theme \<and> axis_t t = axis_t default_theme"

lemma default_sized_sane: "default_sized t \<Longrightarrow> sane_theme t"
  using default_theme_sane by (simp add: default_sized_def sane_theme_def)

lemma default_sized_roomy:
  assumes "default_sized t" "span_cents \<le> 56"
  shows "roomy t span_cents"
proof -
  have "roomy t span_cents \<longleftrightarrow> roomy default_theme span_cents"
    using assms(1) by (simp add: default_sized_def roomy_def inner_room_def footer_room_def heading_room_def)
  also have "\<dots>"
    using assms(2)
    by (simp add: roomy_def inner_room_def footer_room_def heading_room_def default_theme_def default_layout_def)
  finally show ?thesis .
qed

definition within_cents :: "quote list \<Rightarrow> int \<Rightarrow> int \<Rightarrow> bool" where
  "within_cents qs a b \<longleftrightarrow> list_all (\<lambda>q. of_int a \<le> price q * 100 \<and> price q * 100 \<le> of_int b) qs"

lemma triple_default_layout:
  assumes "default_sized t" "sane_quotes qs" "2 \<le> length qs" "within_cents qs a b" "b - a \<le> 48"
    and "\<bar>a\<bar> \<le> 2 ^ 53" "\<bar>b\<bar> \<le> 2 ^ 53"
  shows "triple (sized t) (build_layout qs moves t) E (\<lambda>l c. good_layout t qs l)"
proof -
  note sane = default_sized_sane [OF assms(1)]
  have pad: "padding_cents (scale_t t) = 4" using assms(1) by (simp add: default_sized_def default_theme_def)
  have "snd (y_range t qs) - fst (y_range t qs) \<le> b - a + 2 * padding_cents (scale_t t)"
    using assms sane by (intro y_range_sane(5)) (auto simp: within_cents_def list_all_iff sane_theme_def)
  with pad assms(5) have "excused E t (snd (y_range t qs) - fst (y_range t qs))"
    using default_sized_roomy [OF assms(1)] by (simp add: excused_def)
  with assms(3) show ?thesis
    by (intro triple_build_layout_excused [OF sane assms(2)]) simp_all
qed

text \<open>With the sizes of the default theme every chart is laid out whose prices stay within 48 cents of
  each other: no price, tick or label is refused for lack of room.\<close>

theorem default_layout_succeeds:
  assumes "default_sized t" "sane_quotes qs" "2 \<le> length qs" "within_cents qs a b" "b - a \<le> 48"
    and "\<bar>a\<bar> \<le> 2 ^ 53" "\<bar>b\<bar> \<le> 2 ^ 53" and "right_sizes (typography t) cache"
  shows "\<exists>l. fst (build_layout qs moves t cache) = Inr l \<and> fits_canvas t l \<and> ticks_inside l \<and> points_inside qs l"
  using triple_default_layout [OF assms(1-7), of moves "\<lambda>_. False"] assms(8)
  by (cases "build_layout qs moves t cache") (auto simp: triple_def good_layout_def split: sum.splits dest: spec [of _ cache])

theorem default_layout_succeeds_witness:
  "\<exists>l. fst (build_layout sample_quotes [] default_theme []) = Inr l"
proof -
  have "within_cents sample_quotes 500 510"
    by (simp add: within_cents_def sample_quotes_def list_all_iff price_def)
  from default_layout_succeeds [OF _ sample_quotes_sane _ this _ _ _ right_sizes_Nil, of default_theme "[]"] show ?thesis
    by (auto simp: default_sized_def sample_quotes_def)
qed

end
