(* ===== verification/Render.thy ===== *)
theory Render
  imports LayoutBounds
begin

text \<open>
  Planning, drawing and encoding the chart: \<open>src/src/plot/render/mod.rs\<close>. Drawing is a job
  over a backend given as an argument (\<open>plotters\<close>): one command per \<open>root.fill\<close> or
  \<open>root.draw\<close>, in the order of the code, stopping at the first that fails. The PNG encoders
  (\<open>image\<close>, \<open>oxipng\<close>) are arguments too.
\<close>

record movement_layer =
  ml_start_idx :: nat
  ml_end_idx :: nat
  ml_line_color :: rgb_color
  ml_label_color :: rgb_color
  ml_label :: positioned_text

record chart_plan =
  cp_layout :: chart_layout
  cp_points :: "(int \<times> int) list"
  cp_movement_layers :: "movement_layer list"

record png_stats =
  ps_mode :: rstr
  ps_png_bytes :: nat

definition clamp_i32 :: "int \<Rightarrow> int \<Rightarrow> int \<Rightarrow> int" where
  "clamp_i32 v lo hi = (if hi < lo then lo else min (max v lo) hi)"

definition format_delta :: "f64 \<Rightarrow> rstr" where
  "format_delta d =
     replace_char CHR ''.'' CHR '','' ((if f_le (Fin 0) d then ''+R$ '' else ''-R$ '') @ fmt_2 (f_abs d))"

section \<open>Planning\<close>

definition sample_subtitle :: rstr where
  "sample_subtitle = ''escala vertical: 19 px = R$ 0,01 | pernas importantes: >= R$ 0,03 | detectadas: 9''"

text \<open>\<open>warm_up\<close> measures what a chart is likely to need.\<close>

definition warm_up :: "theme \<Rightarrow> quote list \<Rightarrow> important_move list \<Rightarrow> unit lay" where
  "warm_up t qs moves =
     (let ty = typography t in
      job_bind (job_map (\<lambda>s.
          job_bind (measure_in t s (title_font_px ty) NoRotation) (\<lambda>_.
          job_bind (measure_in t s (subtitle_font_px ty) NoRotation) (\<lambda>_.
          measure_in t s (axis_label_font_px ty) NoRotation)))
        [title_text 30, sample_subtitle, x_label (axis_t t), y_label (axis_t t)]) (\<lambda>_.
      job_bind (job_map (\<lambda>q.
          job_bind (measure_in t (date_label (q_date q)) (axis_tick_font_px ty) Rotate270) (\<lambda>_.
          (let cents = as_i32 (f_round (f_mul (usd_brl q) (Fin 100)))
           in measure_in t (format_brl_cent cents) (axis_tick_font_px ty) NoRotation))) qs) (\<lambda>_.
      job_bind (job_map (\<lambda>mv.
          measure_in t (format_delta (delta mv)) (movement_label_font_px ty) NoRotation) moves) (\<lambda>_.
      job_return ()))))"

definition point_at :: "(int \<times> int) list \<Rightarrow> nat \<Rightarrow> (layout_error, int \<times> int) result" where
  "point_at points i = (if i < length points then Inr (points ! i) else Inl IndexPanic)"

text \<open>Where the label of a movement goes: above a rise, below a fall, kept inside the plot.\<close>

definition label_pads :: "theme \<Rightarrow> int \<times> int" where
  "label_pads t =
     (case label_bg (movement t) of
        None \<Rightarrow> (0, 0)
      | Some _ \<Rightarrow> (label_bg_padding_x_px (movement t), label_bg_padding_y_px (movement t)))"

definition place_label :: "theme \<Rightarrow> chart_layout \<Rightarrow> move_kind \<Rightarrow> int \<times> int \<Rightarrow> int \<times> int \<Rightarrow> text_box \<Rightarrow> int \<times> int" where
  "place_label t l kind p1 p2 bbox =
     (let mid_x = tdiv (i32 (fst p1 + fst p2)) 2;
          mid_y = tdiv (i32 (snd p1 + snd p2)) 2;
          offset = label_offset_from_segment_px (movement t);
          x = i32 (mid_x - tdiv (box_width bbox) 2);
          y = (case kind of Rise \<Rightarrow> i32 (mid_y - box_height bbox - offset) | Fall \<Rightarrow> i32 (mid_y + offset));
          gap = movement_label_canvas_gap_px (layout_t t);
          pad_x = fst (label_pads t);
          pad_y = snd (label_pads t)
      in (clamp_i32 x (i32 (plot_left l + pad_x + gap)) (i32 (plot_right l - box_width bbox - pad_x - gap)),
          clamp_i32 y (i32 (plot_top l + pad_y + gap)) (i32 (plot_bottom l - box_height bbox - pad_y - gap))))"

definition build_movement_layer ::
  "theme \<Rightarrow> (int \<times> int) list \<Rightarrow> chart_layout \<Rightarrow> important_move \<Rightarrow> movement_layer lay" where
  "build_movement_layer t points l mv =
     job_bind (job_lift (point_at points (start_idx mv))) (\<lambda>p1.
     job_bind (job_lift (point_at points (end_idx mv))) (\<lambda>p2.
     (let label = format_delta (delta mv) in
      job_bind (measure_in t label (movement_label_font_px (typography t)) NoRotation) (\<lambda>bbox.
      (let pos = place_label t l (move_kind mv) p1 p2 bbox;
           colors = (case move_kind mv of
                       Rise \<Rightarrow> (rise_line (movement t), rise_label (movement t))
                     | Fall \<Rightarrow> (fall_line (movement t), fall_label (movement t)))
       in job_return
            \<lparr>ml_start_idx = start_idx mv, ml_end_idx = end_idx mv, ml_line_color = fst colors, ml_label_color = snd colors,
             ml_label = \<lparr>pt_text = label, pt_x = fst pos, pt_y = snd pos, pt_bbox = bbox\<rparr>\<rparr>)))))"

definition plan_points :: "quote list \<Rightarrow> chart_layout \<Rightarrow> (int \<times> int) list" where
  "plan_points qs l = map (point_of qs l) [0..<length qs]"

definition plan_chart :: "theme \<Rightarrow> quote list \<Rightarrow> important_move list \<Rightarrow> chart_plan lay" where
  "plan_chart t qs moves =
     job_bind (build_layout qs moves t) (\<lambda>l.
     (let points = plan_points qs l in
      job_bind (job_map (build_movement_layer t points l) moves) (\<lambda>layers.
      job_return \<lparr>cp_layout = l, cp_points = points, cp_movement_layers = layers\<rparr>)))"

section \<open>Drawing\<close>

datatype font_transform = UprightText | RotatedText
datatype paint = Rgb rgb_color | Rgba rgba_color

datatype draw_command =
    FillCanvas rgb_color
  | FilledRectangle "int \<times> int" "int \<times> int" paint
  | DrawPath "(int \<times> int) list" paint u32
  | FilledCircle "int \<times> int" int rgb_color
  | DrawText rstr "int \<times> int" rstr u32 rgb_color font_transform

text \<open>A drawing job stops with the backend's error or at a slice out of range.\<close>

datatype draw_error = BackendError rstr | DrawPanic

type_synonym 's drawing = "(draw_error, 's, unit) job"

definition draw_text ::
  "(draw_command \<Rightarrow> 's drawing) \<Rightarrow> theme \<Rightarrow> positioned_text \<Rightarrow> u32 \<Rightarrow> rgb_color \<Rightarrow> font_transform \<Rightarrow> 's drawing" where
  "draw_text draw t p font_px color transform =
     draw (DrawText (pt_text p) (pt_x p, pt_y p) (font_family (typography t)) font_px color transform)"

definition draw_all :: "('i \<Rightarrow> 's drawing) \<Rightarrow> 'i list \<Rightarrow> 's drawing" where
  "draw_all f is = job_iter (\<lambda>i _. f i) is ()"

text \<open>\<open>&points[s..=e]\<close>\<close>

definition slice_points :: "(int \<times> int) list \<Rightarrow> nat \<Rightarrow> nat \<Rightarrow> (draw_error, (int \<times> int) list) result" where
  "slice_points points s e =
     (if e < length points \<and> s \<le> e + 1 then Inr (drop s (take (e + 1) points)) else Inl DrawPanic)"

definition draw_y_tick :: "(draw_command \<Rightarrow> 's drawing) \<Rightarrow> theme \<Rightarrow> chart_layout \<Rightarrow> y_tick_layout \<Rightarrow> 's drawing" where
  "draw_y_tick draw t l tick =
     job_bind (draw (DrawPath [(plot_left l, yt_y tick), (plot_right l, yt_y tick)]
                 (Rgba (grid_color (palette t))) (grid_stroke_width_px (axis_t t)))) (\<lambda>_.
     draw_text draw t (yt_label tick) (axis_tick_font_px (typography t)) (muted_text (palette t)) UprightText)"

definition draw_x_tick :: "(draw_command \<Rightarrow> 's drawing) \<Rightarrow> theme \<Rightarrow> chart_layout \<Rightarrow> x_tick_layout \<Rightarrow> 's drawing" where
  "draw_x_tick draw t l tick =
     job_bind (draw (DrawPath [(xt_x tick, plot_bottom l), (xt_x tick, i32 (plot_bottom l + x_tick_length_px (axis_t t)))]
                 (Rgb (axis_color (palette t))) (tick_stroke_width_px (axis_t t)))) (\<lambda>_.
     draw_text draw t (xt_label tick) (axis_tick_font_px (typography t)) (muted_text (palette t)) RotatedText)"

definition draw_layer :: "(draw_command \<Rightarrow> 's drawing) \<Rightarrow> theme \<Rightarrow> (int \<times> int) list \<Rightarrow> movement_layer \<Rightarrow> 's drawing" where
  "draw_layer draw t points layer =
     job_bind (job_lift (slice_points points (ml_start_idx layer) (ml_end_idx layer))) (\<lambda>path.
     job_bind (draw (DrawPath path (Rgb (ml_line_color layer)) (line_width_px (movement t)))) (\<lambda>_.
     job_bind
       (case label_bg (movement t) of
          None \<Rightarrow> job_return ()
        | Some bg \<Rightarrow>
            (let pad_x = label_bg_padding_x_px (movement t); pad_y = label_bg_padding_y_px (movement t); p = ml_label layer
             in draw (FilledRectangle (i32 (pt_x p - pad_x), i32 (pt_y p - pad_y))
                   (i32 (pt_x p + box_width (pt_bbox p) + pad_x), i32 (pt_y p + box_height (pt_bbox p) + pad_y)) (Rgba bg)))) (\<lambda>_.
     draw_text draw t (ml_label layer) (movement_label_font_px (typography t)) (ml_label_color layer) UprightText)))"

definition draw_point :: "(draw_command \<Rightarrow> 's drawing) \<Rightarrow> theme \<Rightarrow> int \<times> int \<Rightarrow> 's drawing" where
  "draw_point draw t p =
     job_bind (draw (FilledCircle p (i32 (point_radius_px (series t) + point_outline_extra_radius_px (series t)))
                 (point_outline (series t)))) (\<lambda>_.
     draw (FilledCircle p (point_radius_px (series t)) (point_fill (series t))))"

definition draw_plan :: "(draw_command \<Rightarrow> 's drawing) \<Rightarrow> theme \<Rightarrow> chart_plan \<Rightarrow> 's drawing" where
  "draw_plan draw t plan =
     (let l = cp_layout plan; axis_style = Rgb (axis_color (palette t)); stroke = axis_stroke_width_px (axis_t t) in
      job_bind (draw (FillCanvas (canvas_bg (palette t)))) (\<lambda>_.
      job_bind (draw (FilledRectangle (plot_left l, plot_top l) (plot_right l, plot_bottom l) (Rgb (plot_bg (palette t))))) (\<lambda>_.
      job_bind (draw_text draw t (cl_title l) (title_font_px (typography t)) (text_color (palette t)) UprightText) (\<lambda>_.
      job_bind (draw_text draw t (cl_subtitle l) (subtitle_font_px (typography t)) (muted_text (palette t)) UprightText) (\<lambda>_.
      job_bind (draw_all (draw_y_tick draw t l) (y_ticks l)) (\<lambda>_.
      job_bind (draw (DrawPath [(plot_left l, plot_top l), (plot_left l, plot_bottom l)] axis_style stroke)) (\<lambda>_.
      job_bind (draw (DrawPath [(plot_left l, plot_bottom l), (plot_right l, plot_bottom l)] axis_style stroke)) (\<lambda>_.
      job_bind (draw_all (draw_x_tick draw t l) (x_ticks l)) (\<lambda>_.
      job_bind (draw (DrawPath (cp_points plan) (Rgb (quote_line (series t))) (quote_width_px (series t)))) (\<lambda>_.
      job_bind (draw_all (draw_layer draw t (cp_points plan)) (cp_movement_layers plan)) (\<lambda>_.
      job_bind (draw_all (draw_point draw t) (cp_points plan)) (\<lambda>_.
      draw_all (\<lambda>p. draw_text draw t p (axis_label_font_px (typography t)) (muted_text (palette t)) UprightText)
        (axis_labels l)))))))))))))"

section \<open>Pixels and PNG\<close>

text \<open>
  \<open>BitMapBackend::with_buffer\<close> turns the buffer into a drawing area; \<open>present\<close> flushes it and
  the pixels are in the buffer.
\<close>

record 'd drawing_ops =
  with_buffer :: "u8 list \<Rightarrow> u32 \<times> u32 \<Rightarrow> 'd"
  draw_cmd :: "draw_command \<Rightarrow> 'd drawing"
  present :: "'d drawing"
  buffer_of :: "'d \<Rightarrow> u8 list"

definition rasterize_rgb :: "'d drawing_ops \<Rightarrow> theme \<Rightarrow> chart_plan \<Rightarrow> (draw_error, u8 list) result" where
  "rasterize_rgb ops t plan =
     (let w = canvas_width (canvas t); h = canvas_height (canvas t);
          rgb = replicate (unat w * unat h * 3) 0
      in case job_bind (draw_plan (draw_cmd ops) t plan) (\<lambda>_. present ops) (with_buffer ops rgb (w, h)) of
           (Inl e, _) \<Rightarrow> Inl e
         | (Inr _, area) \<Rightarrow> Inr (buffer_of ops area))"

datatype compression_type = CompressFast | CompressDefault | CompressLevel u8 | CompressNot
datatype filter_type = Adaptive | NoFilter

record 'raw png_ops =
  write_image :: "compression_type \<Rightarrow> filter_type \<Rightarrow> u8 list \<Rightarrow> u32 \<Rightarrow> u32 \<Rightarrow> (rstr, u8 list) result"
  raw_image :: "u32 \<Rightarrow> u32 \<Rightarrow> u8 list \<Rightarrow> (rstr, 'raw) result"
  create_optimized_png :: "'raw \<Rightarrow> u8 \<Rightarrow> (rstr, u8 list) result"

definition encode_png_with_image ::
  "'raw png_ops \<Rightarrow> theme \<Rightarrow> u8 list \<Rightarrow> compression_type \<Rightarrow> filter_type \<Rightarrow> (rstr, u8 list) result" where
  "encode_png_with_image ops t rgb compression flt =
     write_image ops compression flt rgb (canvas_width (canvas t)) (canvas_height (canvas t))"

definition encode_png_with_oxipng_raw :: "'raw png_ops \<Rightarrow> theme \<Rightarrow> u8 list \<Rightarrow> u8 \<Rightarrow> (rstr, u8 list) result" where
  "encode_png_with_oxipng_raw ops t rgb preset =
     bind_res (raw_image ops (canvas_width (canvas t)) (canvas_height (canvas t)) rgb)
       (\<lambda>raw. create_optimized_png ops raw (min preset 6))"

definition encode_png :: "'raw png_ops \<Rightarrow> theme \<Rightarrow> u8 list \<Rightarrow> (rstr, u8 list \<times> png_stats) result" where
  "encode_png ops t rgb =
     bind_res
       (case png_mode t of
          Fast \<Rightarrow> encode_png_with_image ops t rgb CompressFast Adaptive
        | Balanced \<Rightarrow> encode_png_with_image ops t rgb CompressDefault Adaptive
        | Level level \<Rightarrow> encode_png_with_image ops t rgb (CompressLevel (max 1 (min level 9))) Adaptive
        | Uncompressed \<Rightarrow> encode_png_with_image ops t rgb CompressNot NoFilter
        | OxipngRaw preset \<Rightarrow> encode_png_with_oxipng_raw ops t rgb preset)
       (\<lambda>png. Inr (png, \<lparr>ps_mode = mode_name (png_mode t), ps_png_bytes = length png\<rparr>))"

section \<open>Movement labels stay inside the plot\<close>

lemma clamp_i32_inside: "lo \<le> hi \<Longrightarrow> lo \<le> clamp_i32 v lo hi \<and> clamp_i32 v lo hi \<le> hi"
  by (simp add: clamp_i32_def)

definition sane_labels :: "theme \<Rightarrow> bool" where
  "sane_labels t \<longleftrightarrow> small (label_bg_padding_x_px (movement t)) \<and> small (label_bg_padding_y_px (movement t)) \<and>
     small (movement_label_canvas_gap_px (layout_t t))"

text \<open>The room a label needs: its box, its background's padding and the gap to the frame.\<close>

definition label_fits :: "theme \<Rightarrow> chart_layout \<Rightarrow> text_box \<Rightarrow> bool" where
  "label_fits t l b \<longleftrightarrow>
     (let gap = movement_label_canvas_gap_px (layout_t t) in
      0 \<le> box_width b \<and> box_width b + 2 * (fst (label_pads t) + gap) \<le> plot_width l \<and>
      0 \<le> box_height b \<and> box_height b + 2 * (snd (label_pads t) + gap) \<le> plot_height l)"

lemma label_pads_small: "sane_labels t \<Longrightarrow> small (fst (label_pads t)) \<and> small (snd (label_pads t))"
  by (auto simp: sane_labels_def label_pads_def small_def split: option.splits)

text \<open>A movement label is never cut: whatever segment it belongs to, if the plot has room for
  the label with its background, the label is placed so that the background lies inside the
  plot, the theme's gap away from its frame.\<close>

theorem movement_label_inside:
  assumes "sane_theme t" "sane_labels t" "fits_canvas t l" "label_fits t l b"
  shows "case place_label t l kind p1 p2 b of (x, y) \<Rightarrow>
      let gap = movement_label_canvas_gap_px (layout_t t); pad_x = fst (label_pads t); pad_y = snd (label_pads t) in
      plot_left l + gap \<le> x - pad_x \<and> x + box_width b + pad_x \<le> plot_right l - gap \<and>
      plot_top l + gap \<le> y - pad_y \<and> y + box_height b + pad_y \<le> plot_bottom l - gap"
proof -
  define gap where "gap = movement_label_canvas_gap_px (layout_t t)"
  define pad_x pad_y where "pad_x = fst (label_pads t)" and "pad_y = snd (label_pads t)"
  note pads = label_pads_small [OF assms(2)]
  have sm: "0 \<le> gap" "gap \<le> 1000" "0 \<le> pad_x" "pad_x \<le> 1000" "0 \<le> pad_y" "pad_y \<le> 1000"
    using pads assms(2) by (simp_all add: sane_labels_def small_def gap_def pad_x_def pad_y_def)
  have canvas: "0 \<le> plot_left l" "plot_right l \<le> 2 ^ 14" "0 \<le> plot_top l" "plot_bottom l \<le> 2 ^ 14"
    "plot_width l = plot_right l - plot_left l" "plot_height l = plot_bottom l - plot_top l"
    using assms(1,3) by (auto simp: fits_canvas_def sane_theme_def)
  have fits: "0 \<le> box_width b" "box_width b + 2 * (pad_x + gap) \<le> plot_width l"
    "0 \<le> box_height b" "box_height b + 2 * (pad_y + gap) \<le> plot_height l"
    using assms(4) by (simp_all add: label_fits_def Let_def gap_def pad_x_def pad_y_def)
  have w: "i32 (plot_left l + pad_x + gap) = plot_left l + pad_x + gap"
    "i32 (plot_right l - box_width b - pad_x - gap) = plot_right l - box_width b - pad_x - gap"
    "i32 (plot_top l + pad_y + gap) = plot_top l + pad_y + gap"
    "i32 (plot_bottom l - box_height b - pad_y - gap) = plot_bottom l - box_height b - pad_y - gap"
    using sm canvas fits by (simp_all add: in_i32_def)
  obtain x y where xy: "place_label t l kind p1 p2 b =
      (clamp_i32 x (plot_left l + pad_x + gap) (plot_right l - box_width b - pad_x - gap),
       clamp_i32 y (plot_top l + pad_y + gap) (plot_bottom l - box_height b - pad_y - gap))"
    using w by (simp add: place_label_def Let_def gap_def pad_x_def pad_y_def)
  have lo: "plot_left l + pad_x + gap \<le> plot_right l - box_width b - pad_x - gap"
    using fits(2) canvas(5) by (simp add: algebra_simps)
  have hi: "plot_top l + pad_y + gap \<le> plot_bottom l - box_height b - pad_y - gap"
    using fits(4) canvas(6) by (simp add: algebra_simps)
  from clamp_i32_inside [OF lo, of x] clamp_i32_inside [OF hi, of y]
  show ?thesis
    unfolding xy Let_def prod.case gap_def [symmetric] pad_x_def [symmetric] pad_y_def [symmetric] by linarith
qed

definition sample_chart :: chart_layout where
  "sample_chart = \<lparr>cl_width = 1280, cl_height = 720, plot_left = 100, plot_right = 1200, plot_top = 100,
     plot_bottom = 600, plot_width = 1100, plot_height = 500, y_min_cent = 550, y_max_cent = 600, px_per_cent = 10,
     cl_title = \<lparr>pt_text = [], pt_x = 0, pt_y = 0, pt_bbox = \<lparr>box_width = 0, box_height = 0\<rparr>\<rparr>,
     cl_subtitle = \<lparr>pt_text = [], pt_x = 0, pt_y = 0, pt_bbox = \<lparr>box_width = 0, box_height = 0\<rparr>\<rparr>,
     y_ticks = [], x_ticks = [], axis_labels = []\<rparr>"

theorem movement_label_inside_witness:
  "case place_label default_theme sample_chart Rise (100, 100) (120, 110) \<lparr>box_width = 90, box_height = 22\<rparr> of (x, y) \<Rightarrow>
     100 + 4 \<le> x \<and> x + 90 \<le> 1200 - 4 \<and> 100 + 4 \<le> y \<and> y + 22 \<le> 600 - 4"
proof -
  have "sane_labels default_theme" "fits_canvas default_theme sample_chart"
    "label_fits default_theme sample_chart \<lparr>box_width = 90, box_height = 22\<rparr>"
    by (simp_all add: sane_labels_def small_def fits_canvas_def label_fits_def label_pads_def sample_chart_def
      default_theme_def default_layout_def)
  from movement_label_inside [OF default_theme_sane this, of Rise "(100, 100)" "(120, 110)"]
  show ?thesis
    by (simp add: label_pads_def sample_chart_def default_theme_def default_layout_def Let_def)
qed

section \<open>A plan can always be drawn\<close>

lemma detected_in_range:
  assumes "mv \<in> set (detect_important_moves qs th)"
  shows "start_idx mv < end_idx mv" and "end_idx mv < length qs"
proof -
  from detected_moves [of qs th] assms obtain s e where "mv = run_move qs s e" "maximal_run qs s e" by blast
  then show "start_idx mv < end_idx mv" and "end_idx mv < length qs"
    using one_way_less by (auto simp: run_move_def maximal_run_def)
qed

definition layer_of :: "important_move \<Rightarrow> movement_layer \<Rightarrow> bool" where
  "layer_of mv ml \<longleftrightarrow> ml_start_idx ml = start_idx mv \<and> ml_end_idx ml = end_idx mv \<and>
     pt_text (ml_label ml) = format_delta (delta mv)"

lemma triple_layer:
  assumes "start_idx mv < length points" "end_idx mv < length points"
  shows "triple (sized t) (build_movement_layer t points l mv) E (\<lambda>ml c. sized t c \<and> layer_of mv ml)"
  using assms unfolding build_movement_layer_def Let_def point_at_def
  by (simp, intro triple_bind [OF triple_pre [OF triple_measure [where \<phi> = True and Q = "\<lambda>_. True"]]])
    (auto intro!: triple_return simp: layer_of_def)

definition good_plan :: "quote list \<Rightarrow> important_move list \<Rightarrow> chart_plan \<Rightarrow> bool" where
  "good_plan qs moves p \<longleftrightarrow>
     cp_points p = plan_points qs (cp_layout p) \<and> list_all2 layer_of moves (cp_movement_layers p)"

lemma triple_plan:
  assumes "triple (sized t) (build_layout qs moves t) E (\<lambda>l c. good_layout t qs l)"
    and "\<And>mv. mv \<in> set moves \<Longrightarrow> start_idx mv < length qs \<and> end_idx mv < length qs"
  shows "triple (sized t) (plan_chart t qs moves) E
    (\<lambda>p c. sized t c \<and> good_layout t qs (cp_layout p) \<and> good_plan qs moves p)"
  unfolding plan_chart_def Let_def
proof (rule triple_bind [OF settled_triple [OF settled_build_layout assms(1)]], rule triple_pure_pre)
  fix l assume l: "good_layout t qs l"
  have layers: "triple (sized t) (job_map (build_movement_layer t (plan_points qs l) l) moves) E
      (\<lambda>xs c. sized t c \<and> list_all2 layer_of moves xs)"
    using assms(2) by (intro triple_map triple_layer) (simp_all add: plan_points_def)
  show "triple (sized t)
      (job_bind (job_map (build_movement_layer t (plan_points qs l) l) moves)
        (\<lambda>layers. job_return \<lparr>cp_layout = l, cp_points = plan_points qs l, cp_movement_layers = layers\<rparr>)) E
      (\<lambda>p c. sized t c \<and> good_layout t qs (cp_layout p) \<and> good_plan qs moves p)"
    by (rule triple_bind [OF layers]) (auto intro!: triple_return simp: l good_plan_def)
qed

text \<open>A job that fails in no other way than its parts may.\<close>

abbreviation calm :: "('e \<Rightarrow> bool) \<Rightarrow> ('e, 's, 'a) job \<Rightarrow> bool" where
  "calm E j \<equiv> triple (\<lambda>_. True) j E (\<lambda>_ _. True)"

lemma calm_bind: "calm E j \<Longrightarrow> (\<And>x. calm E (f x)) \<Longrightarrow> calm E (job_bind j f)"
  by (rule triple_bind)

lemma calm_return: "calm E (job_return x)"
  by (simp add: triple_return)

lemma calm_all: "(\<And>i. i \<in> set is \<Longrightarrow> calm E (f i)) \<Longrightarrow> calm E (draw_all f is)"
  unfolding draw_all_def
  by (induction "is") (auto intro!: triple_bind [where Q = "\<lambda>_ _. True"] triple_return)

lemma calm_layer:
  assumes "\<And>c. calm E (draw c)" "ml_start_idx ml \<le> ml_end_idx ml" "ml_end_idx ml < length points"
  shows "calm E (draw_layer draw t points ml)"
  using assms unfolding draw_layer_def Let_def draw_text_def slice_points_def
  by (auto intro!: triple_bind [where Q = "\<lambda>_ _. True"] triple_return split: option.splits)

lemma calm_draw_plan:
  assumes "\<And>c. calm E (draw c)"
    and "\<And>ml. ml \<in> set (cp_movement_layers p) \<Longrightarrow> ml_start_idx ml \<le> ml_end_idx ml \<and> ml_end_idx ml < length (cp_points p)"
  shows "calm E (draw_plan draw t p)"
  using assms unfolding draw_plan_def Let_def draw_text_def draw_y_tick_def draw_x_tick_def draw_point_def
  by (intro calm_bind calm_all calm_layer) auto

text \<open>C32: Planning never panics and a plan can always be drawn: for a sane theme and sane prices,
  planning the detected moves reports that there is no room, or gives a plan with one point
  per quote inside the plot and one labelled layer per move, and drawing that plan on any
  backend does not panic.\<close>

theorem plan_is_drawable:
  assumes "sane_theme t" "sane_quotes qs" "right_sizes (typography t) cache"
    and "\<And>c. triple (\<lambda>_. True) (draw c) (\<lambda>e. e \<noteq> DrawPanic) (\<lambda>_ _. True)"
  shows "case fst (plan_chart t qs (detect_important_moves qs th) cache) of
      Inl e \<Rightarrow> \<exists>m. e = LayoutError m
    | Inr p \<Rightarrow> cp_points p = plan_points qs (cp_layout p) \<and> points_inside qs (cp_layout p) \<and>
        list_all2 layer_of (detect_important_moves qs th) (cp_movement_layers p) \<and>
        fst (draw_plan draw t p s) \<noteq> Inl DrawPanic"
proof (cases "plan_chart t qs (detect_important_moves qs th) cache")
  case (Pair r c')
  note range = detected_in_range [of _ qs th]
  have plan: "triple (sized t) (plan_chart t qs (detect_important_moves qs th)) reported
      (\<lambda>p c. sized t c \<and> good_layout t qs (cp_layout p) \<and> good_plan qs (detect_important_moves qs th) p)"
    by (rule triple_plan [OF triple_build_layout [OF assms(1,2)]]) (use range in fastforce)
  show ?thesis
  proof (cases r)
    case (Inl e)
    with tripleD_Inl [OF plan assms(3)] Pair show ?thesis by (simp add: reported_def)
  next
    case (Inr p)
    with tripleD_Inr [OF plan assms(3)] Pair
    have p: "good_layout t qs (cp_layout p)" "good_plan qs (detect_important_moves qs th) p" by simp_all
    from p(2) have layers: "list_all2 layer_of (detect_important_moves qs th) (cp_movement_layers p)"
      and points: "length (cp_points p) = length qs" by (simp_all add: good_plan_def plan_points_def)
    have ok: "ml_start_idx ml \<le> ml_end_idx ml \<and> ml_end_idx ml < length (cp_points p)" if ml: "ml \<in> set (cp_movement_layers p)" for ml
    proof -
      from list_all2_right [OF layers ml] obtain mv where "mv \<in> set (detect_important_moves qs th)" "layer_of mv ml" by blast
      with range [of mv] points show ?thesis by (simp add: layer_of_def)
    qed
    have "triple (\<lambda>_. True) (draw_plan draw t p) (\<lambda>e. e \<noteq> DrawPanic) (\<lambda>_ _. True)"
      by (rule calm_draw_plan [OF assms(4) ok])
    then have "fst (draw_plan draw t p s) \<noteq> Inl DrawPanic"
      by (cases "draw_plan draw t p s") (auto simp: triple_def dest: spec [of _ s])
    with p Inr Pair show ?thesis by (simp add: good_plan_def good_layout_def)
  qed
qed

definition collect :: "draw_command \<Rightarrow> draw_command list drawing" where
  "collect c cs = (Inr (), cs @ [c])"

theorem plan_is_drawable_witness:
  "case fst (plan_chart default_theme sample_quotes (detect_important_moves sample_quotes 3) []) of
      Inl e \<Rightarrow> \<exists>m. e = LayoutError m
    | Inr p \<Rightarrow> cp_points p = plan_points sample_quotes (cp_layout p) \<and> points_inside sample_quotes (cp_layout p) \<and>
        list_all2 layer_of (detect_important_moves sample_quotes 3) (cp_movement_layers p) \<and>
        fst (draw_plan collect default_theme p []) \<noteq> Inl DrawPanic"
  by (rule plan_is_drawable [OF default_theme_sane sample_quotes_sane right_sizes_Nil])
    (simp add: triple_def collect_def)

section \<open>A plan does not depend on what was measured before\<close>

lemma settled_plan: "settled t (plan_chart t qs moves)"
  unfolding plan_chart_def build_movement_layer_def Let_def
  by (intro settled_rules settled_build_layout)

lemma settled_warm_up: "settled t (warm_up t qs moves)"
  unfolding warm_up_def Let_def by (intro settled_rules)

lemma warm_up_works: "triple (sized t) (warm_up t qs moves) E (\<lambda>_. sized t)"
proof -
  have m: "triple (sized t) (measure_in t s px rot) E (\<lambda>_. sized t)" for s px rot
    by (rule triple_post [OF triple_measure_in]) simp
  have maps: "triple (sized t) (job_map f is) E (\<lambda>_. sized t)" if "\<And>i. triple (sized t) (f i) E (\<lambda>_. sized t)"
    for f :: "'i \<Rightarrow> text_box lay" and "is"
    by (rule triple_post [OF triple_map [where R = "\<lambda>_ _. True"]]) (use that in simp_all)
  show ?thesis
    unfolding warm_up_def Let_def
    by (rule triple_bind [OF maps [OF triple_bind [OF m triple_bind [OF m m]]]
        triple_bind [OF maps [OF triple_bind [OF m m]] triple_bind [OF maps [OF m] triple_return]]])
qed

end
