(* ===== verification/PlotDemo.thy ===== *)
theory PlotDemo
  imports Demoscene Render
begin

text \<open>
  The chart animation: \<open>src/src/plot/demo.rs\<close>. \<open>plot\<close> draws one frame and sends it, or edits the
  message it is shown in; \<open>demo\<close> reads the options, loads the quotes and plays one frame per
  prefix of them. What lies outside (the web service, the calendar, the command line, the
  drawing backend, the PNG encoders, the file system) is the record \<open>studio\<close>. The timings the
  code collects are never read there and are left out.
\<close>

datatype plot_error = PlotError rstr | BadNumber rstr | PlotPanic | PlotHangs

section \<open>Options\<close>

record cli =
  cli_output :: rstr
  cli_synthetic :: bool
  cli_threshold_cents :: "int option"
  cli_png_mode :: "png_encode_mode option"

definition parse_u8 :: "rstr \<Rightarrow> (plot_error, u8) result" where
  "parse_u8 v = map_sum id of_nat (ok_or (BadNumber v) (parse_unsigned 256 v))"

definition parse_png_mode :: "rstr \<Rightarrow> (plot_error, png_encode_mode) result" where
  "parse_png_mode value =
     (if value = ''fast'' then Inr Fast
      else if value = ''balanced'' \<or> value = ''default'' then Inr Balanced
      else if value = ''uncompressed'' then Inr Uncompressed
      else case strip_pre ''level:'' value of
          Some v \<Rightarrow>
            bind_res (parse_u8 v) (\<lambda>level.
              if \<not> (1 \<le> level \<and> level \<le> 9) then Inl (PlotError ''--png-mode=level:N requires N between 1 and 9'')
              else Inr (Level level))
        | None \<Rightarrow>
            (case strip_pre ''oxipng-raw:'' value of
               Some v \<Rightarrow>
                 bind_res (parse_u8 v) (\<lambda>preset.
                   if 6 < preset then Inl (PlotError ''--png-mode=oxipng-raw:N requires N between 0 and 6'')
                   else Inr (OxipngRaw preset))
             | None \<Rightarrow> Inl (PlotError ''--png-mode must be fast, balanced, uncompressed, level:N, or oxipng-raw:N'')))"

text \<open>The body of the loop over the arguments.\<close>

definition parse_arg :: "rstr \<Rightarrow> cli \<Rightarrow> (plot_error, cli) result" where
  "parse_arg arg cli =
     (if arg = ''--synthetic'' then Inr (cli\<lparr>cli_synthetic := True\<rparr>)
      else if arg = ''--no-optimize'' then Inr (cli\<lparr>cli_png_mode := Some Fast\<rparr>)
      else case strip_pre ''--output='' arg of Some v \<Rightarrow> Inr (cli\<lparr>cli_output := v\<rparr>) | None \<Rightarrow>
      case strip_pre ''--threshold-cents='' arg of
        Some v \<Rightarrow>
          bind_res (ok_or (BadNumber v) (parse_i32 v)) (\<lambda>cents.
            if cents \<le> 0 then Inl (PlotError ''--threshold-cents must be positive'')
            else Inr (cli\<lparr>cli_threshold_cents := Some cents\<rparr>))
      | None \<Rightarrow>
      case strip_pre ''--optimize-preset='' arg of
        Some v \<Rightarrow>
          bind_res (parse_u8 v) (\<lambda>preset.
            if 6 < preset then Inl (PlotError ''--optimize-preset must be between 0 and 6'')
            else Inr (cli\<lparr>cli_png_mode := Some (OxipngRaw preset)\<rparr>))
      | None \<Rightarrow>
      case strip_pre ''--png-mode='' arg of
        Some v \<Rightarrow> bind_res (parse_png_mode v) (\<lambda>mode. Inr (cli\<lparr>cli_png_mode := Some mode\<rparr>))
      | None \<Rightarrow> Inl (PlotError (''unknown argument: '' @ arg)))"

definition default_cli :: cli where
  "default_cli = \<lparr>cli_output = ''/tmp/usd_brl.png'', cli_synthetic = False, cli_threshold_cents = None,
     cli_png_mode = Some Balanced\<rparr>"

fun parse_args :: "rstr list \<Rightarrow> cli \<Rightarrow> (plot_error, cli) result" where
  "parse_args [] cli = Inr cli"
| "parse_args (arg # args) cli = bind_res (parse_arg arg cli) (parse_args args)"

text \<open>The arguments are those of the process, its name included.\<close>

definition parse_cli :: "rstr list \<Rightarrow> (plot_error, cli) result" where
  "parse_cli args = parse_args (drop 1 args) default_cli"

section \<open>One frame\<close>

record ('d, 'raw, 's) studio =
  drawing_ops :: "'d drawing_ops"
  png_ops :: "'raw png_ops"
  write_file :: "rstr \<Rightarrow> u8 list \<Rightarrow> (rstr, 's, unit) job"
  process_args :: "rstr list"
  http_get :: "rstr \<Rightarrow> (rstr, 's, bcb_quote list) job"
  today :: date
  plus_days :: "date \<Rightarrow> nat \<Rightarrow> date"
  minus_days :: "date \<Rightarrow> nat \<Rightarrow> date"
  parse_date :: "rstr \<Rightarrow> (rstr, date) result"

text \<open>The engine's cache, the message shown so far, and the world.\<close>

type_synonym 's screen = "metrics \<times> int option \<times> 's"
type_synonym ('s, 'a) frame_job = "(plot_error, 's screen, 'a) job"

fun of_layout_error :: "layout_error \<Rightarrow> plot_error" where
  "of_layout_error (LayoutError m) = PlotError m"
| "of_layout_error IndexPanic = PlotPanic"
| "of_layout_error NeverReturns = PlotHangs"

fun of_draw_error :: "draw_error \<Rightarrow> plot_error" where
  "of_draw_error (BackendError m) = PlotError m"
| "of_draw_error DrawPanic = PlotPanic"

definition with_metrics :: "'a lay \<Rightarrow> ('s, 'a) frame_job" where
  "with_metrics j w = (case w of (c, m, s) \<Rightarrow> case j c of (r, c') \<Rightarrow> (map_err of_layout_error r, (c', m, s)))"

definition with_world :: "(rstr, 's, 'a) job \<Rightarrow> ('s, 'a) frame_job" where
  "with_world j w = (case w of (c, m, s) \<Rightarrow> case j s of (r, s') \<Rightarrow> (map_err PlotError r, (c, m, s')))"

definition generated_png :: rstr where
  "generated_png = ''/tmp/brl2usd.png''"

definition plot_caption :: "nat \<Rightarrow> nat \<Rightarrow> nat \<Rightarrow> png_stats \<Rightarrow> rstr" where
  "plot_caption n_quotes n_moves n_metrics stats =
     ''generated '' @ generated_png @ '' with '' @ show_nat n_quotes @ '' quotes, '' @ show_nat n_moves @
     '' important move(s), metric-cache='' @ show_nat n_metrics @ '' entries, png-mode='' @ ps_mode stats @
     '', png='' @ show_nat (ps_png_bytes stats) @ '' bytes''"

text \<open>Planning, rasterizing and encoding.\<close>

definition render_frame ::
  "('d, 'raw, 's) studio \<Rightarrow> theme \<Rightarrow> quote list \<Rightarrow> important_move list \<Rightarrow> ('w, u8 list \<times> png_stats) frame_job" where
  "render_frame ou t qs moves =
     job_bind (with_metrics (plan_chart t qs moves)) (\<lambda>plan.
     job_bind (job_lift (map_err of_draw_error (rasterize_rgb (drawing_ops ou) t plan))) (\<lambda>rgb.
     job_lift (map_err PlotError (encode_png (png_ops ou) t rgb))))"

text \<open>The first frame is sent, the later ones replace it.\<close>

definition show_frame :: "'s bot_api \<Rightarrow> chat_id \<Rightarrow> rstr \<Rightarrow> ('s, unit) frame_job" where
  "show_frame tg chat caption w =
     (case w of (c, msg, s) \<Rightarrow>
        (case msg of
           None \<Rightarrow>
             (case api_call tg (SendMedia chat (PhotoFile generated_png) (''FIRST! '' @ caption)) s of
                (Inl e, s') \<Rightarrow> (Inl (PlotError e), (c, None, s'))
              | (Inr m, s') \<Rightarrow> (Inr (), (c, Some m, s')))
         | Some m \<Rightarrow> with_world (forget (api_call tg (EditMessageMedia chat m (PhotoFile generated_png) caption))) w))"

definition caption_now :: "nat \<Rightarrow> nat \<Rightarrow> png_stats \<Rightarrow> ('s, rstr) frame_job" where
  "caption_now n_quotes n_moves stats w =
     (Inr (plot_caption n_quotes n_moves (metric_cache_len (fst w)) stats), w)"

definition plot :: "('d, 'raw, 's) studio \<Rightarrow> 's bot_api \<Rightarrow> chat_id \<Rightarrow> theme \<Rightarrow> quote list \<Rightarrow> ('s, unit) frame_job" where
  "plot ou tg chat engine_theme qs =
     (let moves = detect_important_moves qs (important_delta_cents (movement default_theme)) in
      job_bind (render_frame ou engine_theme qs moves) (\<lambda>(png, stats).
      job_bind (with_world (write_file ou generated_png png)) (\<lambda>_.
      job_bind (caption_now (length qs) (length moves) stats) (\<lambda>caption.
      show_frame tg chat caption))))"

section \<open>The animation\<close>

definition configured_theme :: "cli \<Rightarrow> theme" where
  "configured_theme cli =
     (let t = default_theme;
          t = (case cli_threshold_cents cli of
                 None \<Rightarrow> t
               | Some threshold \<Rightarrow> t\<lparr>movement := (movement t)\<lparr>important_delta_cents := threshold\<rparr>\<rparr>)
      in case cli_png_mode cli of None \<Rightarrow> t | Some mode \<Rightarrow> t\<lparr>png_mode := mode\<rparr>)"

text \<open>When the web service fails the synthetic quotes stand in; a panic is no failure.\<close>

definition load_quotes :: "('d, 'raw, 's) studio \<Rightarrow> cli \<Rightarrow> (plot_error, 's, quote list) job" where
  "load_quotes ou cli s =
     (if cli_synthetic cli then (Inr (synthetic_quotes (plus_days ou)), s)
      else case http_get ou (bcb_url (minus_days ou) (today ou)) s of
        (response, s') \<Rightarrow>
          (case fetch_quotes (parse_date ou) response 90 of
             Inr qs \<Rightarrow> (Inr qs, s')
           | Inl SlicePanic \<Rightarrow> (Inl PlotPanic, s')
           | Inl _ \<Rightarrow> (Inr (synthetic_quotes (plus_days ou)), s')))"

definition play_frame :: "('d, 'raw, 's) studio \<Rightarrow> 's bot_api \<Rightarrow> chat_id \<Rightarrow> theme \<Rightarrow> quote list \<Rightarrow> nat \<Rightarrow> ('s, unit) frame_job" where
  "play_frame ou tg chat t qs len =
     job_bind (plot ou tg chat t (take len qs)) (\<lambda>_. with_world (pause tg 5000))"

definition play :: "('d, 'raw, 's) studio \<Rightarrow> 's bot_api \<Rightarrow> chat_id \<Rightarrow> theme \<Rightarrow> quote list \<Rightarrow> ('s, unit) frame_job" where
  "play ou tg chat t qs =
     job_bind (with_metrics (warm_up t qs (detect_important_moves qs (important_delta_cents (movement t))))) (\<lambda>_.
     job_iter (\<lambda>len _. play_frame ou tg chat t qs len) [3..<Suc (length qs)] ())"

definition with_engine :: "('s, 'a) frame_job \<Rightarrow> (plot_error, 's, 'a) job" where
  "with_engine j s = (case j ([], None, s) of (r, (_, _, s')) \<Rightarrow> (r, s'))"

definition plot_demo :: "('d, 'raw, 's) studio \<Rightarrow> 's bot_api \<Rightarrow> chat_id \<Rightarrow> (plot_error, 's, unit) job" where
  "plot_demo ou tg chat =
     job_bind (job_lift (parse_cli (process_args ou))) (\<lambda>cli.
     job_bind (load_quotes ou cli) (\<lambda>qs.
     with_engine (play ou tg chat (configured_theme cli) qs)))"

section \<open>The options accepted\<close>

definition mode_in_range :: "png_encode_mode \<Rightarrow> bool" where
  "mode_in_range m =
     (case m of Level n \<Rightarrow> 1 \<le> n \<and> n \<le> 9 | OxipngRaw preset \<Rightarrow> preset \<le> 6 | _ \<Rightarrow> True)"

text \<open>How a mode is written.\<close>

definition mode_arg :: "png_encode_mode \<Rightarrow> rstr" where
  "mode_arg m =
     (case m of Fast \<Rightarrow> ''fast'' | Balanced \<Rightarrow> ''balanced'' | Uncompressed \<Rightarrow> ''uncompressed''
      | Level n \<Rightarrow> ''level:'' @ show_u8 n | OxipngRaw preset \<Rightarrow> ''oxipng-raw:'' @ show_u8 preset)"

lemma parsed_mode_in_range: "parse_png_mode v = Inr m \<Longrightarrow> mode_in_range m"
  by (auto simp: parse_png_mode_def mode_in_range_def split: if_splits option.splits)

lemma parse_digit:
  assumes "n < 10"
  shows "parse_unsigned 256 (show_nat n) = Some n"
proof -
  have "show_nat n = [digit_char n]" using assms by (simp add: show_nat_def to_base.simps)
  moreover have "code (digit_char n) = n + 48" using assms by (simp add: code_def digit_char_def)
  moreover from this have "digit_char n \<noteq> CHR ''+''" by (auto simp: code_def)
  ultimately show ?thesis
    using assms by (simp add: parse_unsigned_def parse_digits_def is_digit_def digits_value_def)
qed

lemma digit_u8: "d < (10 :: u8) \<Longrightarrow> parse_u8 (show_u8 d) = Inr d"
  using parse_digit [of "unat d"] by (simp add: parse_u8_def show_u8_def word_less_nat_alt)

lemma parse_mode_arg:
  assumes "mode_in_range m"
  shows "parse_png_mode (mode_arg m) = Inr m"
proof (cases m)
  case (Level n)
  with assms have "n < 10" by (auto simp: mode_in_range_def word_le_nat_alt word_less_nat_alt)
  with Level assms show ?thesis
    by (simp add: parse_png_mode_def mode_arg_def strip_pre_def mode_in_range_def digit_u8)
next
  case (OxipngRaw preset)
  with assms have "preset < 10" by (auto simp: mode_in_range_def word_le_nat_alt word_less_nat_alt)
  with OxipngRaw assms show ?thesis
    by (simp add: parse_png_mode_def mode_arg_def strip_pre_def mode_in_range_def digit_u8)
qed (simp_all add: parse_png_mode_def mode_arg_def)

text \<open>C33: PNG modes: every mode in range can be asked for, parsing its written form gives it back,
  and no text is accepted for a mode out of range.\<close>

theorem png_mode_roundtrip:
  "(mode_in_range m \<longleftrightarrow> (\<exists>v. parse_png_mode v = Inr m)) \<and>
   (mode_in_range m \<longleftrightarrow> parse_png_mode (mode_arg m) = Inr m)"
  using parse_mode_arg parsed_mode_in_range by blast

definition good_cli :: "cli \<Rightarrow> bool" where
  "good_cli cli \<longleftrightarrow> (case cli_threshold_cents cli of None \<Rightarrow> True | Some c \<Rightarrow> 0 < c \<and> in_i32 c) \<and>
     (\<exists>m. cli_png_mode cli = Some m \<and> mode_in_range m)"

lemma parse_i32_fits: "parse_i32 s = Some n \<Longrightarrow> in_i32 n"
  by (auto simp: parse_i32_def in_i32_def dest: parse_unsigned_bound split: if_splits option.splits)

lemma parse_arg_good: "parse_arg arg cli = Inr cli' \<Longrightarrow> good_cli cli \<Longrightarrow> good_cli cli'"
  using parsed_mode_in_range parse_i32_fits
  by (auto simp: parse_arg_def good_cli_def mode_in_range_def ok_or_def split: if_splits option.splits)

lemma parse_args_good: "parse_args args cli = Inr cli' \<Longrightarrow> good_cli cli \<Longrightarrow> good_cli cli'"
  by (induction args arbitrary: cli) (auto dest: parse_arg_good)

lemma parse_cli_good: "parse_cli args = Inr cli \<Longrightarrow> good_cli cli"
  unfolding parse_cli_def
  by (erule parse_args_good) (simp add: default_cli_def good_cli_def mode_in_range_def)

text \<open>Accepted options take effect as given: the demo runs with the configured threshold, positive, and
  the chart is encoded with exactly the level or preset asked for, which is also the one reported;
  the limits of the encoder never bite.\<close>

theorem accepted_options_used:
  assumes "parse_cli args = Inr cli"
  shows "\<exists>m. cli_png_mode cli = Some m \<and> png_mode (configured_theme cli) = m \<and>
      (\<forall>c. cli_threshold_cents cli = Some c \<longrightarrow>
        0 < c \<and> important_delta_cents (movement (configured_theme cli)) = c) \<and>
      (\<forall>n png stats. m = Level n \<longrightarrow> encode_png ops (configured_theme cli) rgb = Inr (png, stats) \<longrightarrow>
        write_image ops (CompressLevel n) Adaptive rgb 1280 720 = Inr png \<and> ps_mode stats = ''image-level-'' @ show_u8 n) \<and>
      (\<forall>n png stats. m = OxipngRaw n \<longrightarrow> encode_png ops (configured_theme cli) rgb = Inr (png, stats) \<longrightarrow>
        (\<exists>raw. raw_image ops 1280 720 rgb = Inr raw \<and> create_optimized_png ops raw n = Inr png) \<and>
        ps_mode stats = ''oxipng-raw-preset-'' @ show_u8 n)"
proof -
  from parse_cli_good [OF assms] obtain m where m: "cli_png_mode cli = Some m" "mode_in_range m"
    and c: "case cli_threshold_cents cli of None \<Rightarrow> True | Some c \<Rightarrow> 0 < c \<and> in_i32 c"
    by (auto simp: good_cli_def)
  have t: "png_mode (configured_theme cli) = m"
    "canvas_width (canvas (configured_theme cli)) = 1280" "canvas_height (canvas (configured_theme cli)) = 720"
    using m(1) by (simp_all add: configured_theme_def default_theme_def Let_def split: option.splits)
  have level: "max 1 (min n 9) = n" if "m = Level n" for n
    using that m(2) by (simp add: mode_in_range_def)
  have preset: "min n 6 = n" if "m = OxipngRaw n" for n
    using that m(2) by (simp add: mode_in_range_def)
  show ?thesis
    using m c t level preset
    by (auto simp: configured_theme_def Let_def encode_png_def encode_png_with_image_def encode_png_with_oxipng_raw_def
      split: option.splits)
qed

lemma sample_args: "parse_cli [''bot'', ''--png-mode=level:7'', ''--threshold-cents=5''] =
    Inr (default_cli\<lparr>cli_png_mode := Some (Level 7), cli_threshold_cents := Some 5\<rparr>)"
  by (simp add: parse_cli_def parse_arg_def strip_pre_def parse_png_mode_def parse_u8_def parse_i32_def parse_unsigned_def
    parse_digits_def is_digit_def digits_value_def code_def)

theorem accepted_options_used_witness:
  "important_delta_cents (movement (configured_theme
     (default_cli\<lparr>cli_png_mode := Some (Level 7), cli_threshold_cents := Some 5\<rparr>))) = 5"
  using accepted_options_used [OF sample_args, of undefined undefined] by auto

section \<open>A frame does not depend on the frames before\<close>

lemma render_frame_fst:
  "fst (render_frame ou t qs moves (c, w)) =
     bind_res (map_err of_layout_error (fst (plan_chart t qs moves c))) (\<lambda>plan.
     bind_res (map_err of_draw_error (rasterize_rgb (drawing_ops ou) t plan)) (\<lambda>rgb.
     map_err PlotError (encode_png (png_ops ou) t rgb)))"
  by (auto simp: render_frame_def with_metrics_def job_bind_def job_lift_def bind_res_def map_err_def
      split: prod.splits sum.splits)

text \<open>C34: A frame does not depend on the frames before it: with any cache the engine may hold, the PNG is the
  one a fresh engine makes, or the same error.\<close>

theorem frame_as_if_fresh:
  assumes "right_sizes (typography t) cache"
  shows "fst (render_frame ou t qs moves (cache, w)) = fst (render_frame ou t qs moves ([], w'))"
  using settled_same [OF settled_plan assms right_sizes_Nil, of qs moves]
  by (simp add: render_frame_fst)

section \<open>The animation is one message\<close>

text \<open>A call that sends no request.\<close>

definition silent :: "('e, bot_call list \<times> 's, 'a) job \<Rightarrow> bool" where
  "silent j \<longleftrightarrow> (\<forall>w. fst (snd (j w)) = fst w)"

definition quiet_studio :: "('d, 'raw, bot_call list \<times> 's) studio \<Rightarrow> bool" where
  "quiet_studio ou \<longleftrightarrow> (\<forall>path png. silent (write_file ou path png)) \<and> (\<forall>url. silent (http_get ou url))"

text \<open>What has been sent after \<open>n\<close> frames.\<close>

definition frames_shown :: "'s bot_api \<Rightarrow> chat_id \<Rightarrow> nat \<Rightarrow> bot_call list \<Rightarrow> int option \<Rightarrow> bool" where
  "frames_shown tg chat n tr msg \<longleftrightarrow>
     (case msg of
        None \<Rightarrow> n = 0 \<and> tr = []
      | Some m \<Rightarrow> (\<exists>cap s edits. tr = SendMedia chat (PhotoFile generated_png) (''FIRST! '' @ cap) # edits \<and>
          fst (api_call tg (SendMedia chat (PhotoFile generated_png) (''FIRST! '' @ cap)) s) = Inr m \<and>
          n = Suc (length edits) \<and>
          list_all (\<lambda>c. \<exists>cap. c = EditMessageMedia chat m (PhotoFile generated_png) cap) edits))"

definition after_frames :: "'s bot_api \<Rightarrow> chat_id \<Rightarrow> nat \<Rightarrow> (bot_call list \<times> 's) screen \<Rightarrow> bool" where
  "after_frames tg chat n w \<longleftrightarrow> (case w of (c, msg, tr, s) \<Rightarrow> frames_shown tg chat n tr msg)"

lemma after_frames [simp]: "after_frames tg chat n (c, msg, tr, s) \<longleftrightarrow> frames_shown tg chat n tr msg"
  by (simp add: after_frames_def)

lemma triple_with_metrics: "triple (after_frames tg chat n) (with_metrics j) (\<lambda>_. True) (\<lambda>_. after_frames tg chat n)"
  by (auto simp: triple_def with_metrics_def map_err_def split: prod.splits sum.splits)

lemma triple_with_silent:
  "silent j \<Longrightarrow> triple (after_frames tg chat n) (with_world j) (\<lambda>_. True) (\<lambda>_. after_frames tg chat n)"
  unfolding triple_def
proof (intro allI impI)
  fix w :: "(bot_call list \<times> 'a) screen"
  assume "silent j" and shown: "after_frames tg chat n w"
  obtain c msg u where w: "w = (c, msg, u)" by (cases w)
  obtain r u' where j: "j u = (r, u')" by (cases "j u")
  with \<open>silent j\<close> have "fst u' = fst u" by (metis silent_def fst_conv snd_conv)
  with shown w j show "case with_world j w of (Inl e, _) \<Rightarrow> True | (Inr x, w') \<Rightarrow> after_frames tg chat n w'"
    by (cases r; cases u; cases u') (simp_all add: with_world_def)
qed

lemma triple_show_frame:
  "triple (after_frames tg chat n) (show_frame (recording tg) chat caption) (\<lambda>_. True) (\<lambda>_. after_frames tg chat (Suc n))"
  unfolding triple_def
proof (intro allI impI)
  fix w :: "(bot_call list \<times> 'a) screen" assume "after_frames tg chat n w"
  moreover obtain c msg tr s where w: "w = (c, msg, tr, s)" by (cases w)
  ultimately have shown: "frames_shown tg chat n tr msg" by simp
  show "case show_frame (recording tg) chat caption w of (Inl e, _) \<Rightarrow> True
      | (Inr x, w') \<Rightarrow> after_frames tg chat (Suc n) w'"
  proof (cases msg)
    case None
    with shown show ?thesis
      by (cases "api_call tg (SendMedia chat (PhotoFile generated_png) (''FIRST! '' @ caption)) s")
        (auto simp: w show_frame_def recording_def frames_shown_def map_err_def split: sum.splits
          intro!: exI [of _ caption] exI [of _ s])
  next
    case (Some m)
    with shown show ?thesis
      by (cases "api_call tg (EditMessageMedia chat m (PhotoFile generated_png) caption) s")
        (auto simp: w show_frame_def recording_def frames_shown_def map_err_def with_world_def forget_def job_bind_def
          job_return_def split: sum.splits)
  qed
qed

lemma silent_pause: "silent (pause (recording tg) ms)"
  by (auto simp: silent_def pause_def recording_def split: prod.splits)

lemma triple_play_frame:
  assumes "quiet_studio ou"
  shows "triple (after_frames tg chat n) (play_frame ou (recording tg) chat t qs len) (\<lambda>_. True)
    (\<lambda>_. after_frames tg chat (Suc n))"
proof -
  have keep: "triple (after_frames tg chat n) (job_lift r) (\<lambda>_. True) (\<lambda>_. after_frames tg chat n)" for r
    by (rule triple_lift) simp_all
  have written: "triple (after_frames tg chat n) (with_world (write_file ou p png)) (\<lambda>_. True) (\<lambda>_. after_frames tg chat n)" for p png
    using assms by (intro triple_with_silent) (simp add: quiet_studio_def)
  have caption: "triple (after_frames tg chat n) (caption_now a b stats) (\<lambda>_. True) (\<lambda>_. after_frames tg chat n)" for a b stats
    by (simp add: triple_def caption_now_def)
  have pause: "triple (after_frames tg chat (Suc n)) (with_world (pause (recording tg) 5000)) (\<lambda>_. True)
      (\<lambda>_. after_frames tg chat (Suc n))"
    by (rule triple_with_silent [OF silent_pause])
  show ?thesis
    unfolding play_frame_def plot_def render_frame_def Let_def case_prod_beta
    by (rule triple_bind [OF triple_bind [OF triple_bind [OF triple_with_metrics triple_bind [OF keep keep]]
          triple_bind [OF written triple_bind [OF caption triple_show_frame]]] pause])
qed

lemma triple_play:
  assumes "quiet_studio ou"
  shows "triple (after_frames tg chat 0) (play ou (recording tg) chat t qs) (\<lambda>_. True)
    (\<lambda>_. after_frames tg chat (length qs - 2))"
proof -
  have "triple (after_frames tg chat 0) (job_iter (\<lambda>len _. play_frame ou (recording tg) chat t qs len) [3..<Suc (length qs)] ())
      (\<lambda>_. True) (\<lambda>_. after_frames tg chat (0 + length [3..<Suc (length qs)]))"
    by (rule triple_count) (rule triple_play_frame [OF assms])
  then have "triple (after_frames tg chat 0) (job_iter (\<lambda>len _. play_frame ou (recording tg) chat t qs len) [3..<Suc (length qs)] ())
      (\<lambda>_. True) (\<lambda>_. after_frames tg chat (length qs - 2))"
    by (simp del: upt_Suc add: numeral_eq_Suc)
  then show ?thesis
    unfolding play_def by (rule triple_bind [OF triple_with_metrics])
qed

lemma fetched_length: "fetch_quotes pd response n = Inr qs \<Longrightarrow> 8 \<le> length qs"
  by (auto simp: fetch_quotes_def Let_def split: if_splits)

lemma loaded_length: "load_quotes ou cli s = (Inr qs, s') \<Longrightarrow> 8 \<le> length qs"
  by (auto simp: load_quotes_def synthetic_quotes_def synthetic_values_def dest: fetched_length
      split: if_splits prod.splits sum.splits fetch_error.splits)

lemma silent_load_quotes: "quiet_studio ou \<Longrightarrow> silent (load_quotes ou cli)"
  by (auto simp: silent_def quiet_studio_def load_quotes_def case_prod_beta
      split: sum.splits fetch_error.splits)

text \<open>C35: The animation is one message: a demo that completes sent the first frame once and then only
  edited that very message, in the same chat, at least five times.\<close>

theorem animation_is_one_message:
  assumes "quiet_studio ou" "plot_demo ou (recording tg) chat ([], s) = (Inr (), (tr, s'))"
  shows "\<exists>m cap s0 edits. tr = SendMedia chat (PhotoFile generated_png) (''FIRST! '' @ cap) # edits \<and>
    fst (api_call tg (SendMedia chat (PhotoFile generated_png) (''FIRST! '' @ cap)) s0) = Inr m \<and>
    list_all (\<lambda>c. \<exists>cap. c = EditMessageMedia chat m (PhotoFile generated_png) cap) edits \<and> 5 \<le> length edits"
proof -
  from assms(2) obtain cli qs w where load: "load_quotes ou cli ([], s) = (Inr qs, w)"
    and run: "with_engine (play ou (recording tg) chat (configured_theme cli) qs) w = (Inr (), (tr, s'))"
    by (auto simp: plot_demo_def job_bind_Inr)
  from silent_load_quotes [OF assms(1), of cli] load have "fst w = []" by (metis silent_def fst_conv snd_conv)
  then obtain s1 where w: "w = ([], s1)" by (cases w) simp
  from run obtain c msg where "play ou (recording tg) chat (configured_theme cli) qs ([], None, w) = (Inr (), (c, msg, tr, s'))"
    by (auto simp: with_engine_def split: prod.splits)
  from tripleD_Inr [OF triple_play [OF assms(1), of tg chat] _ this]
  have "frames_shown tg chat (length qs - 2) tr msg" by (simp add: w frames_shown_def)
  moreover have "6 \<le> length qs - 2" using loaded_length [OF load] by simp
  ultimately obtain m where "msg = Some m" and shown: "frames_shown tg chat (length qs - 2) tr (Some m)" and "6 \<le> length qs - 2"
    by (cases msg) (auto simp: frames_shown_def)
  from shown obtain cap s0 edits where sent: "tr = SendMedia chat (PhotoFile generated_png) (''FIRST! '' @ cap) # edits"
    "fst (api_call tg (SendMedia chat (PhotoFile generated_png) (''FIRST! '' @ cap)) s0) = Inr m"
    "length qs - 2 = Suc (length edits)"
    "list_all (\<lambda>c. \<exists>cap. c = EditMessageMedia chat m (PhotoFile generated_png) cap) edits"
    unfolding frames_shown_def option.case by blast
  from sent(3) \<open>6 \<le> length qs - 2\<close> have "5 \<le> length edits" by linarith
  with sent(1,2,4) show ?thesis by blast
qed

section \<open>The animation stays in its chat\<close>

lemma silent_stays: "silent j \<Longrightarrow> keeps (stays_in chat) j"
  by (simp add: keeps_def silent_def stays_in_def)

definition screen_stays :: "chat_id \<Rightarrow> (bot_call list \<times> 's) screen \<Rightarrow> bool" where
  "screen_stays chat w \<longleftrightarrow> stays_in chat (snd (snd w))"

lemma keeps_with_metrics: "keeps (screen_stays chat) (with_metrics j)"
  by (simp add: keeps_def with_metrics_def screen_stays_def case_prod_beta)

lemma keeps_with_world: "keeps (stays_in chat) j \<Longrightarrow> keeps (screen_stays chat) (with_world j)"
  by (simp add: keeps_def with_world_def screen_stays_def case_prod_beta)

lemma keeps_caption: "keeps (screen_stays chat) (caption_now a b stats)"
  by (simp add: keeps_def caption_now_def)

lemma keeps_show_frame: "keeps (screen_stays chat) (show_frame (recording tg) chat caption)"
proof -
  have send: "keeps (stays_in chat) (api_call (recording tg) (SendMedia chat (PhotoFile generated_png) cap))" for cap
    by simp
  have edit: "keeps (screen_stays chat)
      (with_world (forget (api_call (recording tg) (EditMessageMedia chat m (PhotoFile generated_png) cap))))" for m cap
    by (intro keeps_with_world keeps_forget) simp
  show ?thesis
    unfolding keeps_def
  proof (intro allI impI)
    fix w :: "(bot_call list \<times> 'a) screen" assume stays: "screen_stays chat w"
    obtain c msg u where w: "w = (c, msg, u)" by (cases w)
    show "screen_stays chat (snd (show_frame (recording tg) chat caption w))"
    proof (cases msg)
      case None
      with keepsD [OF send, of u "''FIRST! '' @ caption"] stays show ?thesis
        by (auto simp: w show_frame_def screen_stays_def split: prod.splits sum.splits)
    next
      case (Some m)
      with keepsD [OF edit stays, of m caption] show ?thesis by (simp add: w show_frame_def)
    qed
  qed
qed

lemma plot_demo_stays:
  assumes "quiet_studio ou"
  shows "keeps (stays_in chat) (plot_demo ou (recording tg) chat)"
proof -
  have written: "keeps (stays_in chat) (write_file ou p png)" for p png
    using assms by (intro silent_stays) (simp add: quiet_studio_def)
  have frame: "keeps (screen_stays chat) (play_frame ou (recording tg) chat t qs len)" for t qs len
    unfolding play_frame_def plot_def render_frame_def Let_def case_prod_beta
    by (intro keeps_bind keeps_with_metrics keeps_with_world keeps_lift keeps_caption keeps_show_frame written) simp
  have "keeps (screen_stays chat) (play ou (recording tg) chat t qs)" for t qs
    unfolding play_def by (intro keeps_bind keeps_with_metrics keeps_iter frame)
  then have "keeps (stays_in chat) (with_engine (play ou (recording tg) chat t qs))" for t qs
    by (fastforce simp: keeps_def with_engine_def screen_stays_def case_prod_beta)
  then show ?thesis
    unfolding plot_demo_def
    by (intro keeps_bind keeps_lift silent_stays [OF silent_load_quotes [OF assms]])
qed

section \<open>The animation completes\<close>

text \<open>Backends that never fail, and a calendar whose days and months have two digits.\<close>

abbreviation never_fails :: "('e, 's, 'a) job \<Rightarrow> bool" where
  "never_fails j \<equiv> calm (\<lambda>_. False) j"

definition studio_works :: "('d, 'raw, 's) studio \<Rightarrow> bool" where
  "studio_works ou \<longleftrightarrow>
     (\<forall>c. never_fails (draw_cmd (drawing_ops ou) c)) \<and> never_fails (present (drawing_ops ou)) \<and>
     (\<forall>c f rgb w h. is_ok (write_image (png_ops ou) c f rgb w h)) \<and>
     (\<forall>w h rgb. is_ok (raw_image (png_ops ou) w h rgb)) \<and>
     (\<forall>raw preset. is_ok (create_optimized_png (png_ops ou) raw preset)) \<and>
     (\<forall>path png. never_fails (write_file ou path png)) \<and>
     (\<forall>d i. day (plus_days ou d i) < 100 \<and> month (plus_days ou d i) < 100)"

lemma never_failsE: "never_fails j \<Longrightarrow> \<exists>x s'. j s = (Inr x, s')"
  by (drule triple_no_fail [of _ _ _ s]) auto

lemma is_okE: "is_ok r \<Longrightarrow> \<exists>x. r = Inr x"
  by (cases r) simp_all

lemma rasterize_works:
  assumes "studio_works ou" "list_all2 layer_of moves (cp_movement_layers p)"
    and "\<And>mv. mv \<in> set moves \<Longrightarrow> start_idx mv \<le> end_idx mv \<and> end_idx mv < length (cp_points p)"
  shows "\<exists>rgb. rasterize_rgb (drawing_ops ou) t p = Inr rgb"
proof -
  have "ml_start_idx ml \<le> ml_end_idx ml \<and> ml_end_idx ml < length (cp_points p)" if "ml \<in> set (cp_movement_layers p)" for ml
    using list_all2_right [OF assms(2) that] assms(3) by (auto simp: layer_of_def)
  then have "never_fails (job_bind (draw_plan (draw_cmd (drawing_ops ou)) t p) (\<lambda>_. present (drawing_ops ou)))"
    using assms(1) by (intro calm_bind calm_draw_plan) (simp_all add: studio_works_def)
  from never_failsE [OF this, of "with_buffer (drawing_ops ou)
      (replicate (unat (canvas_width (canvas t)) * unat (canvas_height (canvas t)) * 3) 0)
      (canvas_width (canvas t), canvas_height (canvas t))"]
  show ?thesis by (auto simp: rasterize_rgb_def Let_def)
qed

lemma bind_res_ok: "\<exists>x. r = Inr x \<Longrightarrow> \<exists>y. bind_res r (\<lambda>x. Inr (f x)) = Inr y"
  by auto

lemma encode_works:
  assumes "studio_works ou"
  shows "\<exists>r. encode_png (png_ops ou) t rgb = Inr r"
proof -
  have image: "\<exists>png. write_image (png_ops ou) c f rgb w h = Inr png" and raw: "\<exists>raw. raw_image (png_ops ou) w h rgb = Inr raw"
    and opt: "\<exists>png. create_optimized_png (png_ops ou) raw preset = Inr png" for c f w h raw preset
    using assms by (simp_all add: studio_works_def is_okE)
  have "\<exists>png. encode_png_with_oxipng_raw (png_ops ou) t rgb preset = Inr png" for preset
    using raw [of "canvas_width (canvas t)" "canvas_height (canvas t)"] opt
    by (auto simp: encode_png_with_oxipng_raw_def)
  with image show ?thesis
    unfolding encode_png_def
    by (intro bind_res_ok) (simp add: encode_png_with_image_def split: png_encode_mode.split)
qed

text \<open>A frame whose chart has room is rendered.\<close>

abbreviation engine_ok :: "theme \<Rightarrow> 's screen \<Rightarrow> bool" where
  "engine_ok t w \<equiv> right_sizes (typography t) (fst w)"

lemma render_works:
  assumes "studio_works ou" "triple (sized t) (build_layout qs (detect_important_moves qs th) t) (\<lambda>_. False) (\<lambda>l c. good_layout t qs l)"
  shows "triple (engine_ok t) (render_frame ou t qs (detect_important_moves qs th)) (\<lambda>_. False) (\<lambda>_. engine_ok t)"
  unfolding triple_def
proof (intro allI impI)
  fix w :: "'s screen" assume ok: "engine_ok t w"
  obtain c m s where w: "w = (c, m, s)" by (cases w)
  let ?moves = "detect_important_moves qs th"
  have range: "start_idx mv < end_idx mv \<and> end_idx mv < length qs" if "mv \<in> set ?moves" for mv
    using detected_in_range [OF that] by simp
  then have "\<And>mv. mv \<in> set ?moves \<Longrightarrow> start_idx mv < length qs \<and> end_idx mv < length qs" by fastforce
  from triple_no_fail [OF triple_plan [OF assms(2) this], of c] ok
  obtain p c' where plan: "plan_chart t qs ?moves c = (Inr p, c')" "sized t c'" "good_plan qs ?moves p"
    by (auto simp: w)
  from plan(3) have "list_all2 layer_of ?moves (cp_movement_layers p)" and "length (cp_points p) = length qs"
    by (simp_all add: good_plan_def plan_points_def)
  with rasterize_works [OF assms(1)] range obtain rgb where rgb: "rasterize_rgb (drawing_ops ou) t p = Inr rgb"
    by (metis less_imp_le_nat)
  from encode_works [OF assms(1)] obtain r where "encode_png (png_ops ou) t rgb = Inr r" by blast
  with plan rgb show "case render_frame ou t qs ?moves w of (Inl e, _) \<Rightarrow> False | (Inr _, w') \<Rightarrow> engine_ok t w'"
    by (simp add: render_frame_def with_metrics_def job_bind_def job_lift_def w)
qed

lemma triple_engine_metrics:
  assumes "triple (sized t) j (\<lambda>_. False) (\<lambda>_. sized t)"
  shows "triple (engine_ok t) (with_metrics j) (\<lambda>_. False) (\<lambda>_. engine_ok t)"
  unfolding triple_def
proof (intro allI impI)
  fix w :: "metrics \<times> int option \<times> 'b" assume ok: "engine_ok t w"
  obtain c m s where w: "w = (c, m, s)" by (cases w)
  from triple_no_fail [OF assms, of c] ok w obtain x c' where "j c = (Inr x, c')" "sized t c'" by auto
  then show "case with_metrics j w of (Inl e, _) \<Rightarrow> False | (Inr _, w') \<Rightarrow> engine_ok t w'"
    by (simp add: with_metrics_def w)
qed

lemma triple_engine_world:
  assumes "never_fails j"
  shows "triple (engine_ok t) (with_world j) (\<lambda>_. False) (\<lambda>_. engine_ok t)"
  unfolding triple_def
proof (intro allI impI)
  fix w :: "'a screen" assume ok: "engine_ok t w"
  obtain c m s where w: "w = (c, m, s)" by (cases w)
  from never_failsE [OF assms] obtain x s' where "j s = (Inr x, s')" by blast
  with ok show "case with_world j w of (Inl e, _) \<Rightarrow> False | (Inr _, w') \<Rightarrow> engine_ok t w'"
    by (simp add: with_world_def w)
qed

lemma triple_engine_show:
  assumes "\<And>c. never_fails (api_call tg c)"
  shows "triple (engine_ok t) (show_frame tg chat caption) (\<lambda>_. False) (\<lambda>_. engine_ok t)"
  unfolding triple_def
proof (intro allI impI)
  fix w :: "'a screen" assume ok: "engine_ok t w"
  obtain c msg s where w: "w = (c, msg, s)" by (cases w)
  show "case show_frame tg chat caption w of (Inl e, _) \<Rightarrow> False | (Inr _, w') \<Rightarrow> engine_ok t w'"
  proof (cases msg)
    case None
    obtain m s' where "api_call tg (SendMedia chat (PhotoFile generated_png) (''FIRST! '' @ caption)) s = (Inr m, s')"
      using never_failsE [OF assms] by blast
    with None ok show ?thesis by (simp add: show_frame_def w)
  next
    case (Some m)
    obtain x s' where "api_call tg (EditMessageMedia chat m (PhotoFile generated_png) caption) s = (Inr x, s')"
      using never_failsE [OF assms] by blast
    with Some ok show ?thesis by (simp add: show_frame_def with_world_def forget_def job_bind_def job_return_def w)
  qed
qed

lemma frame_works:
  assumes "studio_works ou" "\<And>c. never_fails (api_call tg c)"
    and "\<And>moves. triple (sized t) (build_layout (take len qs) moves t) (\<lambda>_. False) (\<lambda>l c. good_layout t (take len qs) l)"
  shows "triple (engine_ok t) (play_frame ou tg chat t qs len) (\<lambda>_. False) (\<lambda>_. engine_ok t)"
proof -
  have written: "never_fails (write_file ou p png)" for p png
    using assms(1) by (simp add: studio_works_def)
  have paused: "never_fails (pause tg ms)" for ms
    by (simp add: triple_def pause_def)
  have caption: "triple (engine_ok t) (caption_now a b stats) (\<lambda>_. False) (\<lambda>_. engine_ok t)" for a b stats
    by (simp add: triple_def caption_now_def)
  show ?thesis
    unfolding play_frame_def plot_def Let_def case_prod_beta
    by (rule triple_bind [OF triple_bind [OF render_works [OF assms(1,3)]
          triple_bind [OF triple_engine_world [OF written] triple_bind [OF caption triple_engine_show [OF assms(2)]]]]
        triple_engine_world [OF paused]])
qed

section \<open>The synthetic quotes have room\<close>

lemma synthetic_prices:
  assumes "q \<in> set (synthetic_quotes pd)"
  shows "\<exists>p. usd_brl q = Fin p \<and> 11 / 2 \<le> p \<and> p \<le> 47 / 8"
proof -
  from assms obtain v where v: "v \<in> set synthetic_values" "usd_brl q = to_f64 (of_int v / 1000)"
    unfolding synthetic_quotes_def by (auto dest!: set_zip_rightD)
  define x :: rat where "x = of_int v / 1000"
  have "\<forall>v\<in>set synthetic_values. 5500 \<le> v \<and> v \<le> 5875" by (simp add: synthetic_values_def)
  with v(1) have "(5500 :: rat) \<le> of_int v" "of_int v \<le> (5875 :: rat)" by (auto simp flip: of_int_le_iff)
  then have x: "11 / 2 \<le> x" "x \<le> 47 / 8" by (simp_all add: x_def field_simps)
  have "rnd (11 / 2) = 11 / 2" by (rule rnd_exact [of 11 "- 1"]) (simp_all add: power_int_def)
  moreover have "rnd (47 / 8) = 47 / 8" by (rule rnd_exact [of 47 "- 3"]) (simp_all add: power_int_def power_divide)
  ultimately have "11 / 2 \<le> rnd x" "rnd x \<le> 47 / 8"
    using rnd_mono [OF x(1)] rnd_mono [OF x(2)] by simp_all
  moreover have "to_f64 x = Fin (rnd x)" by (rule to_f64_le [of _ 6]) (use x in simp_all)
  ultimately show ?thesis using v(2) by (simp add: x_def)
qed

lemma synthetic_room:
  assumes "\<And>d i. day (pd d i) < 100 \<and> month (pd d i) < 100"
  defines "qs \<equiv> synthetic_quotes pd"
  shows "sane_quotes (take n qs)" and "within_cents (take n qs) 550 588" and "length qs = 30"
proof -
  have dates: "day (q_date q) < 100 \<and> month (q_date q) < 100" if "q \<in> set qs" for q
    using that assms(1) by (auto simp: qs_def synthetic_quotes_def)
  have sane: "sane_quote q" if "q \<in> set qs" for q
    using dates [OF that] synthetic_prices [of q pd] that by (auto simp: sane_quote_def qs_def)
  have len: "length qs = 30" by (simp add: qs_def synthetic_quotes_def synthetic_values_def)
  then show "length qs = 30" .
  show "sane_quotes (take n qs)"
    using sane len by (auto simp: sane_quotes_def list_all_iff dest: in_set_takeD)
  show "within_cents (take n qs) 550 588"
    unfolding within_cents_def list_all_iff
  proof
    fix q assume "q \<in> set (take n qs)"
    then have "q \<in> set (synthetic_quotes pd)" by (auto simp: qs_def dest: in_set_takeD)
    from synthetic_prices [OF this] show "of_int 550 \<le> price q * 100 \<and> price q * 100 \<le> of_int 588"
      by (auto simp: price_def)
  qed
qed

lemma configured_default_sized: "default_sized (configured_theme cli)"
  by (simp add: default_sized_def configured_theme_def Let_def split: option.splits)

lemma play_works:
  assumes "studio_works ou" "\<And>c. never_fails (api_call tg c)" "default_sized t"
  shows "triple (engine_ok t) (play ou tg chat t (synthetic_quotes (plus_days ou))) (\<lambda>_. False) (\<lambda>_. engine_ok t)"
proof -
  let ?qs = "synthetic_quotes (plus_days ou)"
  have "\<And>d i. day (plus_days ou d i) < 100 \<and> month (plus_days ou d i) < 100"
    using assms(1) by (simp add: studio_works_def)
  note room = synthetic_room [OF this]
  have layout: "triple (sized t) (build_layout (take len ?qs) moves t) (\<lambda>_. False) (\<lambda>l c. good_layout t (take len ?qs) l)"
    if "3 \<le> len" for len moves
    by (rule triple_default_layout [OF assms(3) room(1) _ room(2)]) (use that room(3) in simp_all)
  have frame: "triple (engine_ok t) (play_frame ou tg chat t ?qs len) (\<lambda>_. False) (\<lambda>_. engine_ok t)" if "3 \<le> len" for len
    by (rule frame_works [OF assms(1,2) layout [OF that]])
  have frames: "triple (engine_ok t) (job_iter (\<lambda>len _. play_frame ou tg chat t ?qs len) lens ()) (\<lambda>_. False) (\<lambda>_. engine_ok t)"
    if "\<forall>len\<in>set lens. 3 \<le> len" for lens
    using that by (induction lens) (auto intro!: triple_return triple_bind [OF frame])
  have warm: "triple (engine_ok t) (with_metrics (warm_up t ?qs moves)) (\<lambda>_. False) (\<lambda>_. engine_ok t)" for moves
    by (rule triple_engine_metrics [OF warm_up_works])
  show ?thesis
    unfolding play_def by (rule triple_bind [OF warm frames]) auto
qed

text \<open>C36: With backends that work, the demo plays to its end: when the synthetic quotes are asked for, or
  the web service gives no usable answer, every one of the 28 charts fits and none panics.\<close>

theorem demo_plays_to_the_end:
  assumes "studio_works ou" "\<And>c. calm (\<lambda>_. False) (api_call tg c)" "parse_cli (process_args ou) = Inr cli"
    and "cli_synthetic cli \<or> (\<forall>url s. \<exists>e. fst (http_get ou url s) = Inl e)"
  shows "fst (plot_demo ou tg chat s) = Inr ()"
proof -
  obtain s1 where load: "load_quotes ou cli s = (Inr (synthetic_quotes (plus_days ou)), s1)"
  proof (cases "cli_synthetic cli")
    case True
    with that show ?thesis by (simp add: load_quotes_def)
  next
    case False
    with assms(4) obtain e s1 where "http_get ou (bcb_url (minus_days ou) (today ou)) s = (Inl e, s1)"
      by (metis prod.collapse)
    with False that show ?thesis by (simp add: load_quotes_def fetch_quotes_def)
  qed
  from triple_no_fail [OF play_works [OF assms(1,2) configured_default_sized [of cli], where chat = chat], of "([], None, s1)"]
  obtain x c m s2 where "play ou tg chat (configured_theme cli) (synthetic_quotes (plus_days ou)) ([], None, s1) = (Inr x, (c, m, s2))"
    by auto
  with load assms(3) show ?thesis
    by (simp add: plot_demo_def job_bind_def job_lift_def with_engine_def)
qed

section \<open>A studio\<close>

text \<open>Backends that always answer: a canvas that counts commands, encoders that return their input.\<close>

definition sample_studio :: "(nat, u8 list, bot_call list \<times> nat) studio" where
  "sample_studio = \<lparr>
     drawing_ops = \<lparr>with_buffer = (\<lambda>_ _. 0), draw_cmd = (\<lambda>_ n. (Inr (), n + 1)), present = job_return (), buffer_of = (\<lambda>_. [])\<rparr>,
     png_ops = \<lparr>write_image = (\<lambda>_ _ rgb _ _. Inr rgb), raw_image = (\<lambda>_ _ rgb. Inr rgb), create_optimized_png = (\<lambda>raw _. Inr raw)\<rparr>,
     write_file = (\<lambda>_ _. job_return ()), process_args = [''bot''], http_get = (\<lambda>_. job_fail ''offline''),
     today = Date 2026 6 30, plus_days = (\<lambda>d i. Date (year d) (min 12 (month d)) (min 31 (day d + i))), minus_days = (\<lambda>d _. d),
     parse_date = (\<lambda>_. Inl ''no date'')\<rparr>"

definition sample_telegram :: "nat bot_api" where
  "sample_telegram = \<lparr>api_call = (\<lambda>_ n. (Inr (int n), n + 1)), api_sleep = (\<lambda>_ n. n)\<rparr>"

lemma sample_quiet: "quiet_studio sample_studio"
  by (simp add: quiet_studio_def sample_studio_def silent_def job_return_def job_fail_def)

lemma sample_telegram_answers: "calm (\<lambda>_. False) (api_call (recording sample_telegram) c)"
  by (auto simp: triple_def recording_def sample_telegram_def)

lemma sample_works: "studio_works sample_studio"
  by (simp add: studio_works_def sample_studio_def triple_def job_return_def min_less_iff_disj)

lemma sample_demo: "fst (plot_demo sample_studio (recording sample_telegram) 7 ([], 0)) = Inr ()"
proof -
  have "triple (engine_ok t) (play sample_studio (recording sample_telegram) 7 t (synthetic_quotes (plus_days sample_studio)))
      (\<lambda>_. False) (\<lambda>_. engine_ok t)" if "default_sized t" for t
    by (rule play_works [OF sample_works sample_telegram_answers that])
  from triple_no_fail [OF this [OF configured_default_sized [of default_cli]], of "([], None, [], 0)"]
  show ?thesis
    by (auto simp: plot_demo_def job_bind_def job_lift_def with_engine_def load_quotes_def fetch_quotes_def job_fail_def
        sample_studio_def parse_cli_def default_cli_def)
qed

theorem demo_plays_to_the_end_witness:
  "fst (plot_demo sample_studio (recording sample_telegram) 7 ([], 0)) = Inr ()"
proof (rule demo_plays_to_the_end [OF sample_works sample_telegram_answers])
  show "parse_cli (process_args sample_studio) = Inr default_cli" by (simp add: sample_studio_def parse_cli_def)
  show "cli_synthetic default_cli \<or> (\<forall>url s. \<exists>e. fst (http_get sample_studio url s) = Inl e)"
    by (simp add: sample_studio_def job_fail_def)
qed

theorem animation_is_one_message_witness:
  "\<exists>m cap edits. fst (snd (plot_demo sample_studio (recording sample_telegram) 7 ([], 0))) =
     SendMedia 7 (PhotoFile generated_png) (''FIRST! '' @ cap) # edits \<and>
   list_all (\<lambda>c. \<exists>cap. c = EditMessageMedia 7 m (PhotoFile generated_png) cap) edits \<and> 5 \<le> length edits"
proof (cases "plot_demo sample_studio (recording sample_telegram) 7 ([], 0)")
  case (fields r tr s')
  with sample_demo have "plot_demo sample_studio (recording sample_telegram) 7 ([], 0) = (Inr (), (tr, s'))" by simp
  from animation_is_one_message [OF sample_quiet this] fields show ?thesis by auto
qed

theorem frame_as_if_fresh_witness:
  "fst (render_frame sample_studio default_theme sample_quotes [] (snd (measure_in default_theme ''data'' 18 NoRotation []), (None, 0 :: nat))) =
   fst (render_frame sample_studio default_theme sample_quotes [] ([], (None, 0 :: nat)))"
  by (rule frame_as_if_fresh)
    (simp add: measure_in_def fonts.pure_as_keeps [OF pure_measure right_sizes_Nil])

section \<open>The demo as the bot's service\<close>

text \<open>The bot whose \<open>follow asset\<close> button plays this demo.\<close>

definition with_plot_demo ::
  "('d, 'raw, bot_call list \<times> 's) studio \<Rightarrow> (plot_error \<Rightarrow> rstr) \<Rightarrow> (bot_call list \<times> 's) services \<Rightarrow> (bot_call list \<times> 's) services" where
  "with_plot_demo ou show_error sv = sv\<lparr>sv_plot := (\<lambda>tg chat. job_map_err show_error (plot_demo ou tg chat))\<rparr>"

text \<open>The chart animation meets what the bot expects of its services: whatever the benchmarks, if they
  report only, and the file system and the web service send no requests of their own, a bot with
  this demo keeps every request of a dialog in that dialog's chat.\<close>

theorem plot_demo_is_a_good_service:
  assumes "quiet_studio ou" "reports_only (sv_sqlite sv)" "reports_only (sv_redb sv)" "reports_only (sv_heed sv)"
  shows "services_stay (with_plot_demo ou show_error sv) tg"
  using assms plot_demo_stays [OF assms(1)]
  by (auto simp: services_stay_def with_plot_demo_def intro: keeps_map_err)

theorem plot_demo_is_a_good_service_witness:
  "services_stay (with_plot_demo sample_studio (\<lambda>_. ''plot failed'')
     \<lparr>sv_sqlite = (\<lambda>_. job_return ()), sv_redb = (\<lambda>_. job_return ()), sv_heed = (\<lambda>_. job_return ()),
      sv_plot = (\<lambda>_ _. job_return ()), sv_progress_text = (\<lambda>_. []), sv_analysis = [], sv_random_f64 = Fin 0,
      sv_random_index = (\<lambda>_. 0)\<rparr>) sample_telegram"
  by (rule plot_demo_is_a_good_service [OF sample_quiet]) (simp_all add: reports_only_def)

end
