(* ===== verification/Gates.thy ===== *)
theory Gates
  imports Prelude
begin

text \<open>
  The transaction gates of the two embedded databases: \<open>src/src/db/heed/async_heed.rs\<close> and
  \<open>src/src/db/redb/async_redb.rs\<close> put an asynchronous mutex in front of writers and a
  semaphore in front of readers, and take both for maintenance (\<open>resize\<close>, \<open>compact\<close>).
  The mutex and the semaphore are \<open>tokio\<close>'s: arguments, with their documented counting
  behaviour as \<open>tokio_laws\<close>. An operation that would wait is \<open>None\<close>; what a task does between
  two awaits is one operation. \<open>live_reads\<close> and \<open>live_write\<close> count the transactions that
  exist, which the code keeps in the transaction values themselves.
\<close>

section \<open>The primitives\<close>

record ('m, 's) tokio_ops =
  mx_new :: 'm
  mx_lock :: "'m \<Rightarrow> 'm option"
  mx_unlock :: "'m \<Rightarrow> 'm"
  mx_locked :: "'m \<Rightarrow> bool"
  sem_new :: "nat \<Rightarrow> 's"
  sem_acquire :: "nat \<Rightarrow> 's \<Rightarrow> 's option"
  sem_release :: "nat \<Rightarrow> 's \<Rightarrow> 's"
  sem_available :: "'s \<Rightarrow> nat"

definition tokio_laws :: "('m, 's) tokio_ops \<Rightarrow> bool" where
  "tokio_laws ops \<longleftrightarrow>
     \<not> mx_locked ops (mx_new ops) \<and>
     (\<forall>m. mx_locked ops m \<longrightarrow> mx_lock ops m = None) \<and>
     (\<forall>m. \<not> mx_locked ops m \<longrightarrow> (\<exists>m'. mx_lock ops m = Some m' \<and> mx_locked ops m')) \<and>
     (\<forall>m. \<not> mx_locked ops (mx_unlock ops m)) \<and>
     (\<forall>n. sem_available ops (sem_new ops n) = n) \<and>
     (\<forall>k s. sem_available ops s < k \<longrightarrow> sem_acquire ops k s = None) \<and>
     (\<forall>k s. k \<le> sem_available ops s \<longrightarrow>
        (\<exists>s'. sem_acquire ops k s = Some s' \<and> sem_available ops s' = sem_available ops s - k)) \<and>
     (\<forall>k s. sem_available ops (sem_release ops k s) = sem_available ops s + k)"

text \<open>A mutex that is its flag and a semaphore that is its count.\<close>

definition counting_tokio :: "(bool, nat) tokio_ops" where
  "counting_tokio =
     \<lparr>mx_new = False, mx_lock = (\<lambda>m. if m then None else Some True), mx_unlock = (\<lambda>_. False), mx_locked = (\<lambda>m. m),
      sem_new = (\<lambda>n. n), sem_acquire = (\<lambda>k s. if k \<le> s then Some (s - k) else None),
      sem_release = (\<lambda>k s. s + k), sem_available = (\<lambda>s. s)\<rparr>"

lemma tokio_laws_counting: "tokio_laws counting_tokio"
  by (auto simp: tokio_laws_def counting_tokio_def)

lemma tokio_lock_Some:
  assumes "tokio_laws ops" "mx_lock ops m = Some m'"
  shows "\<not> mx_locked ops m" "mx_locked ops m'"
proof -
  show "\<not> mx_locked ops m"
    using assms unfolding tokio_laws_def by (metis option.distinct(1))
  with assms show "mx_locked ops m'"
    unfolding tokio_laws_def by (metis option.inject)
qed

lemma tokio_lock_None: "tokio_laws ops \<Longrightarrow> mx_lock ops m = None \<longleftrightarrow> mx_locked ops m"
  unfolding tokio_laws_def by (metis option.distinct(1))

lemma tokio_acquire_Some:
  assumes "tokio_laws ops" "sem_acquire ops k s = Some s'"
  shows "k \<le> sem_available ops s" "sem_available ops s' = sem_available ops s - k"
proof -
  show k: "k \<le> sem_available ops s"
    using assms unfolding tokio_laws_def by (metis not_le option.distinct(1))
  with assms show "sem_available ops s' = sem_available ops s - k"
    unfolding tokio_laws_def by (metis option.inject)
qed

lemma tokio_acquire_one:
  "tokio_laws ops \<Longrightarrow> sem_acquire ops (Suc 0) s = Some s' \<Longrightarrow> sem_available ops s = Suc (sem_available ops s')"
  using tokio_acquire_Some [of ops "Suc 0" s s'] by simp

lemma tokio_acquire_None: "tokio_laws ops \<Longrightarrow> sem_acquire ops k s = None \<longleftrightarrow> sem_available ops s < k"
  unfolding tokio_laws_def by (metis not_le option.distinct(1))

lemma tokio_release [simp]:
  assumes "tokio_laws ops"
  shows "sem_available ops (sem_release ops k s) = sem_available ops s + k" and "\<not> mx_locked ops (mx_unlock ops m)"
    and "\<not> mx_locked ops (mx_new ops)" and "sem_available ops (sem_new ops n) = n"
  using assms unfolding tokio_laws_def by blast+

section \<open>The gates\<close>

text \<open>Maintenance (resize or compaction): not asked for, holding the writer mutex, running.\<close>

datatype maintenance = Idle | HoldsWriter | Running

record ('m, 's) gates =
  w_lock :: 'm
  r_lock :: 's
  max_readers :: nat
  live_reads :: nat
  live_write :: bool
  maint :: maintenance

subsection \<open>\<open>AsyncHeed\<close>\<close>

definition heed_open :: "('m, 's) tokio_ops \<Rightarrow> nat \<Rightarrow> nat \<Rightarrow> ('m, 's) gates option" where
  "heed_open ops readers dbs =
     (if readers = 0 \<or> dbs = 0 then None
      else Some \<lparr>w_lock = mx_new ops, r_lock = sem_new ops readers, max_readers = readers,
                 live_reads = 0, live_write = False, maint = Idle\<rparr>)"

text \<open>\<open>txn_ok\<close>: whether the environment gave a transaction; if not, the permit is dropped again.\<close>

definition heed_begin_read :: "('m, 's) tokio_ops \<Rightarrow> bool \<Rightarrow> ('m, 's) gates \<Rightarrow> ('m, 's) gates option" where
  "heed_begin_read ops txn_ok g =
     (case sem_acquire ops 1 (r_lock g) of
        None \<Rightarrow> None
      | Some s \<Rightarrow> Some (if txn_ok then g\<lparr>r_lock := s, live_reads := Suc (live_reads g)\<rparr>
                         else g\<lparr>r_lock := sem_release ops 1 s\<rparr>))"

text \<open>Field order: the transaction ends first, then its permit or guard is given back.\<close>

definition heed_end_read :: "('m, 's) tokio_ops \<Rightarrow> ('m, 's) gates \<Rightarrow> ('m, 's) gates option" where
  "heed_end_read ops g =
     (if live_reads g = 0 then None
      else let g = g\<lparr>live_reads := live_reads g - 1\<rparr> in Some (g\<lparr>r_lock := sem_release ops 1 (r_lock g)\<rparr>))"

definition heed_begin_write :: "('m, 's) tokio_ops \<Rightarrow> bool \<Rightarrow> ('m, 's) gates \<Rightarrow> ('m, 's) gates option" where
  "heed_begin_write ops txn_ok g =
     (case mx_lock ops (w_lock g) of
        None \<Rightarrow> None
      | Some m \<Rightarrow> Some (if txn_ok then g\<lparr>w_lock := m, live_write := True\<rparr> else g\<lparr>w_lock := mx_unlock ops m\<rparr>))"

definition heed_end_write :: "('m, 's) tokio_ops \<Rightarrow> ('m, 's) gates \<Rightarrow> ('m, 's) gates option" where
  "heed_end_write ops g =
     (if live_write g
      then let g = g\<lparr>live_write := False\<rparr> in Some (g\<lparr>w_lock := mx_unlock ops (w_lock g)\<rparr>)
      else None)"

text \<open>\<open>resize\<close>: the writer mutex, then every reader permit, then the call, then both go back.\<close>

definition heed_resize_lock :: "('m, 's) tokio_ops \<Rightarrow> ('m, 's) gates \<Rightarrow> ('m, 's) gates option" where
  "heed_resize_lock ops g =
     (case mx_lock ops (w_lock g) of None \<Rightarrow> None | Some m \<Rightarrow> Some (g\<lparr>w_lock := m, maint := HoldsWriter\<rparr>))"

definition heed_resize_permits :: "('m, 's) tokio_ops \<Rightarrow> ('m, 's) gates \<Rightarrow> ('m, 's) gates option" where
  "heed_resize_permits ops g =
     (if maint g = HoldsWriter
      then (case sem_acquire ops (max_readers g) (r_lock g) of
              None \<Rightarrow> None
            | Some s \<Rightarrow> Some (g\<lparr>r_lock := s, maint := Running\<rparr>))
      else None)"

definition heed_resize_done :: "('m, 's) tokio_ops \<Rightarrow> ('m, 's) gates \<Rightarrow> ('m, 's) gates option" where
  "heed_resize_done ops g =
     (if maint g = Running
      then Some (g\<lparr>maint := Idle, r_lock := sem_release ops (max_readers g) (r_lock g), w_lock := mx_unlock ops (w_lock g)\<rparr>)
      else None)"

subsection \<open>\<open>AsyncReDb\<close>\<close>

definition redb_open :: "('m, 's) tokio_ops \<Rightarrow> nat \<Rightarrow> ('m, 's) gates" where
  "redb_open ops readers =
     \<lparr>w_lock = mx_new ops, r_lock = sem_new ops readers, max_readers = readers,
      live_reads = 0, live_write = False, maint = Idle\<rparr>"

definition redb_begin_read :: "('m, 's) tokio_ops \<Rightarrow> bool \<Rightarrow> ('m, 's) gates \<Rightarrow> ('m, 's) gates option" where
  "redb_begin_read ops txn_ok g =
     (case sem_acquire ops 1 (r_lock g) of
        None \<Rightarrow> None
      | Some s \<Rightarrow> Some (if txn_ok then g\<lparr>r_lock := s, live_reads := Suc (live_reads g)\<rparr>
                         else g\<lparr>r_lock := sem_release ops 1 s\<rparr>))"

definition redb_end_read :: "('m, 's) tokio_ops \<Rightarrow> ('m, 's) gates \<Rightarrow> ('m, 's) gates option" where
  "redb_end_read ops g =
     (if live_reads g = 0 then None
      else let g = g\<lparr>live_reads := live_reads g - 1\<rparr> in Some (g\<lparr>r_lock := sem_release ops 1 (r_lock g)\<rparr>))"

definition redb_begin_write :: "('m, 's) tokio_ops \<Rightarrow> bool \<Rightarrow> ('m, 's) gates \<Rightarrow> ('m, 's) gates option" where
  "redb_begin_write ops txn_ok g =
     (case mx_lock ops (w_lock g) of
        None \<Rightarrow> None
      | Some m \<Rightarrow> Some (if txn_ok then g\<lparr>w_lock := m, live_write := True\<rparr> else g\<lparr>w_lock := mx_unlock ops m\<rparr>))"

definition redb_end_write :: "('m, 's) tokio_ops \<Rightarrow> ('m, 's) gates \<Rightarrow> ('m, 's) gates option" where
  "redb_end_write ops g =
     (if live_write g
      then let g = g\<lparr>live_write := False\<rparr> in Some (g\<lparr>w_lock := mx_unlock ops (w_lock g)\<rparr>)
      else None)"

definition redb_compact_lock :: "('m, 's) tokio_ops \<Rightarrow> ('m, 's) gates \<Rightarrow> ('m, 's) gates option" where
  "redb_compact_lock ops g =
     (case mx_lock ops (w_lock g) of None \<Rightarrow> None | Some m \<Rightarrow> Some (g\<lparr>w_lock := m, maint := HoldsWriter\<rparr>))"

definition redb_compact_permits :: "('m, 's) tokio_ops \<Rightarrow> ('m, 's) gates \<Rightarrow> ('m, 's) gates option" where
  "redb_compact_permits ops g =
     (if maint g = HoldsWriter
      then (case sem_acquire ops (max_readers g) (r_lock g) of
              None \<Rightarrow> None
            | Some s \<Rightarrow> Some (g\<lparr>r_lock := s, maint := Running\<rparr>))
      else None)"

definition redb_compact_done :: "('m, 's) tokio_ops \<Rightarrow> ('m, 's) gates \<Rightarrow> ('m, 's) gates option" where
  "redb_compact_done ops g =
     (if maint g = Running
      then Some (g\<lparr>maint := Idle, r_lock := sem_release ops (max_readers g) (r_lock g), w_lock := mx_unlock ops (w_lock g)\<rparr>)
      else None)"

section \<open>Gated stores as an interface\<close>

text \<open>
  What users of either store rely on, over the view (free permits, limit, mutex taken, live
  readers, live writer, maintenance): how each operation changes it, and that an operation
  waits only for what it needs.
\<close>

type_synonym gate_view = "nat \<times> nat \<times> bool \<times> nat \<times> bool \<times> maintenance"

definition view_gates :: "('m, 's) tokio_ops \<Rightarrow> ('m, 's) gates \<Rightarrow> gate_view" where
  "view_gates ops g =
     (sem_available ops (r_lock g), max_readers g, mx_locked ops (w_lock g), live_reads g, live_write g, maint g)"

datatype gate_action = BeginRead bool | EndRead | BeginWrite bool | EndWrite | MaintLock | MaintPermits | MaintDone

fun view_ok :: "gate_view \<Rightarrow> bool" where
  "view_ok (a, n, l, r, w, m) \<longleftrightarrow>
     a + r + (if m = Running then n else 0) = n \<and> l = (w \<or> m \<noteq> Idle) \<and> \<not> (w \<and> m \<noteq> Idle)"

locale gated_store =
  fixes lawful :: bool
    and view :: "'g \<Rightarrow> gate_view"
    and act :: "gate_action \<Rightarrow> 'g \<Rightarrow> 'g option"
  assumes begin_read: "lawful \<Longrightarrow> act (BeginRead ok) g = Some h \<Longrightarrow> view g = (a, n, l, r, w, m) \<Longrightarrow>
      0 < a \<and> view h = (if ok then (a - 1, n, l, Suc r, w, m) else (a, n, l, r, w, m))"
    and end_read: "lawful \<Longrightarrow> act EndRead g = Some h \<Longrightarrow> view g = (a, n, l, r, w, m) \<Longrightarrow>
      0 < r \<and> view h = (Suc a, n, l, r - 1, w, m)"
    and begin_write: "lawful \<Longrightarrow> act (BeginWrite ok) g = Some h \<Longrightarrow> view g = (a, n, l, r, w, m) \<Longrightarrow>
      \<not> l \<and> view h = (if ok then (a, n, True, r, True, m) else (a, n, False, r, w, m))"
    and end_write: "lawful \<Longrightarrow> act EndWrite g = Some h \<Longrightarrow> view g = (a, n, l, r, w, m) \<Longrightarrow>
      w \<and> view h = (a, n, False, r, False, m)"
    and maint_lock: "lawful \<Longrightarrow> act MaintLock g = Some h \<Longrightarrow> view g = (a, n, l, r, w, m) \<Longrightarrow>
      \<not> l \<and> view h = (a, n, True, r, w, HoldsWriter)"
    and maint_permits: "lawful \<Longrightarrow> act MaintPermits g = Some h \<Longrightarrow> view g = (a, n, l, r, w, m) \<Longrightarrow>
      m = HoldsWriter \<and> n \<le> a \<and> view h = (a - n, n, l, r, w, Running)"
    and maint_done: "lawful \<Longrightarrow> act MaintDone g = Some h \<Longrightarrow> view g = (a, n, l, r, w, m) \<Longrightarrow>
      m = Running \<and> view h = (a + n, n, False, r, w, Idle)"
    and permits_free: "lawful \<Longrightarrow> view g = (a, n, l, r, w, HoldsWriter) \<Longrightarrow> n \<le> a \<Longrightarrow> act MaintPermits g \<noteq> None"
    and read_free: "lawful \<Longrightarrow> view g = (a, n, l, r, w, m) \<Longrightarrow> 0 < a \<Longrightarrow> act (BeginRead ok) g \<noteq> None"
begin

fun run :: "gate_action list \<Rightarrow> 'g \<Rightarrow> 'g option" where
  "run [] g = Some g"
| "run (a # as) g = (case act a g of None \<Rightarrow> None | Some h \<Rightarrow> run as h)"

lemma act_ok:
  assumes "lawful" "act x g = Some h" "view_ok (view g)"
  shows "view_ok (view h) \<and> fst (snd (view h)) = fst (snd (view g))"
proof -
  obtain a n l r w m where v: "view g = (a, n, l, r, w, m)" by (cases "view g")
  show ?thesis
  proof (cases x)
    case (BeginRead ok)
    with begin_read [OF assms(1) _ v] assms(2,3) v show ?thesis by (auto split: if_splits)
  next
    case EndRead
    with end_read [OF assms(1) _ v] assms(2,3) v show ?thesis by (auto split: if_splits)
  next
    case (BeginWrite ok)
    with begin_write [OF assms(1) _ v] assms(2,3) v show ?thesis by (auto split: if_splits)
  next
    case EndWrite
    with end_write [OF assms(1) _ v] assms(2,3) v show ?thesis by (auto split: if_splits)
  next
    case MaintLock
    with maint_lock [OF assms(1) _ v] assms(2,3) v show ?thesis by (auto split: if_splits)
  next
    case MaintPermits
    with maint_permits [OF assms(1) _ v] assms(2,3) v show ?thesis by (auto split: if_splits)
  next
    case MaintDone
    with maint_done [OF assms(1) _ v] assms(2,3) v show ?thesis by (auto split: if_splits)
  qed
qed

lemma run_ok:
  "lawful \<Longrightarrow> run xs g = Some h \<Longrightarrow> view_ok (view g) \<Longrightarrow>
     view_ok (view h) \<and> fst (snd (view h)) = fst (snd (view g))"
proof (induction xs arbitrary: g)
  case (Cons x xs)
  then obtain k where "act x g = Some k" "run xs k = Some h" by (auto split: option.splits)
  with Cons act_ok [of x g k] show ?case by auto
qed simp

lemma view_ok_exclusive:
  assumes "view_ok (view g)" "view g = (a, n, l, r, w, m)"
  shows "r \<le> n" "m = Running \<Longrightarrow> r = 0 \<and> \<not> w" "w \<Longrightarrow> m = Idle"
  using assms by (auto split: if_splits)

text \<open>With the writer mutex in hand, maintenance waits for readers only.\<close>

lemma maint_waits_for_readers:
  assumes "lawful" "view_ok (view g)" "view g = (a, n, l, r, w, HoldsWriter)"
  shows "act MaintPermits g = None \<longleftrightarrow> 0 < r"
proof -
  have "a + r = n" using assms(2,3) by simp
  moreover have "act MaintPermits g = None \<or> n \<le> a"
    using maint_permits [OF assms(1) _ assms(3)] by (cases "act MaintPermits g") auto
  ultimately show ?thesis
    using permits_free [OF assms(1,3)] by (cases "r = 0") auto
qed

lemma read_waits:
  assumes "lawful" "view_ok (view g)" "view g = (a, n, l, r, w, m)" "0 < n"
  shows "act (BeginRead ok) g = None \<longleftrightarrow> m = Running \<or> r = n"
proof -
  have "act (BeginRead ok) g = None \<or> 0 < a"
    using begin_read [OF assms(1) _ assms(3)] by (cases "act (BeginRead ok) g") auto
  with read_free [OF assms(1,3)] assms(2-4) show ?thesis
    by (cases "0 < a") (auto split: if_splits)
qed

end

fun heed_act :: "('m, 's) tokio_ops \<Rightarrow> gate_action \<Rightarrow> ('m, 's) gates \<Rightarrow> ('m, 's) gates option" where
  "heed_act ops (BeginRead ok) g = heed_begin_read ops ok g"
| "heed_act ops EndRead g = heed_end_read ops g"
| "heed_act ops (BeginWrite ok) g = heed_begin_write ops ok g"
| "heed_act ops EndWrite g = heed_end_write ops g"
| "heed_act ops MaintLock g = heed_resize_lock ops g"
| "heed_act ops MaintPermits g = heed_resize_permits ops g"
| "heed_act ops MaintDone g = heed_resize_done ops g"

fun redb_act :: "('m, 's) tokio_ops \<Rightarrow> gate_action \<Rightarrow> ('m, 's) gates \<Rightarrow> ('m, 's) gates option" where
  "redb_act ops (BeginRead ok) g = redb_begin_read ops ok g"
| "redb_act ops EndRead g = redb_end_read ops g"
| "redb_act ops (BeginWrite ok) g = redb_begin_write ops ok g"
| "redb_act ops EndWrite g = redb_end_write ops g"
| "redb_act ops MaintLock g = redb_compact_lock ops g"
| "redb_act ops MaintPermits g = redb_compact_permits ops g"
| "redb_act ops MaintDone g = redb_compact_done ops g"

interpretation heed: gated_store "tokio_laws ops" "view_gates ops" "heed_act ops"
  by unfold_locales
     (auto simp: view_gates_def heed_begin_read_def heed_end_read_def heed_begin_write_def heed_end_write_def
        heed_resize_lock_def heed_resize_permits_def heed_resize_done_def Let_def tokio_acquire_None
        dest: tokio_lock_Some tokio_acquire_Some split: option.splits if_splits,
      metis tokio_acquire_one)

interpretation redb: gated_store "tokio_laws ops" "view_gates ops" "redb_act ops"
  by unfold_locales
     (auto simp: view_gates_def redb_begin_read_def redb_end_read_def redb_begin_write_def redb_end_write_def
        redb_compact_lock_def redb_compact_permits_def redb_compact_done_def Let_def tokio_acquire_None
        dest: tokio_lock_Some tokio_acquire_Some split: option.splits if_splits,
      metis tokio_acquire_one)

section \<open>Properties\<close>

lemma heed_open_view:
  "tokio_laws ops \<Longrightarrow> heed_open ops readers dbs = Some g \<Longrightarrow> view_gates ops g = (readers, readers, False, 0, False, Idle)"
  by (auto simp: heed_open_def view_gates_def split: if_splits)

lemma redb_open_view: "tokio_laws ops \<Longrightarrow> view_gates ops (redb_open ops readers) = (readers, readers, False, 0, False, Idle)"
  by (simp add: redb_open_def view_gates_def)

lemma redb_run_ok:
  assumes "tokio_laws ops" "redb.run ops as (redb_open ops readers) = Some g"
  shows "view_ok (view_gates ops g)" "max_readers g = readers"
  using redb.run_ok [OF assms] redb_open_view [OF assms(1), of readers] by (auto simp: view_gates_def)

lemma heed_run_ok:
  assumes "tokio_laws ops" "heed_open ops readers dbs = Some g0" "heed.run ops as g0 = Some g"
  shows "view_ok (view_gates ops g)"
  using heed.run_ok [OF assms(1,3)] heed_open_view [OF assms(1,2)] by simp

fun heed_run :: "('m, 's) tokio_ops \<Rightarrow> gate_action list \<Rightarrow> ('m, 's) gates \<Rightarrow> ('m, 's) gates option" where
  "heed_run ops [] g = Some g"
| "heed_run ops (a # as) g = (case heed_act ops a g of None \<Rightarrow> None | Some h \<Rightarrow> heed_run ops as h)"

fun redb_run :: "('m, 's) tokio_ops \<Rightarrow> gate_action list \<Rightarrow> ('m, 's) gates \<Rightarrow> ('m, 's) gates option" where
  "redb_run ops [] g = Some g"
| "redb_run ops (a # as) g = (case redb_act ops a g of None \<Rightarrow> None | Some h \<Rightarrow> redb_run ops as h)"

lemma heed_run_eq: "heed_run ops as g = heed.run ops as g"
  by (induction as arbitrary: g) (auto split: option.splits)

lemma redb_run_eq: "redb_run ops as g = redb.run ops as g"
  by (induction as arbitrary: g) (auto split: option.splits)

text \<open>C22: Heed: after any interleaving of transactions and resizes, a running resize excludes
  every reader and writer, a writer excludes any other writer and any resize, the readers never
  outnumber the slots, and a resize that has the writer mutex waits exactly while readers live.\<close>

theorem heed_resize_exclusive:
  assumes "tokio_laws ops" "heed_open ops readers dbs = Some g0" "heed_run ops as g0 = Some g"
  shows "(maint g = Running \<longrightarrow> live_reads g = 0 \<and> \<not> live_write g) \<and>
    (live_write g \<longrightarrow> maint g = Idle \<and> heed_begin_write ops ok g = None) \<and> live_reads g \<le> max_readers g \<and>
    (maint g = HoldsWriter \<longrightarrow> (heed_resize_permits ops g = None) = (0 < live_reads g))"
proof -
  have ok: "view_ok (view_gates ops g)"
    using heed_run_ok [OF assms(1,2)] assms(3) by (simp add: heed_run_eq)
  note ex = heed.view_ok_exclusive [OF ok view_gates_def]
  have "heed_begin_write ops ok g = None" if "live_write g"
    using that ok tokio_lock_None [OF assms(1)] by (simp add: view_gates_def heed_begin_write_def split: option.splits)
  moreover have "(heed_resize_permits ops g = None) = (0 < live_reads g)" if "maint g = HoldsWriter"
    using heed.maint_waits_for_readers [OF assms(1) ok] that by (simp add: view_gates_def)
  ultimately show ?thesis using ex by blast
qed

definition gate_schedule :: "gate_action list" where
  "gate_schedule = [BeginRead True, BeginWrite True, EndRead, EndWrite, MaintLock, MaintPermits]"

lemma gate_schedule_runs:
  "heed_run counting_tokio gate_schedule (the (heed_open counting_tokio 16 16)) \<noteq> None"
  "redb_run counting_tokio gate_schedule (redb_open counting_tokio 16) \<noteq> None"
  "maint (the (heed_run counting_tokio gate_schedule (the (heed_open counting_tokio 16 16)))) = Running"
  "maint (the (redb_run counting_tokio gate_schedule (redb_open counting_tokio 16))) = Running"
  by code_simp+

theorem heed_resize_exclusive_witness:
  "live_reads (the (heed_run counting_tokio gate_schedule (the (heed_open counting_tokio 16 16)))) = 0"
proof -
  have "heed_open counting_tokio 16 16 = Some (the (heed_open counting_tokio 16 16))"
    by (simp add: heed_open_def)
  moreover have "heed_run counting_tokio gate_schedule (the (heed_open counting_tokio 16 16)) =
    Some (the (heed_run counting_tokio gate_schedule (the (heed_open counting_tokio 16 16))))"
    using gate_schedule_runs(1) by simp
  ultimately show ?thesis
    using heed_resize_exclusive [OF tokio_laws_counting] gate_schedule_runs(3) by blast
qed

text \<open>ReDB: after any interleaving, a running compaction excludes every reader and writer,
  a writer excludes any other writer and any compaction, the readers never outnumber the
  permits, and a new reader waits exactly while a compaction runs or all permits are out.\<close>

theorem redb_compact_exclusive:
  assumes "tokio_laws ops" "0 < readers" "redb_run ops as (redb_open ops readers) = Some g"
  shows "(maint g = Running \<longrightarrow> live_reads g = 0 \<and> \<not> live_write g) \<and>
    (live_write g \<longrightarrow> maint g = Idle \<and> redb_begin_write ops ok g = None) \<and> live_reads g \<le> readers \<and>
    (redb_begin_read ops ok g = None) = (maint g = Running \<or> live_reads g = readers)"
proof -
  have ok: "view_ok (view_gates ops g)"
    using redb_run_ok(1) [OF assms(1)] assms(3) by (simp add: redb_run_eq)
  have lim: "max_readers g = readers"
    using redb_run_ok(2) [OF assms(1)] assms(3) by (simp add: redb_run_eq)
  note ex = redb.view_ok_exclusive [OF ok view_gates_def]
  have "redb_begin_write ops ok g = None" if "live_write g"
    using that ok tokio_lock_None [OF assms(1)] by (simp add: view_gates_def redb_begin_write_def split: option.splits)
  moreover have "(redb_begin_read ops ok g = None) = (maint g = Running \<or> live_reads g = readers)"
    using redb.read_waits [OF assms(1) ok] assms(2) lim by (simp add: view_gates_def)
  ultimately show ?thesis using ex lim by metis
qed

theorem redb_compact_exclusive_witness:
  "live_reads (the (redb_run counting_tokio gate_schedule (redb_open counting_tokio 16))) = 0"
proof -
  have "redb_run counting_tokio gate_schedule (redb_open counting_tokio 16) =
    Some (the (redb_run counting_tokio gate_schedule (redb_open counting_tokio 16)))"
    using gate_schedule_runs(2) by simp
  from redb_compact_exclusive [OF tokio_laws_counting _ this] gate_schedule_runs(4)
  show ?thesis by simp
qed

section \<open>Databases and iterators\<close>

text \<open>
  What can go wrong while a database is created or opened, in the order of the calls. The
  outcome of each call of the environment is given; the transaction is dropped on every exit,
  also when its commit fails, since \<open>commit\<close> consumes it.
\<close>

datatype 'e database_error = CannotBegin 'e | CannotOpen 'e | CannotFinish 'e

definition heed_create_database ::
  "('m, 's) tokio_ops \<Rightarrow> 'e + unit \<Rightarrow> 'e + 'db \<Rightarrow> 'e + unit \<Rightarrow> ('m, 's) gates \<Rightarrow>
     (('e database_error + 'db) \<times> ('m, 's) gates) option" where
  "heed_create_database ops begun created committed g =
     (case begun of
        Inl err \<Rightarrow> map_option (\<lambda>h. (Inl (CannotBegin err), h)) (heed_begin_write ops False g)
      | Inr _ \<Rightarrow>
          (case heed_begin_write ops True g of
             None \<Rightarrow> None
           | Some h \<Rightarrow>
               map_option (Pair (case created of
                    Inl err \<Rightarrow> Inl (CannotOpen err)
                  | Inr db \<Rightarrow> (case committed of Inl err \<Rightarrow> Inl (CannotFinish err) | Inr _ \<Rightarrow> Inr db)))
                 (heed_end_write ops h)))"

definition heed_open_database ::
  "('m, 's) tokio_ops \<Rightarrow> 'e + unit \<Rightarrow> 'e + 'db option \<Rightarrow> 'e + unit \<Rightarrow> ('m, 's) gates \<Rightarrow>
     (('e database_error + 'db option) \<times> ('m, 's) gates) option" where
  "heed_open_database ops begun opened closed g =
     (case begun of
        Inl err \<Rightarrow> map_option (\<lambda>h. (Inl (CannotBegin err), h)) (heed_begin_read ops False g)
      | Inr _ \<Rightarrow>
          (case heed_begin_read ops True g of
             None \<Rightarrow> None
           | Some h \<Rightarrow>
               map_option (Pair (case opened of
                    Inl err \<Rightarrow> Inl (CannotOpen err)
                  | Inr db \<Rightarrow> (case closed of Inl err \<Rightarrow> Inl (CannotFinish err) | Inr _ \<Rightarrow> Inr db)))
                 (heed_end_read ops h)))"

text \<open>
  An iterator of the database as a stream: the error of opening it, or its items in order;
  \<open>wrap\<close> makes the driver's error an error of the application.
\<close>

definition heed_iter_to_stream :: "('e \<Rightarrow> 'f) \<Rightarrow> 'e + ('e + 'k \<times> 'v) list \<Rightarrow> 'f + ('f + 'k \<times> 'v) list" where
  "heed_iter_to_stream wrap result =
     (case result of Inr items \<Rightarrow> Inr (map (map_sum wrap id) items) | Inl err \<Rightarrow> Inl (wrap err))"

definition redb_iter_to_stream :: "('e \<Rightarrow> 'f) \<Rightarrow> 'e + ('e + 'k \<times> 'v) list \<Rightarrow> 'f + ('f + 'k \<times> 'v) list" where
  "redb_iter_to_stream wrap result =
     (case result of Inr items \<Rightarrow> Inr (map (map_sum wrap id) items) | Inl err \<Rightarrow> Inl (wrap err))"

text \<open>Whatever fails, the gates are left as they were found, and success needs every call.\<close>

lemma create_database_frees_gates:
  assumes "tokio_laws ops" "view_ok (view_gates ops g)"
    and run: "heed_create_database ops begun created committed g = Some (result, h)"
  shows "view_gates ops h = view_gates ops g \<and>
    ((\<exists>db. result = Inr db) = (isl begun = False \<and> isl created = False \<and> isl committed = False))"
proof -
  obtain a n l r w m where v: "view_gates ops g = (a, n, l, r, w, m)" by (cases "view_gates ops g")
  show ?thesis
  proof (cases begun)
    case (Inl err)
    with run obtain "result = Inl (CannotBegin err)" "heed_act ops (BeginWrite False) g = Some h"
      by (auto simp: heed_create_database_def)
    with heed.begin_write [OF assms(1) _ v, of False h] v assms(2) Inl show ?thesis by auto
  next
    case (Inr u)
    with run obtain f where f: "heed_act ops (BeginWrite True) g = Some f" "heed_act ops EndWrite f = Some h"
      and result: "result = (case created of Inl err \<Rightarrow> Inl (CannotOpen err)
        | Inr db \<Rightarrow> (case committed of Inl err \<Rightarrow> Inl (CannotFinish err) | Inr _ \<Rightarrow> Inr db))"
      by (auto simp: heed_create_database_def split: option.splits)
    from heed.begin_write [OF assms(1) f(1) v] have "\<not> l" "view_gates ops f = (a, n, True, r, True, m)" by auto
    with heed.end_write [OF assms(1) f(2)] v assms(2) result Inr show ?thesis
      by (auto split: sum.splits)
  qed
qed

lemma open_database_frees_gates:
  assumes "tokio_laws ops"
    and run: "heed_open_database ops begun opened closed g = Some (result, h)"
  shows "view_gates ops h = view_gates ops g \<and>
    ((\<exists>db. result = Inr db) = (isl begun = False \<and> isl opened = False \<and> isl closed = False))"
proof -
  obtain a n l r w m where v: "view_gates ops g = (a, n, l, r, w, m)" by (cases "view_gates ops g")
  show ?thesis
  proof (cases begun)
    case (Inl err)
    with run obtain "result = Inl (CannotBegin err)" "heed_act ops (BeginRead False) g = Some h"
      by (auto simp: heed_open_database_def)
    with heed.begin_read [OF assms(1) _ v, of False h] v Inl show ?thesis by auto
  next
    case (Inr u)
    with run obtain f where f: "heed_act ops (BeginRead True) g = Some f" "heed_act ops EndRead f = Some h"
      and result: "result = (case opened of Inl err \<Rightarrow> Inl (CannotOpen err)
        | Inr db \<Rightarrow> (case closed of Inl err \<Rightarrow> Inl (CannotFinish err) | Inr _ \<Rightarrow> Inr db))"
      by (auto simp: heed_open_database_def split: option.splits)
    from heed.begin_read [OF assms(1) f(1) v] have "0 < a" "view_gates ops f = (a - 1, n, l, Suc r, w, m)" by auto
    with heed.end_read [OF assms(1) f(2)] v result Inr show ?thesis
      by (auto split: sum.splits)
  qed
qed

end
