(* ===== verification/WhatsappDrafts.thy ===== *)
theory WhatsappDrafts
  imports Demoscene
begin

text \<open>
  The messages of the WhatsApp example, \<open>src/examples/whatsapp_demoscene.rs\<close>. The crate's
  \<open>Draft\<close> is a builder: a draft is how it was started and the calls made on it, in order. What
  the crate makes of the calls is the argument \<open>footer_of\<close>, the footer of a draft that became an
  interactive message; \<open>footer_law\<close> says it is the text of the last \<open>footer\<close> call.
\<close>

section \<open>Drafts\<close>

record wa_media =
  wm_bytes :: resource
  wm_mime :: rstr
  wm_caption :: "rstr option"

datatype interactive_action = LocationRequest

datatype draft_start =
    NewDraft
  | TextDraft rstr
  | MediaDraft wa_media
  | LocationDraft f64 f64
  | InteractiveDraft interactive_action rstr

datatype draft_call =
    Body rstr
  | Header rstr
  | Footer rstr
  | AddReplyButton rstr rstr
  | StartList rstr
  | AddListSection rstr
  | AddListOption rstr rstr rstr
  | WithCtaUrl rstr rstr
  | PreviewUrl bool
  | LocationName rstr
  | LocationAddress rstr
  | BizOpaqueCallbackData rstr

datatype draft = Draft (draft_start: draft_start) (draft_calls: "draft_call list")

definition then_call :: "draft \<Rightarrow> draft_call \<Rightarrow> draft" where
  "then_call d c = Draft (draft_start d) (draft_calls d @ [c])"

text \<open>Whether the draft is an interactive message, and the footer it was given.\<close>

definition makes_interactive :: "draft_call \<Rightarrow> bool" where
  "makes_interactive c \<longleftrightarrow>
     (case c of AddReplyButton _ _ \<Rightarrow> True | StartList _ \<Rightarrow> True | WithCtaUrl _ _ \<Rightarrow> True | _ \<Rightarrow> False)"

definition is_interactive :: "draft \<Rightarrow> bool" where
  "is_interactive d \<longleftrightarrow>
     (case draft_start d of InteractiveDraft _ _ \<Rightarrow> True | _ \<Rightarrow> list_ex makes_interactive (draft_calls d))"

fun call_footer :: "draft_call \<Rightarrow> rstr option" where
  "call_footer (Footer s) = Some s"
| "call_footer _ = None"

definition given_footer :: "draft \<Rightarrow> rstr option" where
  "given_footer d =
     (if is_interactive d then case List.map_filter call_footer (draft_calls d) of [] \<Rightarrow> None | fs \<Rightarrow> Some (last fs)
      else None)"

definition footer_law :: "(draft \<Rightarrow> rstr option) \<Rightarrow> bool" where
  "footer_law footer_of \<longleftrightarrow> (\<forall>d. footer_of d = given_footer d)"

definition interactive_footer_max_chars :: nat where
  "interactive_footer_max_chars = 60"

definition validate_demo_draft :: "(draft \<Rightarrow> rstr option) \<Rightarrow> draft \<Rightarrow> (rstr, unit) result" where
  "validate_demo_draft footer_of d =
     (case footer_of d of
        None \<Rightarrow> Inr ()
      | Some footer \<Rightarrow>
          (let footer_chars = chars_count footer in
           if interactive_footer_max_chars < footer_chars
           then Inl (''interactive footer is '' @ show_nat footer_chars @ '' characters; Meta allows at most '' @
                  show_nat interactive_footer_max_chars)
           else Inr ()))"

section \<open>The drafts of the demo\<close>

definition menu_draft :: draft where
  "menu_draft =
     Draft (NewDraft)
       [Body ([CHR 0xF0, CHR 0x9F, CHR 0xA4, CHR 0x96] @ '' OgreRobot WhatsApp Demoscene''),
        Footer ''Pick a WhatsApp feature.'',
        AddReplyButton ''demo:list'' ''List'',
        AddReplyButton ''demo:location'' ''Location'',
        AddReplyButton ''demo:inspect'' ''Inspect'',
        BizOpaqueCallbackData ''whatsapp-demoscene:menu'']"

definition list_draft :: draft where
  "list_draft =
     Draft (NewDraft)
       [Body ''Choose a WhatsApp Business feature to inspect.'',
        Header ''Feature menu'',
        Footer ''Selections return as signed interactive webhook events.'',
        StartList ''Features'',
        AddListSection ''Messages'',
        AddListOption ''demo:menu'' ''Quick replies'' ''Buttons using Draft::add_reply_button'',
        AddListOption ''demo:formatting'' ''Formatting'' ''Bold, italic, strike, and monospace text'',
        AddListOption ''demo:media'' ''Media'' ''Embedded PNG, MP3, h264/AAC MP4, and WebP sticker'',
        AddListOption ''demo:reaction'' ''Reaction'' ''React to the selected message with an emoji'',
        AddListOption ''demo:quote'' ''Quoted reply'' ''Reply with the selected message as context'',
        AddListSection ''Interactive'',
        AddListOption ''demo:location'' ''Location'' ''Latitude/longitude with a name and address'',
        AddListOption ''demo:location-request'' ''Request location'' ''Share a location; receive a point about 100 m south'',
        AddListOption ''demo:cta'' ''CTA URL'' ''A native call-to-action link button'',
        AddListOption ''demo:inspect'' ''Inspect'' ''Show safe metadata for the selected message'',
        AddListSection ''Server demos'',
        AddListOption ''demo:benchmarks'' ''Database benchmarks'' ''Run SQLite, ReDB, or Heed with sampled progress'',
        BizOpaqueCallbackData ''whatsapp-demoscene:list'']"

definition database_benchmarks_draft :: draft where
  "database_benchmarks_draft =
     Draft (NewDraft)
       [Body ''Choose a database benchmark. Only one may run at a time.'',
        Header ''Database benchmarks'',
        Footer ''First, one per minute, and final progress are sent.'',
        StartList ''Databases'',
        AddListSection ''Storage engines'',
        AddListOption ''demo:benchmark:sqlite'' ''SQLite'' ''1,048,576 records plus an indexed range query'',
        AddListOption ''demo:benchmark:redb'' ''ReDB'' ''1,048,576 records plus sampled point queries'',
        AddListOption ''demo:benchmark:heed'' ''Heed'' ''67,108,864 records plus sampled point queries'',
        AddListSection ''Navigation'',
        AddListOption ''demo:list'' ''Back to features'' ''Return to the WhatsApp feature list'',
        BizOpaqueCallbackData ''whatsapp-demoscene:database-benchmarks'']"

definition cta_draft :: draft where
  "cta_draft =
     Draft (NewDraft)
       [Body ''Open the OgreRobot bot-starter-kit repository.'',
        Footer ''CTA buttons open a URL and do not send a callback.'',
        WithCtaUrl ''https://github.com/zertyz/bot-starter-kit'' ''Open repository'',
        BizOpaqueCallbackData ''whatsapp-demoscene:cta'']"

definition formatted_text_draft :: draft where
  "formatted_text_draft =
     Draft (TextDraft (''*Bold*'' @ [CHR 0x0A] @ ''_Italic_'' @ [CHR 0x0A] @ ''~Strikethrough~'' @ [CHR 0x0A] @ ''```Monospace```'' @ [CHR 0x0A] @ ''Emoji text: '' @ [CHR 0xF0, CHR 0x9F, CHR 0xA4, CHR 0x96] @ '' '' @ [CHR 0xF0, CHR 0x9F, CHR 0xA7, CHR 0xAD] @ '' '' @ [CHR 0xF0, CHR 0x9F, CHR 0x8E, CHR 0x89]))
       [BizOpaqueCallbackData ''whatsapp-demoscene:formatting'']"

definition location_draft :: draft where
  "location_draft =
     Draft (LocationDraft (to_f64 (- (2355052 / 100000))) (to_f64 (- (46633308 / 1000000))))
       [LocationName ''Sao Paulo'',
        LocationAddress ''Sao Paulo, SP, Brazil'',
        BizOpaqueCallbackData ''whatsapp-demoscene:location'']"

definition location_request_draft :: draft where
  "location_request_draft =
     Draft (InteractiveDraft LocationRequest ''Share your location. The demo replies with a point about 100 m south.'')
       [BizOpaqueCallbackData ''whatsapp-demoscene:location-request'']"

text \<open>The embedded media; parsing a MIME type is the crate's.\<close>

definition demo_image :: embedded_media where
  "demo_image = \<lparr>em_file_name = ''demo_image.png'', em_mime_type = ''image/png'', em_bytes = Frame 0\<rparr>"

definition embedded_media_draft ::
  "(rstr \<Rightarrow> (rstr, rstr) result) \<Rightarrow> embedded_media \<Rightarrow> rstr \<Rightarrow> rstr option \<Rightarrow> rstr \<Rightarrow> (rstr, rstr \<times> draft) result" where
  "embedded_media_draft parse_mime r label caption callback_suffix =
     bind_res
       (map_err (\<lambda>err. ''embedded resource '' @ em_file_name r @ '' has unsupported MIME type '' @ em_mime_type r @ '': '' @ err)
         (parse_mime (em_mime_type r)))
       (\<lambda>media_type. Inr (label,
          Draft (MediaDraft \<lparr>wm_bytes = em_bytes r, wm_mime = media_type, wm_caption = caption\<rparr>)
            [BizOpaqueCallbackData (''whatsapp-demoscene:media:'' @ callback_suffix)]))"

definition embedded_media_drafts :: "(rstr \<Rightarrow> (rstr, rstr) result) \<Rightarrow> (rstr, (rstr \<times> draft) list) result" where
  "embedded_media_drafts parse_mime =
     collect_results
       [embedded_media_draft parse_mime demo_image ''image'' (Some ''Embedded PNG image.'') ''image'',
        embedded_media_draft parse_mime demo_audio ''MP3 audio'' None ''audio-mp3'',
        embedded_media_draft parse_mime demo_voice ''OGG/Opus audio'' None ''audio-opus'',
        embedded_media_draft parse_mime demo_video ''MP4 video'' (Some ''Embedded h264 MP4 video.'') ''video-mp4'',
        embedded_media_draft parse_mime demo_sticker ''WebP sticker'' None ''sticker-webp'']"

section \<open>A location shifted to the south\<close>

record location =
  latitude :: f64
  longitude :: f64

definition earth_mean_radius_meters :: f64 where
  "earth_mean_radius_meters = to_f64 (63710088 / 10)"

text \<open>\<open>f64::to_degrees\<close> multiplies by the constant \<open>57.2957795130823208767981548141051703\<close>.\<close>

definition to_degrees :: "f64 \<Rightarrow> f64" where
  "to_degrees x = f_mul x (to_f64 (572957795130823208767981548141051703 / 10 ^ 34))"

definition latitude_shift :: f64 where
  "latitude_shift = to_degrees (f_div (Fin 100) earth_mean_radius_meters)"

definition in_closed :: "f64 \<Rightarrow> f64 \<Rightarrow> f64 \<Rightarrow> bool" where
  "in_closed lo hi x \<longleftrightarrow> f_le lo x \<and> f_le x hi"

definition shifted_location_draft :: "location \<Rightarrow> (rstr, draft) result" where
  "shifted_location_draft l =
     (if \<not> f_finite (latitude l) \<or> \<not> f_finite (longitude l) \<or> \<not> in_closed (Fin (- 90)) (Fin 90) (latitude l) \<or>
         \<not> in_closed (Fin (- 180)) (Fin 180) (longitude l)
      then Inl ''received location coordinates are outside the valid latitude/longitude ranges''
      else
        Inr (Draft (LocationDraft (f_max (f_sub (latitude l) latitude_shift) (Fin (- 90))) (longitude l))
          [LocationName ''About 100 m south of your location'',
           LocationAddress (''Original: '' @ fmt_dec 6 (latitude l) @ '', '' @ fmt_dec 6 (longitude l)),
           BizOpaqueCallbackData ''whatsapp-demoscene:location-shifted-south'']))"

end
