(* ===== verification/WhatsappConfig.thy ===== *)
theory WhatsappConfig
  imports TelegramGateway
begin

text \<open>
  The configuration of the WhatsApp example, \<open>src/examples/whatsapp_demoscene.rs\<close>: the mode on the
  command line, the environment variables, and what each mode asks of them. Parsing URLs and
  socket addresses and building the TLS configuration are arguments; an error names the variable
  its message asks for.
\<close>

datatype wa_error =
    UnknownMode rstr
  | Required rstr
  | BadSocketAddr rstr rstr
  | BadUrl rstr rstr
  | UrlSchemeNotHttps rstr
  | UrlWithoutHost rstr
  | UrlWithQueryOrFragment rstr
  | UrlWithoutPort
  | TlsFilesNotTogether
  | TlsError rstr
  | WaError rstr

section \<open>Modes\<close>

datatype wa_mode = ModeSend | ModeSendTemplate | ModeSendBatch | ModeServe | ModeRegisterWebhook
  | ModeServeAndRegister | ModeHelp

definition parse_mode :: "rstr list \<Rightarrow> (wa_error, wa_mode) result" where
  "parse_mode args =
     (case (if 1 < length args then Some (args ! 1) else None) of
        None \<Rightarrow> Inr ModeHelp
      | Some a \<Rightarrow>
          if a = ''send'' then Inr ModeSend
          else if a = ''send-template'' then Inr ModeSendTemplate
          else if a = ''send-batch'' then Inr ModeSendBatch
          else if a = ''serve'' then Inr ModeServe
          else if a = ''register-webhook'' then Inr ModeRegisterWebhook
          else if a = ''serve-and-register'' then Inr ModeServeAndRegister
          else if a = ''help'' \<or> a = ''--help'' \<or> a = ''-h'' then Inr ModeHelp
          else Inl (UnknownMode a))"

section \<open>The environment\<close>

type_synonym environment = "rstr \<rightharpoonup> rstr"

record 'u wa_url_ops = "'u url_ops" +
  url_host :: "'u \<Rightarrow> rstr option"
  url_query :: "'u \<Rightarrow> rstr option"
  url_fragment :: "'u \<Rightarrow> rstr option"
  url_path :: "'u \<Rightarrow> rstr"

record 'a socket_ops =
  socket_parse :: "rstr \<Rightarrow> (rstr, 'a) result"
  any_interface :: "nat \<Rightarrow> 'a"

record ('u, 'a) wa_config =
  wa_access_token :: "rstr option"
  wa_phone_number_id :: "rstr option"
  wa_recipient :: "rstr option"
  wa_template_name :: "rstr option"
  wa_template_language :: "rstr option"
  wa_app_id :: "rstr option"
  wa_app_secret :: "rstr option"
  wa_verify_token :: "rstr option"
  wa_public_url :: "'u option"
  wa_bind_addr :: "'a option"
  wa_certificate_file :: "rstr option"
  wa_private_key_file :: "rstr option"

definition env_optional :: "environment \<Rightarrow> rstr \<Rightarrow> rstr option" where
  "env_optional env name =
     (case map_option trim (env name) of
        None \<Rightarrow> None
      | Some v \<Rightarrow> if v = [] then None else Some v)"

definition parse_socket_addr_env :: "'a socket_ops \<Rightarrow> environment \<Rightarrow> rstr \<Rightarrow> (wa_error, 'a option) result" where
  "parse_socket_addr_env sops env name =
     (case env_optional env name of
        None \<Rightarrow> Inr None
      | Some v \<Rightarrow> bind_res (map_err (BadSocketAddr name) (socket_parse sops v)) (\<lambda>a. Inr (Some a)))"

definition parse_public_webhook_url :: "'u wa_url_ops \<Rightarrow> environment \<Rightarrow> rstr \<Rightarrow> (wa_error, 'u option) result" where
  "parse_public_webhook_url uops env name =
     (case env_optional env name of
        None \<Rightarrow> Inr None
      | Some raw_url \<Rightarrow>
          bind_res (map_err (BadUrl name) (url_parse uops raw_url)) (\<lambda>u.
            if url_scheme uops u \<noteq> ''https'' then Inl (UrlSchemeNotHttps name)
            else if url_host uops u = None then Inl (UrlWithoutHost name)
            else if url_query uops u \<noteq> None \<or> url_fragment uops u \<noteq> None then Inl (UrlWithQueryOrFragment name)
            else Inr (Some u)))"

definition from_env :: "'u wa_url_ops \<Rightarrow> 'a socket_ops \<Rightarrow> environment \<Rightarrow> (wa_error, ('u, 'a) wa_config) result" where
  "from_env uops sops env =
     bind_res (parse_public_webhook_url uops env ''WHATSAPP_WEBHOOK_PUBLIC_URL'') (\<lambda>public_url.
     bind_res (parse_socket_addr_env sops env ''WHATSAPP_WEBHOOK_BIND_ADDR'') (\<lambda>bind_addr.
     Inr \<lparr>wa_access_token = env_optional env ''WHATSAPP_ACCESS_TOKEN'',
          wa_phone_number_id = env_optional env ''WHATSAPP_PHONE_NUMBER_ID'',
          wa_recipient = env_optional env ''WHATSAPP_RECIPIENT_PHONE_NUMBER'',
          wa_template_name = env_optional env ''WHATSAPP_DEMO_TEMPLATE_NAME'',
          wa_template_language = env_optional env ''WHATSAPP_DEMO_TEMPLATE_LANGUAGE'',
          wa_app_id = env_optional env ''WHATSAPP_APP_ID'',
          wa_app_secret = env_optional env ''WHATSAPP_APP_SECRET'',
          wa_verify_token = env_optional env ''WHATSAPP_WEBHOOK_VERIFY_TOKEN'',
          wa_public_url = public_url,
          wa_bind_addr = bind_addr,
          wa_certificate_file = env_optional env ''WHATSAPP_WEBHOOK_CERTIFICATE_FILE'',
          wa_private_key_file = env_optional env ''WHATSAPP_WEBHOOK_PRIVATE_KEY_FILE''\<rparr>))"

section \<open>What a mode asks of the configuration\<close>

record outbound_config =
  out_phone_number_id :: rstr
  out_recipient :: rstr

record template_config =
  tpl_name :: rstr
  tpl_language :: rstr

record 'u registration_config =
  reg_app_id :: rstr
  reg_verify_token :: rstr
  reg_public_url :: 'u

definition outbound :: "('u, 'a) wa_config \<Rightarrow> (wa_error, outbound_config) result" where
  "outbound c =
     bind_res (ok_or (Required ''WHATSAPP_PHONE_NUMBER_ID'') (wa_phone_number_id c)) (\<lambda>phone.
     bind_res (ok_or (Required ''WHATSAPP_RECIPIENT_PHONE_NUMBER'') (wa_recipient c)) (\<lambda>recipient.
     Inr \<lparr>out_phone_number_id = phone, out_recipient = recipient\<rparr>))"

definition access_token :: "('u, 'a) wa_config \<Rightarrow> (wa_error, rstr) result" where
  "access_token c = ok_or (Required ''WHATSAPP_ACCESS_TOKEN'') (wa_access_token c)"

definition default_template_language :: rstr where
  "default_template_language = ''en_US''"

definition template_of :: "('u, 'a) wa_config \<Rightarrow> (wa_error, template_config) result" where
  "template_of c =
     bind_res (ok_or (Required ''WHATSAPP_DEMO_TEMPLATE_NAME'') (wa_template_name c)) (\<lambda>name.
     Inr \<lparr>tpl_name = name,
          tpl_language = (case wa_template_language c of Some l \<Rightarrow> l | None \<Rightarrow> default_template_language)\<rparr>)"

definition app_secret :: "('u, 'a) wa_config \<Rightarrow> (wa_error, rstr) result" where
  "app_secret c = ok_or (Required ''WHATSAPP_APP_SECRET'') (wa_app_secret c)"

definition webhook_verify_token :: "('u, 'a) wa_config \<Rightarrow> (wa_error, rstr) result" where
  "webhook_verify_token c = ok_or (Required ''WHATSAPP_WEBHOOK_VERIFY_TOKEN'') (wa_verify_token c)"

definition webhook_public_url :: "('u, 'a) wa_config \<Rightarrow> (wa_error, 'u) result" where
  "webhook_public_url c = ok_or (Required ''WHATSAPP_WEBHOOK_PUBLIC_URL'') (wa_public_url c)"

definition webhook_registration :: "('u, 'a) wa_config \<Rightarrow> (wa_error, 'u registration_config) result" where
  "webhook_registration c =
     bind_res (ok_or (Required ''WHATSAPP_APP_ID'') (wa_app_id c)) (\<lambda>app_id.
     bind_res (webhook_verify_token c) (\<lambda>token.
     bind_res (webhook_public_url c) (\<lambda>url.
     Inr \<lparr>reg_app_id = app_id, reg_verify_token = token, reg_public_url = url\<rparr>)))"

definition webhook_route :: "'u wa_url_ops \<Rightarrow> ('u, 'a) wa_config \<Rightarrow> (wa_error, rstr) result" where
  "webhook_route uops c = bind_res (webhook_public_url c) (\<lambda>u. Inr (url_path uops u))"

definition default_webhook_bind_addr :: rstr where
  "default_webhook_bind_addr = ''127.0.0.1:8080''"

definition webhook_bind_address :: "'u wa_url_ops \<Rightarrow> 'a socket_ops \<Rightarrow> ('u, 'a) wa_config \<Rightarrow> (wa_error, 'a) result" where
  "webhook_bind_address uops sops c =
     (case wa_bind_addr c of
        Some a \<Rightarrow> Inr a
      | None \<Rightarrow>
          if wa_certificate_file c = None \<and> wa_private_key_file c = None
          then map_err (BadSocketAddr ''built-in'') (socket_parse sops default_webhook_bind_addr)
          else
            bind_res (webhook_public_url c) (\<lambda>u.
            bind_res (ok_or UrlWithoutPort (url_port uops u)) (\<lambda>port.
            Inr (any_interface sops port))))"

definition wa_load_tls_server_config :: "('x, 'k, 't) tls_ops \<Rightarrow> rstr \<Rightarrow> rstr \<Rightarrow> (wa_error, 't) result" where
  "wa_load_tls_server_config tops certificate_file private_key_file =
     bind_res (map_err TlsError (pem_file_iter tops certificate_file)) (\<lambda>items.
     bind_res (map_err TlsError (collect_results items)) (\<lambda>chain.
     if chain = [] then Inl (TlsError (''no certificates in '' @ certificate_file))
     else
       bind_res (map_err TlsError (key_from_pem_file tops private_key_file)) (\<lambda>key.
       map_err TlsError (with_single_cert tops chain key))))"

definition webhook_tls_config :: "('x, 'k, 't) tls_ops \<Rightarrow> ('u, 'a) wa_config \<Rightarrow> (wa_error, 't option) result" where
  "webhook_tls_config tops c =
     (case (wa_certificate_file c, wa_private_key_file c) of
        (None, None) \<Rightarrow> Inr None
      | (Some certificate_file, Some private_key_file) \<Rightarrow>
          bind_res (wa_load_tls_server_config tops certificate_file private_key_file) (\<lambda>t. Inr (Some t))
      | _ \<Rightarrow> Inl TlsFilesNotTogether)"

definition transport_name :: "'t option \<Rightarrow> rstr" where
  "transport_name tls = (if tls \<noteq> None then ''HTTPS'' else ''HTTP'')"

end
