(* ===== verification/WhatsappDemo.thy ===== *)
theory WhatsappDemo
  imports WhatsappDrafts WhatsappConfig
begin

text \<open>
  What the WhatsApp example answers, \<open>src/examples/whatsapp_demoscene.rs\<close>: the action for a
  message, how it is carried out, and the database benchmarks with their sampled progress. A
  message holds what the crate's accessors answer (\<open>text()\<close>, the callback of \<open>button_click()\<close>);
  replying, the clock and sleeping are the record \<open>conversation\<close>. Times are milliseconds.
\<close>

section \<open>Messages and actions\<close>

datatype wa_content = TextContent | MediaContent | ReactionContent | LocationContent location
  | InteractiveContent | OrderContent | ErrorContent

record wa_message =
  wa_msg_id :: rstr
  wa_sender :: rstr
  wa_content :: wa_content
  wa_text :: "rstr option"
  wa_callback :: "rstr option"

datatype database_benchmark = Sqlite | Redb | Heed

fun label :: "database_benchmark \<Rightarrow> rstr" where
  "label Sqlite = ''SQLite''"
| "label Redb = ''ReDB''"
| "label Heed = ''Heed''"

datatype demo_action =
    Reply draft
  | Replies "draft list"
  | SwipeReply draft
  | ReactWith rstr
  | DatabaseBenchmark database_benchmark

definition text_draft :: "rstr \<Rightarrow> draft" where
  "text_draft s = Draft (TextDraft s) []"

fun message_content_kind :: "wa_content \<Rightarrow> rstr" where
  "message_content_kind TextContent = ''text''"
| "message_content_kind MediaContent = ''media''"
| "message_content_kind ReactionContent = ''reaction''"
| "message_content_kind (LocationContent _) = ''location''"
| "message_content_kind InteractiveContent = ''interactive''"
| "message_content_kind OrderContent = ''order''"
| "message_content_kind ErrorContent = ''error''"

definition inspect_message_draft :: "wa_message \<Rightarrow> draft" where
  "inspect_message_draft m =
     text_draft (''Message id: '' @ wa_msg_id m @ [CHR 0x0A] @ ''From: '' @ wa_sender m @ [CHR 0x0A] @
       ''Type: '' @ message_content_kind (wa_content m) @ [CHR 0x0A] @
       ''Primary text: '' @ (case wa_text m of Some t \<Rightarrow> t | None \<Rightarrow> ''<no primary text>''))"

definition echo_or_menu_draft :: "wa_message \<Rightarrow> draft" where
  "echo_or_menu_draft m =
     (case wa_text m of
        Some t \<Rightarrow> then_call (text_draft (''Echo: '' @ t @ [CHR 0x0A, CHR 0x0A] @ ''Send `menu` for feature buttons.'')) (PreviewUrl False)
      | None \<Rightarrow> text_draft ''Received a non-text message. Send `menu` for feature buttons.'')"

text \<open>The arms of \<open>match command\<close>; \<open>None\<close> is the last one.\<close>

datatype command_arm = ArmMenu | ArmList | ArmBenchmarks | ArmBenchmark database_benchmark | ArmFormatting
  | ArmMedia | ArmReaction | ArmQuote | ArmLocation | ArmLocationRequest | ArmCta | ArmInspect | ArmEcho | ArmOther

definition command_arm :: "rstr \<Rightarrow> command_arm" where
  "command_arm c =
     (if c \<in> {''/start'', ''start'', ''help'', ''menu'', ''demo:menu''} then ArmMenu
      else if c \<in> {''demo:list'', ''list''} then ArmList
      else if c \<in> {''demo:benchmarks'', ''benchmarks'', ''database benchmarks''} then ArmBenchmarks
      else if c \<in> {''demo:benchmark:sqlite'', ''sqlite'', ''sqlite benchmark'', ''sqlitebenchmark''} then ArmBenchmark Sqlite
      else if c \<in> {''demo:benchmark:redb'', ''redb'', ''redb benchmark'', ''redbbenchmark''} then ArmBenchmark Redb
      else if c \<in> {''demo:benchmark:heed'', ''heed'', ''heed benchmark'', ''heedbenchmark''} then ArmBenchmark Heed
      else if c \<in> {''demo:formatting'', ''formatting''} then ArmFormatting
      else if c \<in> {''demo:media'', ''media''} then ArmMedia
      else if c \<in> {''demo:reaction'', ''reaction''} then ArmReaction
      else if c \<in> {''demo:quote'', ''quote''} then ArmQuote
      else if c \<in> {''demo:location'', ''location''} then ArmLocation
      else if c \<in> {''demo:location-request'', ''location request''} then ArmLocationRequest
      else if c \<in> {''demo:cta'', ''cta''} then ArmCta
      else if c \<in> {''demo:inspect'', ''inspect''} then ArmInspect
      else if c \<in> {''demo:echo'', ''echo''} then ArmEcho
      else ArmOther)"

definition command_of :: "wa_message \<Rightarrow> rstr" where
  "command_of m =
     to_ascii_lowercase (trim (case wa_callback m of Some c \<Rightarrow> c | None \<Rightarrow>
       (case wa_text m of Some t \<Rightarrow> t | None \<Rightarrow> [])))"

definition arm_action :: "(rstr \<Rightarrow> (rstr, rstr) result) \<Rightarrow> wa_message \<Rightarrow> command_arm \<Rightarrow> (rstr, demo_action) result" where
  "arm_action parse_mime m arm =
     (case arm of
        ArmMenu \<Rightarrow> Inr (Reply menu_draft)
      | ArmList \<Rightarrow> Inr (Reply list_draft)
      | ArmBenchmarks \<Rightarrow> Inr (Reply database_benchmarks_draft)
      | ArmBenchmark b \<Rightarrow> Inr (DatabaseBenchmark b)
      | ArmFormatting \<Rightarrow> Inr (Reply formatted_text_draft)
      | ArmMedia \<Rightarrow> bind_res (embedded_media_drafts parse_mime) (\<lambda>samples. Inr (Replies (map snd samples)))
      | ArmReaction \<Rightarrow> Inr (ReactWith [CHR 0xF0, CHR 0x9F, CHR 0x91, CHR 0x8D])
      | ArmQuote \<Rightarrow> Inr (SwipeReply (text_draft ''This is a quoted (swipe-style) reply.''))
      | ArmLocation \<Rightarrow> Inr (Reply location_draft)
      | ArmLocationRequest \<Rightarrow> Inr (Reply location_request_draft)
      | ArmCta \<Rightarrow> Inr (Reply cta_draft)
      | ArmInspect \<Rightarrow> Inr (Reply (inspect_message_draft m))
      | ArmEcho \<Rightarrow> Inr (Reply (text_draft ''Send any text and this demoscene will echo the primary text field.''))
      | ArmOther \<Rightarrow> Inr (Reply (echo_or_menu_draft m)))"

definition response_for :: "(rstr \<Rightarrow> (rstr, rstr) result) \<Rightarrow> wa_message \<Rightarrow> (rstr, demo_action) result" where
  "response_for parse_mime m =
     (case wa_content m of
        LocationContent l \<Rightarrow> bind_res (shifted_location_draft l) (\<lambda>d. Inr (Reply d))
      | _ \<Rightarrow> arm_action parse_mime m (command_arm (command_of m)))"

section \<open>The conversation\<close>

record 's conversation =
  set_read :: "(rstr, 's, unit) job"
  set_replying :: "(rstr, 's, unit) job"
  reply_with :: "draft \<Rightarrow> (rstr, 's, unit) job"
  swipe_reply :: "draft \<Rightarrow> (rstr, 's, unit) job"
  react_with :: "rstr \<Rightarrow> (rstr, 's, unit) job"
  instant_now :: "'s \<Rightarrow> nat \<times> 's"
  sleep_for :: "nat \<Rightarrow> 's \<Rightarrow> 's"

text \<open>What the example relies on in the crate.\<close>

record crate_ops =
  crate_footer :: "draft \<Rightarrow> rstr option"
  crate_mime :: "rstr \<Rightarrow> (rstr, rstr) result"

section \<open>Benchmark progress\<close>

definition progress_interval :: nat where
  "progress_interval = 60000"

definition pair_send_interval :: nat where
  "pair_send_interval = 6000"

record progress_state =
  bp_latest :: "rstr option"
  bp_last_sent :: "rstr option"
  bp_last_sampled_at :: "nat option"
  bp_last_sent_at :: "nat option"

definition progress_default :: progress_state where
  "progress_default = \<lparr>bp_latest = None, bp_last_sent = None, bp_last_sampled_at = None, bp_last_sent_at = None\<rparr>"

text \<open>\<open>saturating_duration_since\<close> and \<open>saturating_sub\<close> stop at zero, as \<open>-\<close> on \<open>nat\<close>.\<close>

definition observe :: "nat \<Rightarrow> rstr \<Rightarrow> progress_state \<Rightarrow> bool \<times> progress_state" where
  "observe now message st =
     ((case bp_last_sampled_at st of None \<Rightarrow> True | Some t \<Rightarrow> progress_interval \<le> now - t),
      st\<lparr>bp_latest := Some message\<rparr>)"

definition record_sampled :: "nat \<Rightarrow> progress_state \<Rightarrow> progress_state" where
  "record_sampled now st = st\<lparr>bp_last_sampled_at := Some now\<rparr>"

definition latest_unsent :: "progress_state \<Rightarrow> rstr option" where
  "latest_unsent st =
     (case bp_latest st of
        None \<Rightarrow> None
      | Some l \<Rightarrow> if bp_last_sent st \<noteq> Some l then Some l else None)"

definition pair_send_delay :: "nat \<Rightarrow> progress_state \<Rightarrow> nat" where
  "pair_send_delay now st =
     (case bp_last_sent_at st of None \<Rightarrow> 0 | Some t \<Rightarrow> pair_send_interval - (now - t))"

definition record_sent :: "nat \<Rightarrow> rstr \<Rightarrow> progress_state \<Rightarrow> progress_state" where
  "record_sent now message st = st\<lparr>bp_last_sent := Some message, bp_last_sent_at := Some now\<rparr>"

text \<open>The reporter's lock is held for the whole of a call: its calls are jobs on the state.\<close>

type_synonym ('s, 'a) reporting = "(rstr, progress_state \<times> 's, 'a) job"

definition read_clock :: "'s conversation \<Rightarrow> ('s, nat) reporting" where
  "read_clock cv w = (case w of (st, s) \<Rightarrow> case instant_now cv s of (now, s') \<Rightarrow> (Inr now, (st, s')))"

definition on_state :: "(progress_state \<Rightarrow> 'a \<times> progress_state) \<Rightarrow> ('s, 'a) reporting" where
  "on_state f w = (case w of (st, s) \<Rightarrow> case f st of (x, st') \<Rightarrow> (Inr x, (st', s)))"

definition on_world :: "(rstr, 's, 'a) job \<Rightarrow> ('s, 'a) reporting" where
  "on_world j w = (case w of (st, s) \<Rightarrow> case j s of (r, s') \<Rightarrow> (r, (st, s')))"

definition benchmark_draft :: "database_benchmark \<Rightarrow> rstr \<Rightarrow> draft" where
  "benchmark_draft b message =
     then_call (text_draft (''*'' @ label b @ '' database benchmark*'' @ [CHR 0x0A] @ message))
       (BizOpaqueCallbackData (''whatsapp-demoscene:benchmark:'' @ to_ascii_lowercase (label b)))"

definition send_database_benchmark_reply ::
  "crate_ops \<Rightarrow> 's conversation \<Rightarrow> database_benchmark \<Rightarrow> rstr \<Rightarrow> (rstr, 's, unit) job" where
  "send_database_benchmark_reply crate cv b message =
     job_bind (job_lift (validate_demo_draft (crate_footer crate) (benchmark_draft b message))) (\<lambda>_.
     job_map_err (\<lambda>err. ''sending '' @ label b @ '' benchmark progress failed: '' @ err) (reply_with cv (benchmark_draft b message)))"

definition send_locked :: "crate_ops \<Rightarrow> 's conversation \<Rightarrow> database_benchmark \<Rightarrow> rstr \<Rightarrow> ('s, unit) reporting" where
  "send_locked crate cv b message =
     job_bind (read_clock cv) (\<lambda>now.
     job_bind (on_state (\<lambda>st. (pair_send_delay now st, st))) (\<lambda>delay.
     job_bind (on_world (\<lambda>s. (Inr (), if delay = 0 then s else sleep_for cv delay s))) (\<lambda>_.
     job_bind (on_world (send_database_benchmark_reply crate cv b message)) (\<lambda>_.
     job_bind (read_clock cv) (\<lambda>now.
     on_state (\<lambda>st. ((), record_sent now message st)))))))"

definition report :: "crate_ops \<Rightarrow> 's conversation \<Rightarrow> database_benchmark \<Rightarrow> rstr \<Rightarrow> ('s, unit) reporting" where
  "report crate cv b message =
     job_bind (read_clock cv) (\<lambda>now.
     job_bind (on_state (observe now message)) (\<lambda>due.
     if \<not> due then job_return ()
     else
       job_bind (read_clock cv) (\<lambda>now.
       job_bind (on_state (\<lambda>st. ((), record_sampled now st))) (\<lambda>_.
       send_locked crate cv b message))))"

definition finish_success :: "crate_ops \<Rightarrow> 's conversation \<Rightarrow> database_benchmark \<Rightarrow> ('s, unit) reporting" where
  "finish_success crate cv b =
     job_bind (on_state (\<lambda>st. (latest_unsent st, st))) (\<lambda>m.
     case m of None \<Rightarrow> job_return () | Some message \<Rightarrow> send_locked crate cv b message)"

definition failure_message :: "rstr \<Rightarrow> rstr" where
  "failure_message err = ([CHR 0xE2, CHR 0x9D, CHR 0x8C] @ '' Benchmark failed: '') @ err"

definition finish_failure :: "crate_ops \<Rightarrow> 's conversation \<Rightarrow> database_benchmark \<Rightarrow> rstr \<Rightarrow> ('s, unit) reporting" where
  "finish_failure crate cv b err =
     job_bind (on_state (\<lambda>st. ((), st\<lparr>bp_latest := Some (failure_message err)\<rparr>))) (\<lambda>_.
     send_locked crate cv b (failure_message err))"

section \<open>Running a benchmark\<close>

text \<open>
  The benchmarks of \<open>Benchmarks\<close>, their progress put into words, as jobs over what they report
  to; making the temporary directory is the job \<open>temp_dir\<close>.
\<close>

record 's engines =
  temp_dir :: "(rstr, 's, unit) job"
  run_sqlite :: "sqlite_config \<Rightarrow> (rstr \<Rightarrow> ('s, unit) reporting) \<Rightarrow> ('s, unit) reporting"
  run_redb :: "redb_config \<Rightarrow> (rstr \<Rightarrow> ('s, unit) reporting) \<Rightarrow> ('s, unit) reporting"
  run_heed :: "heed_config \<Rightarrow> (rstr \<Rightarrow> ('s, unit) reporting) \<Rightarrow> ('s, unit) reporting"

definition standard_records :: nat where "standard_records = 1024 * 1024"
definition heed_records :: nat where "heed_records = 64 * 1024 * 1024"
definition progress_records :: nat where "progress_records = 100000"

definition wa_sqlite_config :: sqlite_config where
  "wa_sqlite_config = \<lparr>sc_expected_records = standard_records, sc_progress_every = Some progress_records,
     sc_point_query = False, sc_range_query = True, sc_wal_maintenance = True\<rparr>"

definition wa_redb_config :: redb_config where
  "wa_redb_config = \<lparr>rc_expected_records = standard_records, rc_point_query_step = progress_records,
     rc_progress_every = Some progress_records\<rparr>"

definition wa_heed_config :: heed_config where
  "wa_heed_config = \<lparr>hc_expected_records = heed_records, hc_point_query_step = progress_records,
     hc_progress_every = Some progress_records, hc_force_sync = True\<rparr>"

definition execute_database_benchmark ::
  "'s engines \<Rightarrow> database_benchmark \<Rightarrow> (rstr \<Rightarrow> ('s, unit) reporting) \<Rightarrow> ('s, unit) reporting" where
  "execute_database_benchmark eng b rep =
     job_bind (on_world (job_map_err (\<lambda>err. ''creating a temporary database benchmark directory failed: '' @ err) (temp_dir eng))) (\<lambda>_.
     case b of
       Sqlite \<Rightarrow> run_sqlite eng wa_sqlite_config rep
     | Redb \<Rightarrow> run_redb eng wa_redb_config rep
     | Heed \<Rightarrow> run_heed eng wa_heed_config rep)"

text \<open>What happens while the permit is held.\<close>

definition benchmark_session :: "crate_ops \<Rightarrow> 's conversation \<Rightarrow> 's engines \<Rightarrow> database_benchmark \<Rightarrow> ('s, unit) reporting" where
  "benchmark_session crate cv eng b w =
     (case execute_database_benchmark eng b (report crate cv b) w of
        (Inr _, w1) \<Rightarrow> finish_success crate cv b w1
      | (Inl err, w1) \<Rightarrow>
          (case finish_failure crate cv b err w1 of
             (Inl report_error, w2) \<Rightarrow>
               (Inl (label b @ '' benchmark failed: '' @ err @ ''; reporting the failure to WhatsApp also failed: '' @ report_error), w2)
           | (Inr _, w2) \<Rightarrow> (Inl (label b @ '' benchmark failed: '' @ err), w2)))"

definition busy_message :: rstr where
  "busy_message = ''Another database benchmark is already running. Please wait for its final result.''"

text \<open>\<open>permit\<close> says whether \<open>try_acquire\<close> got the one permit.\<close>

definition run_database_benchmark ::
  "crate_ops \<Rightarrow> 's conversation \<Rightarrow> 's engines \<Rightarrow> bool \<Rightarrow> database_benchmark \<Rightarrow> (rstr, 's, unit) job" where
  "run_database_benchmark crate cv eng permit b s =
     (if \<not> permit then send_database_benchmark_reply crate cv b busy_message s
      else case benchmark_session crate cv eng b (progress_default, s) of (r, (_, s')) \<Rightarrow> (r, s'))"

section \<open>Carrying out an action\<close>

definition reply_each :: "crate_ops \<Rightarrow> 's conversation \<Rightarrow> draft list \<Rightarrow> (rstr, 's, unit) job" where
  "reply_each crate cv drafts =
     job_iter (\<lambda>(index, d) _.
         job_bind (job_lift (validate_demo_draft (crate_footer crate) d)) (\<lambda>_.
         job_map_err (\<lambda>err. ''sending embedded media reply '' @ show_nat (index + 1) @ '' failed: '' @ err) (reply_with cv d)))
       (List.enumerate 0 drafts) ()"

definition execute_demo_action ::
  "crate_ops \<Rightarrow> 's conversation \<Rightarrow> 's engines \<Rightarrow> bool \<Rightarrow> (rstr, demo_action) result \<Rightarrow> (rstr, 's, unit) job" where
  "execute_demo_action crate cv eng permit action =
     job_bind (job_lift action) (\<lambda>a.
     case a of
       Reply d \<Rightarrow>
         job_bind (job_lift (validate_demo_draft (crate_footer crate) d)) (\<lambda>_.
         job_map_err (\<lambda>err. ''sending reply failed: '' @ err) (reply_with cv d))
     | Replies drafts \<Rightarrow> reply_each crate cv drafts
     | SwipeReply d \<Rightarrow>
         job_bind (job_lift (validate_demo_draft (crate_footer crate) d)) (\<lambda>_.
         job_map_err (\<lambda>err. ''sending quoted reply failed: '' @ err) (swipe_reply cv d))
     | ReactWith emoji \<Rightarrow> job_map_err (\<lambda>err. ''sending reaction failed: '' @ err) (react_with cv emoji)
     | DatabaseBenchmark b \<Rightarrow> run_database_benchmark crate cv eng permit b)"

text \<open>\<open>handle_message\<close>: every error is printed and dropped.\<close>

definition handle_message :: "crate_ops \<Rightarrow> 's conversation \<Rightarrow> 's engines \<Rightarrow> bool \<Rightarrow> wa_message \<Rightarrow> 's \<Rightarrow> 's" where
  "handle_message crate cv eng permit m s =
     (let s = job_ignore (set_read cv) s;
          s = job_ignore (set_replying cv) s
      in job_ignore (execute_demo_action crate cv eng permit (response_for (crate_mime crate) m)) s)"

end
