(* ===== verification/WhatsappPacing.thy ===== *)
theory WhatsappPacing
  imports WhatsappDemo
begin

text \<open>
  What the benchmark reporter of the WhatsApp example guarantees: how far apart its messages
  are and that the latest progress is what the user sees last. \<open>logged_conversation\<close> is the conversation
  with every reply that was sent written down, with the times it began and ended. A reply that
  failed is not in that log: the reporter does not count it, and may send again at once.
\<close>

section \<open>Time and the log\<close>

record sent_reply =
  sr_began :: nat
  sr_ended :: nat
  sr_draft :: draft

type_synonym 's logged = "sent_reply list \<times> 's"

definition aside :: "(rstr, 's, unit) job \<Rightarrow> (rstr, 's logged, unit) job" where
  "aside j w = (case w of (tr, s) \<Rightarrow> case j s of (r, s') \<Rightarrow> (r, (tr, s')))"

definition logged_reply :: "('s \<Rightarrow> nat) \<Rightarrow> 's conversation \<Rightarrow> draft \<Rightarrow> (rstr, 's logged, unit) job" where
  "logged_reply time cv d w =
     (case w of (tr, s) \<Rightarrow>
        (case reply_with cv d s of
           (Inl e, s') \<Rightarrow> (Inl e, (tr, s'))
         | (Inr x, s') \<Rightarrow> (Inr x, (tr @ [\<lparr>sr_began = time s, sr_ended = time s', sr_draft = d\<rparr>], s'))))"

definition logged_conversation :: "('s \<Rightarrow> nat) \<Rightarrow> 's conversation \<Rightarrow> 's logged conversation" where
  "logged_conversation time cv =
     \<lparr>set_read = aside (set_read cv), set_replying = aside (set_replying cv), reply_with = logged_reply time cv,
      swipe_reply = (\<lambda>d. aside (swipe_reply cv d)), react_with = (\<lambda>e. aside (react_with cv e)),
      instant_now = (\<lambda>(tr, s). case instant_now cv s of (now, s') \<Rightarrow> (now, (tr, s'))),
      sleep_for = (\<lambda>d (tr, s). (tr, sleep_for cv d s))\<rparr>"

text \<open>Clocks do not go backwards, a sleep lasts at least as long as asked, a reply takes time.\<close>

definition clock_laws :: "('s \<Rightarrow> nat) \<Rightarrow> 's conversation \<Rightarrow> bool" where
  "clock_laws time cv \<longleftrightarrow>
     (\<forall>s. time s \<le> fst (instant_now cv s) \<and> fst (instant_now cv s) \<le> time (snd (instant_now cv s))) \<and>
     (\<forall>d s. time s + d \<le> time (sleep_for cv d s)) \<and>
     (\<forall>d s. time s \<le> time (snd (reply_with cv d s)))"

text \<open>A benchmark uses the reporter only to report, and otherwise lets time pass.\<close>

definition lets_time_pass :: "('s \<Rightarrow> nat) \<Rightarrow> (progress_state \<times> 's logged \<Rightarrow> bool) \<Rightarrow> bool" where
  "lets_time_pass time P \<longleftrightarrow>
     (\<forall>st tr s s'. P (st, tr, s) \<longrightarrow> time s \<le> time s' \<longrightarrow> P (st, tr, s'))"

definition only_reports ::
  "('s \<Rightarrow> nat) \<Rightarrow> ((rstr \<Rightarrow> ('s logged, unit) reporting) \<Rightarrow> ('s logged, unit) reporting) \<Rightarrow> bool" where
  "only_reports time run \<longleftrightarrow>
     (\<forall>P rep. lets_time_pass time P \<longrightarrow> (\<forall>m. keeps P (rep m)) \<longrightarrow> keeps P (run rep))"

definition good_engines :: "('s \<Rightarrow> nat) \<Rightarrow> 's logged engines \<Rightarrow> bool" where
  "good_engines time eng \<longleftrightarrow>
     (\<forall>tr s. fst (snd (temp_dir eng (tr, s))) = tr \<and> time s \<le> time (snd (snd (temp_dir eng (tr, s))))) \<and>
     (\<forall>c. only_reports time (run_sqlite eng c)) \<and> (\<forall>c. only_reports time (run_redb eng c)) \<and>
     (\<forall>c. only_reports time (run_heed eng c))"

section \<open>The invariant of the reporter\<close>

definition spaced :: "sent_reply list \<Rightarrow> bool" where
  "spaced tr \<longleftrightarrow> sorted_wrt (\<lambda>a b. sr_ended a + pair_send_interval \<le> sr_began b) tr"

definition sent_last :: "database_benchmark \<Rightarrow> progress_state \<Rightarrow> sent_reply \<Rightarrow> nat \<Rightarrow> bool" where
  "sent_last b st r now \<longleftrightarrow>
     (case (bp_last_sent_at st, bp_last_sent st) of
        (Some t, Some m) \<Rightarrow> sr_ended r \<le> t \<and> t \<le> now \<and> sr_draft r = benchmark_draft b m
      | _ \<Rightarrow> False)"

definition reporter_inv :: "('s \<Rightarrow> nat) \<Rightarrow> database_benchmark \<Rightarrow> progress_state \<times> 's logged \<Rightarrow> bool" where
  "reporter_inv time b w \<longleftrightarrow>
     (case w of (st, tr, s) \<Rightarrow>
        spaced tr \<and> list_all (\<lambda>r. sr_began r \<le> sr_ended r) tr \<and>
        (tr = [] \<longrightarrow> bp_last_sent st = None \<and> bp_last_sent_at st = None) \<and>
        (tr \<noteq> [] \<longrightarrow> sent_last b st (last tr) (time s)))"

lemma sent_last_later: "sent_last b st r t \<Longrightarrow> t \<le> t' \<Longrightarrow> sent_last b st r t'"
  by (auto simp: sent_last_def split: option.splits)

lemma reporter_inv_later: "reporter_inv time b (st, tr, s) \<Longrightarrow> time s \<le> time s' \<Longrightarrow> reporter_inv time b (st, tr, s')"
  using sent_last_later [of b st "last tr" "time s" "time s'"] by (auto simp: reporter_inv_def)

lemma reporter_inv_time: "lets_time_pass time (reporter_inv time b)"
  unfolding lets_time_pass_def by (intro allI impI) (rule reporter_inv_later)

lemma spaced_snoc:
  assumes "spaced tr" "list_all (\<lambda>r. sr_began r \<le> sr_ended r) tr"
    and "tr \<noteq> [] \<Longrightarrow> sr_ended (last tr) + pair_send_interval \<le> sr_began r"
  shows "spaced (tr @ [r])"
proof (cases tr rule: rev_cases)
  case (snoc tr' l)
  have "sr_ended x + pair_send_interval \<le> sr_began r" if "x \<in> set tr" for x
  proof (cases "x = l")
    case False
    with snoc that assms(1) have "sr_ended x + pair_send_interval \<le> sr_began l"
      by (auto simp: spaced_def sorted_wrt_append)
    moreover have "sr_began l \<le> sr_ended l" using snoc assms(2) by simp
    ultimately show ?thesis using assms(3) snoc by simp
  qed (use assms(3) snoc in simp)
  with assms(1) show ?thesis by (auto simp: spaced_def sorted_wrt_append)
qed (simp add: spaced_def)

text \<open>\<open>send_locked\<close>, with its calls put one after the other.\<close>

definition wait_to_send :: "'s conversation \<Rightarrow> progress_state \<Rightarrow> 's \<Rightarrow> 's" where
  "wait_to_send cv st s =
     (case instant_now cv s of (now, s1) \<Rightarrow>
        let delay = pair_send_delay now st in if delay = 0 then s1 else sleep_for cv delay s1)"

lemma wait_to_send_late:
  assumes "clock_laws time cv"
  shows "time s \<le> time (wait_to_send cv st s)"
    and "bp_last_sent_at st = Some t \<Longrightarrow> t \<le> time s \<Longrightarrow> t + pair_send_interval \<le> time (wait_to_send cv st s)"
proof -
  obtain now s1 where n: "instant_now cv s = (now, s1)" by (cases "instant_now cv s")
  let ?d = "pair_send_delay now st"
  have c: "time s \<le> now" "now \<le> time s1" and sl: "time s1 + ?d \<le> time (sleep_for cv ?d s1)"
    using assms n unfolding clock_laws_def by (metis fst_conv snd_conv)+
  have w: "wait_to_send cv st s = (if ?d = 0 then s1 else sleep_for cv ?d s1)"
    by (simp add: wait_to_send_def n Let_def)
  show "time s \<le> time (wait_to_send cv st s)" using c sl by (simp add: w)
  show "t + pair_send_interval \<le> time (wait_to_send cv st s)" if "bp_last_sent_at st = Some t" "t \<le> time s"
    using that c sl by (auto simp: w pair_send_delay_def)
qed

lemma send_locked_eq:
  "send_locked crate (logged_conversation time cv) b m (st, tr, s) =
     (let s2 = wait_to_send cv st s in
      case validate_demo_draft (crate_footer crate) (benchmark_draft b m) of
        Inl e \<Rightarrow> (Inl e, (st, tr, s2))
      | Inr _ \<Rightarrow>
          (case reply_with cv (benchmark_draft b m) s2 of
             (Inl e, s3) \<Rightarrow> (Inl (''sending '' @ label b @ '' benchmark progress failed: '' @ e), (st, tr, s3))
           | (Inr _, s3) \<Rightarrow>
               (case instant_now cv s3 of (now, s4) \<Rightarrow>
                  (Inr (), (record_sent now m st,
                     tr @ [\<lparr>sr_began = time s2, sr_ended = time s3, sr_draft = benchmark_draft b m\<rparr>], s4)))))"
  by (auto simp: send_locked_def send_database_benchmark_reply_def logged_conversation_def logged_reply_def read_clock_def on_state_def
      on_world_def job_bind_def job_lift_def job_map_err_def job_return_def map_err_def wait_to_send_def Let_def
      split: prod.splits sum.splits)

lemma read_clock_logging [simp]:
  "read_clock (logged_conversation time cv) (st, tr, s) = (case instant_now cv s of (now, s') \<Rightarrow> (Inr now, (st, tr, s')))"
  by (simp add: read_clock_def logged_conversation_def split: prod.splits)

lemma send_locked_keeps:
  assumes "clock_laws time cv"
  shows "keeps (reporter_inv time b) (send_locked crate (logged_conversation time cv) b m)"
  unfolding keeps_def
proof (intro allI impI)
  fix w :: "progress_state \<times> 'a logged"
  assume inv: "reporter_inv time b w"
  obtain st tr s where w: "w = (st, tr, s)" by (cases w)
  let ?d = "benchmark_draft b m"
  define s2 where "s2 = wait_to_send cv st s"
  have later: "time s \<le> time s2" using wait_to_send_late(1) [OF assms] by (simp add: s2_def)
  have inv2: "reporter_inv time b (st, tr, s2)"
    by (rule reporter_inv_later [OF inv [unfolded w] later])
  note eq = send_locked_eq [of crate time cv b m st tr s, folded s2_def]
  show "reporter_inv time b (snd (send_locked crate (logged_conversation time cv) b m w))"
  proof (cases "validate_demo_draft (crate_footer crate) ?d")
    case (Inl e)
    then show ?thesis using inv2 by (simp add: w eq)
  next
    case (Inr u)
    obtain r s3 where r: "reply_with cv ?d s2 = (r, s3)" by (cases "reply_with cv ?d s2")
    then have t3: "time s2 \<le> time s3" using assms unfolding clock_laws_def by (metis snd_conv)
    have inv3: "reporter_inv time b (st, tr, s3)"
      by (rule reporter_inv_later [OF inv2 t3])
    show ?thesis
    proof (cases r)
      case (Inl e)
      then show ?thesis using inv3 by (simp add: w eq Inr r)
    next
      case ok: (Inr u)
      obtain now s4 where n: "instant_now cv s3 = (now, s4)" by (cases "instant_now cv s3")
      then have t4: "time s3 \<le> now" "now \<le> time s4" using assms unfolding clock_laws_def by (metis fst_conv snd_conv)+
      let ?r = "\<lparr>sr_began = time s2, sr_ended = time s3, sr_draft = ?d\<rparr>"
      from inv have parts: "spaced tr" "list_all (\<lambda>r. sr_began r \<le> sr_ended r) tr" by (simp_all add: w reporter_inv_def)
      have "spaced (tr @ [?r])"
      proof (rule spaced_snoc [OF parts])
        assume "tr \<noteq> []"
        with inv obtain t where "bp_last_sent_at st = Some t" "sr_ended (last tr) \<le> t" "t \<le> time s"
          by (auto simp: w reporter_inv_def sent_last_def split: option.splits)
        with wait_to_send_late(2) [OF assms, of st t s] show "sr_ended (last tr) + pair_send_interval \<le> sr_began ?r"
          by (simp add: s2_def)
      qed
      with parts t3 t4 show ?thesis
        by (simp add: w eq Inr r ok n reporter_inv_def record_sent_def sent_last_def)
    qed
  qed
qed

lemma keeps_onto_state:
  assumes "\<And>st. bp_last_sent (snd (f st)) = bp_last_sent st \<and> bp_last_sent_at (snd (f st)) = bp_last_sent_at st"
  shows "keeps (reporter_inv time b) (on_state f)"
  unfolding keeps_def
proof (intro allI impI)
  fix w :: "progress_state \<times> 'b logged"
  assume inv: "reporter_inv time b w"
  obtain st tr s where w: "w = (st, tr, s)" by (cases w)
  obtain x st' where f: "f st = (x, st')" by (cases "f st")
  with assms [of st] have same: "bp_last_sent st' = bp_last_sent st" "bp_last_sent_at st' = bp_last_sent_at st" by simp_all
  then have "sent_last b st' r t = sent_last b st r t" for r t by (simp add: sent_last_def split: option.split)
  with inv same show "reporter_inv time b (snd (on_state f w))"
    by (simp add: w on_state_def f reporter_inv_def)
qed

lemma report_keeps:
  assumes "clock_laws time cv"
  shows "keeps (reporter_inv time b) (report crate (logged_conversation time cv) b m)"
proof -
  have clock: "keeps (reporter_inv time b) (read_clock (logged_conversation time cv))"
    unfolding keeps_def
  proof (intro allI impI)
    fix w :: "progress_state \<times> 'a logged"
    assume inv: "reporter_inv time b w"
    obtain st tr s where w: "w = (st, tr, s)" by (cases w)
    have "time s \<le> time (snd (instant_now cv s))"
      using assms unfolding clock_laws_def by (meson order_trans)
    with inv show "reporter_inv time b (snd (read_clock (logged_conversation time cv) w))"
      unfolding w by (auto simp: read_clock_def logged_conversation_def split: prod.splits intro: reporter_inv_later)
  qed
  show ?thesis
    unfolding report_def
    by (intro keeps_bind keeps_if keeps_return clock keeps_onto_state send_locked_keeps [OF assms])
      (simp_all add: observe_def record_sampled_def)
qed

lemma finish_keeps:
  assumes "clock_laws time cv"
  shows "keeps (reporter_inv time b) (finish_success crate (logged_conversation time cv) b)"
    and "keeps (reporter_inv time b) (finish_failure crate (logged_conversation time cv) b err)"
proof -
  have "keeps (reporter_inv time b) (case m of None \<Rightarrow> job_return () | Some msg \<Rightarrow> send_locked crate (logged_conversation time cv) b msg)" for m
    by (cases m) (simp_all add: send_locked_keeps [OF assms])
  then show "keeps (reporter_inv time b) (finish_success crate (logged_conversation time cv) b)"
    unfolding finish_success_def by (intro keeps_bind keeps_onto_state) simp_all
  show "keeps (reporter_inv time b) (finish_failure crate (logged_conversation time cv) b err)"
    unfolding finish_failure_def by (intro keeps_bind keeps_onto_state send_locked_keeps [OF assms]) simp
qed

lemma execute_keeps:
  assumes "clock_laws time cv" "good_engines time eng"
  shows "keeps (reporter_inv time b) (execute_database_benchmark eng b' (report crate (logged_conversation time cv) b))"
proof -
  have dir: "keeps (reporter_inv time b) (on_world (job_map_err f (temp_dir eng)))" for f
    unfolding keeps_def
  proof (intro allI impI)
    fix w :: "progress_state \<times> 'a logged"
    assume inv: "reporter_inv time b w"
    obtain st tr s where w: "w = (st, tr, s)" by (cases w)
    obtain r tr' s' where d: "temp_dir eng (tr, s) = (r, tr', s')" by (cases "temp_dir eng (tr, s)")
    with assms(2) have "tr' = tr" "time s \<le> time s'" unfolding good_engines_def by (metis fst_conv snd_conv)+
    with inv d show "reporter_inv time b (snd (on_world (job_map_err f (temp_dir eng)) w))"
      by (simp add: w on_world_def job_map_err_def reporter_inv_later)
  qed
  have run: "keeps (reporter_inv time b) (run (report crate (logged_conversation time cv) b))" if "only_reports time run" for run
    using that report_keeps [OF assms(1)] reporter_inv_time unfolding only_reports_def by blast
  show ?thesis
    unfolding execute_database_benchmark_def
    by (intro keeps_bind dir) (use assms(2) in \<open>cases b'; simp add: good_engines_def run\<close>)
qed

lemma session_keeps:
  assumes "clock_laws time cv" "good_engines time eng" "reporter_inv time b w"
  shows "reporter_inv time b (snd (benchmark_session crate (logged_conversation time cv) eng b w))"
proof -
  obtain r w1 where x: "execute_database_benchmark eng b (report crate (logged_conversation time cv) b) w = (r, w1)"
    by (cases "execute_database_benchmark eng b (report crate (logged_conversation time cv) b) w")
  from keepsD [OF execute_keeps [OF assms(1,2)] assms(3)] x have w1: "reporter_inv time b w1" by (metis snd_conv)
  show ?thesis
  proof (cases r)
    case (Inl err)
    have "reporter_inv time b (snd (finish_failure crate (logged_conversation time cv) b err w1))"
      by (rule keepsD [OF finish_keeps(2) [OF assms(1)] w1])
    with Inl x show ?thesis
      by (auto simp: benchmark_session_def split: prod.splits sum.splits)
  next
    case (Inr u)
    with keepsD [OF finish_keeps(1) [OF assms(1)] w1] x show ?thesis by (simp add: benchmark_session_def)
  qed
qed

lemma fresh_inv: "reporter_inv time b (progress_default, [], s)"
  by (simp add: reporter_inv_def spaced_def progress_default_def)

text \<open>C18: The reporter respects the platform's rate for one recipient: however a benchmark reports and
  however it ends, each message begins at least six seconds after the one before it was sent.\<close>

theorem sends_are_paced:
  assumes "clock_laws time cv" "good_engines time eng"
    and "benchmark_session crate (logged_conversation time cv) eng b (progress_default, [], s) = (r, st, tr, s')"
  shows "sorted_wrt (\<lambda>x y. sr_ended x + 6000 \<le> sr_began y) tr"
  using session_keeps [OF assms(1,2) fresh_inv, of b crate s] assms(3)
  by (simp add: reporter_inv_def spaced_def pair_send_interval_def)

section \<open>What was reported\<close>

text \<open>
  To say what a benchmark has reported, its reporter is overheard: every message given to it
  is put at the end of a list, kept beside the world, before the reporter sees it.
\<close>

type_synonym 's overhearing = "rstr list \<times> 's"

definition beside :: "(rstr, 's, 'a) job \<Rightarrow> (rstr, 's overhearing, 'a) job" where
  "beside j w = (case w of (told, s) \<Rightarrow> case j s of (r, s') \<Rightarrow> (r, (told, s')))"

definition overheard :: "'s conversation \<Rightarrow> 's overhearing conversation" where
  "overheard cv =
     \<lparr>set_read = beside (set_read cv), set_replying = beside (set_replying cv),
      reply_with = (\<lambda>d. beside (reply_with cv d)), swipe_reply = (\<lambda>d. beside (swipe_reply cv d)),
      react_with = (\<lambda>e. beside (react_with cv e)),
      instant_now = (\<lambda>(told, s). case instant_now cv s of (now, s') \<Rightarrow> (now, (told, s'))),
      sleep_for = (\<lambda>d (told, s). (told, sleep_for cv d s))\<rparr>"

definition note_told :: "rstr \<Rightarrow> ('s overhearing logged, unit) reporting" where
  "note_told m w = (case w of (st, tr, told, s) \<Rightarrow> (Inr (), (st, tr, told @ [m], s)))"

definition noted ::
  "(rstr \<Rightarrow> ('s overhearing logged, unit) reporting) \<Rightarrow> rstr \<Rightarrow> ('s overhearing logged, unit) reporting" where
  "noted rep m = job_bind (note_told m) (\<lambda>_. rep m)"

definition overhear :: "'s overhearing logged engines \<Rightarrow> 's overhearing logged engines" where
  "overhear eng =
     \<lparr>temp_dir = temp_dir eng, run_sqlite = (\<lambda>c rep. run_sqlite eng c (noted rep)),
      run_redb = (\<lambda>c rep. run_redb eng c (noted rep)), run_heed = (\<lambda>c rep. run_heed eng c (noted rep))\<rparr>"

text \<open>Engines that leave the list and the log alone, but for what they report.\<close>

definition world_blind :: "(progress_state \<times> 's overhearing logged \<Rightarrow> bool) \<Rightarrow> bool" where
  "world_blind P \<longleftrightarrow> (\<forall>st tr told s s'. P (st, tr, told, s) \<longrightarrow> P (st, tr, told, s'))"

definition quiet_run ::
  "((rstr \<Rightarrow> ('s overhearing logged, unit) reporting) \<Rightarrow> ('s overhearing logged, unit) reporting) \<Rightarrow> bool" where
  "quiet_run run \<longleftrightarrow> (\<forall>P rep. world_blind P \<longrightarrow> (\<forall>m. keeps P (rep m)) \<longrightarrow> keeps P (run rep))"

definition quiet_engines :: "'s overhearing logged engines \<Rightarrow> bool" where
  "quiet_engines eng \<longleftrightarrow>
     (\<forall>tr told s. fst (snd (temp_dir eng (tr, told, s))) = tr \<and> fst (snd (snd (temp_dir eng (tr, told, s)))) = told) \<and>
     (\<forall>c. quiet_run (run_sqlite eng c)) \<and> (\<forall>c. quiet_run (run_redb eng c)) \<and> (\<forall>c. quiet_run (run_heed eng c))"

text \<open>The messages sent are some of those reported, in order, and the reporter knows the last of both.\<close>

definition told_inv :: "database_benchmark \<Rightarrow> progress_state \<times> 's overhearing logged \<Rightarrow> bool" where
  "told_inv b w \<longleftrightarrow>
     (case w of (st, tr, told, s) \<Rightarrow>
        bp_latest st = (if told = [] then None else Some (last told)) \<and>
        (\<exists>ms. map sr_draft tr = map (benchmark_draft b) ms \<and> subseq ms told \<and>
           bp_last_sent st = (if ms = [] then None else Some (last ms))))"

lemma told_inv_blind: "world_blind (told_inv b)"
  by (simp add: world_blind_def told_inv_def)

lemma wait_to_send_overheard [simp]:
  "wait_to_send (overheard cv) st (told, s) = (told, wait_to_send cv st s)"
  by (simp add: wait_to_send_def overheard_def Let_def split: prod.split)

lemma send_locked_told:
  obtains r st' tr' s' where
    "send_locked crate (logged_conversation time (overheard cv)) b m (st, tr, told, s) = (r, st', tr', told, s')"
    "(\<exists>e. r = Inl e) \<and> st' = st \<and> tr' = tr \<or>
     r = Inr () \<and> bp_latest st' = bp_latest st \<and> bp_last_sent st' = Some m \<and>
       (\<exists>x. tr' = tr @ [x] \<and> sr_draft x = benchmark_draft b m)"
proof -
  let ?d = "benchmark_draft b m" and ?s2 = "wait_to_send cv st s"
  obtain r s3 where r: "reply_with cv ?d ?s2 = (r, s3)" by (cases "reply_with cv ?d ?s2")
  obtain now s4 where n: "instant_now cv s3 = (now, s4)" by (cases "instant_now cv s3")
  have cv: "reply_with (overheard cv) ?d (told, ?s2) = (r, (told, s3))"
    "instant_now (overheard cv) (told, s3) = (now, (told, s4))"
    by (simp_all add: overheard_def beside_def r n)
  note eq = send_locked_eq [of crate time "overheard cv" b m st tr "(told, s)", simplified wait_to_send_overheard cv Let_def prod.case]
  show ?thesis
  proof (cases "validate_demo_draft (crate_footer crate) ?d")
    case (Inl e)
    then show ?thesis by (intro that [of "Inl e" st tr ?s2]) (simp_all add: eq)
  next
    case (Inr u)
    show ?thesis
    proof (cases r)
      case (Inl e)
      with Inr show ?thesis
        by (intro that [of "Inl (''sending '' @ label b @ '' benchmark progress failed: '' @ e)" st tr s3]) (simp_all add: eq)
    next
      case ok: (Inr v)
      let ?x = "\<lparr>sr_began = time (told, ?s2), sr_ended = time (told, s3), sr_draft = ?d\<rparr>"
      show ?thesis
        using Inr ok by (intro that [of "Inr ()" "record_sent now m st" "tr @ [?x]" s4]) (simp_all add: eq cv record_sent_def)
    qed
  qed
qed

lemma subseq_snoc_other:
  assumes "subseq ms (told @ [m])" "ms = [] \<or> last ms \<noteq> m"
  shows "subseq ms told"
proof -
  obtain us vs where v: "ms = us @ vs" "subseq us told" "subseq vs [m]"
    using assms(1) by (rule subseq_appendE)
  from v(3) have "vs = [] \<or> vs = [m]" by (cases vs) (auto simp: subseq_Cons2_iff split: if_splits)
  with v assms(2) show ?thesis by auto
qed

text \<open>One report: the message goes on the list, and the reporter sends it or remembers it.\<close>

lemma report_told:
  assumes inv: "told_inv b w"
  shows "told_inv b (snd (noted (report crate (logged_conversation time (overheard cv)) b) m w))"
proof -
  let ?cv = "logged_conversation time (overheard cv)"
  obtain st tr told s where w: "w = (st, tr, told, s)" by (cases w) auto
  obtain ms where ms: "map sr_draft tr = map (benchmark_draft b) ms" "subseq ms told"
    "bp_last_sent st = (if ms = [] then None else Some (last ms))"
    using inv by (auto simp: told_inv_def w)
  obtain now s1 where n1: "instant_now cv s = (now, s1)" by (cases "instant_now cv s")
  obtain now' s2 where n2: "instant_now cv s1 = (now', s2)" by (cases "instant_now cv s1")
  obtain due st1 where o: "observe now m st = (due, st1)" by (cases "observe now m st")
  then have st1: "bp_latest st1 = Some m" "bp_last_sent st1 = bp_last_sent st" by (auto simp: observe_def)
  let ?st2 = "record_sampled now' st1"
  have st2: "bp_latest ?st2 = Some m" "bp_last_sent ?st2 = bp_last_sent st"
    using st1 by (simp_all add: record_sampled_def)
  have now: "instant_now (overheard cv) (told', s) = (now, (told', s1))"
    "instant_now (overheard cv) (told', s1) = (now', (told', s2))" for told'
    by (simp_all add: overheard_def n1 n2)
  have eq: "noted (report crate ?cv b) m w =
      (if due then send_locked crate ?cv b m (?st2, tr, told @ [m], s2) else (Inr (), (st1, tr, told @ [m], s1)))"
    by (simp add: w noted_def note_told_def report_def job_bind_def now on_state_def o job_return_def)
  have sub: "subseq ms (told @ [m])" using ms(2) by (rule subseq_rev_drop_many)
  show ?thesis
  proof (cases due)
    case False
    with ms sub st1 show ?thesis by (auto simp: eq told_inv_def)
  next
    case True
    obtain r st' tr' s' where sl: "send_locked crate ?cv b m (?st2, tr, told @ [m], s2) = (r, st', tr', told @ [m], s')"
      and cases: "(\<exists>e. r = Inl e) \<and> st' = ?st2 \<and> tr' = tr \<or>
        r = Inr () \<and> bp_latest st' = bp_latest ?st2 \<and> bp_last_sent st' = Some m \<and>
          (\<exists>x. tr' = tr @ [x] \<and> sr_draft x = benchmark_draft b m)"
      by (rule send_locked_told)
    from cases show ?thesis
    proof
      assume "(\<exists>e. r = Inl e) \<and> st' = ?st2 \<and> tr' = tr"
      with ms sub st2 True sl show ?thesis by (auto simp: eq told_inv_def)
    next
      assume "r = Inr () \<and> bp_latest st' = bp_latest ?st2 \<and> bp_last_sent st' = Some m \<and>
          (\<exists>x. tr' = tr @ [x] \<and> sr_draft x = benchmark_draft b m)"
      moreover have "subseq (ms @ [m]) (told @ [m])" using ms(2) by (simp add: list_emb_append_mono)
      ultimately show ?thesis
        using ms(1) st2 True sl by (auto simp: eq told_inv_def intro!: exI [of _ "ms @ [m]"])
    qed
  qed
qed

lemma execute_told:
  assumes "quiet_engines eng"
  shows "keeps (told_inv b) (execute_database_benchmark (overhear eng) b' (report crate (logged_conversation time (overheard cv)) b))"
proof -
  let ?rep = "report crate (logged_conversation time (overheard cv)) b"
  have dir: "keeps (told_inv b) (on_world (job_map_err f (temp_dir eng)))" for f
    unfolding keeps_def
  proof (intro allI impI)
    fix w :: "progress_state \<times> 'a overhearing logged"
    assume inv: "told_inv b w"
    obtain st tr told s where w: "w = (st, tr, told, s)" by (cases w) auto
    obtain r tr' told' s' where d: "temp_dir eng (tr, told, s) = (r, tr', told', s')"
      by (cases "temp_dir eng (tr, told, s)") auto
    with assms have "tr' = tr" "told' = told" unfolding quiet_engines_def by (metis fst_conv snd_conv)+
    with inv d show "told_inv b (snd (on_world (job_map_err f (temp_dir eng)) w))"
      by (simp add: w on_world_def job_map_err_def told_inv_def)
  qed
  have "\<forall>m. keeps (told_inv b) (noted ?rep m)"
    unfolding keeps_def using report_told by blast
  then have run: "keeps (told_inv b) (run (noted ?rep))" if "quiet_run run" for run
    using that told_inv_blind unfolding quiet_run_def by blast
  show ?thesis
    unfolding execute_database_benchmark_def
    by (intro keeps_bind) (use assms dir in \<open>cases b'; simp add: overhear_def quiet_engines_def run\<close>)+
qed

text \<open>Finishing: what is on the list but was not sent last is sent now.\<close>

lemma finish_told:
  assumes inv: "told_inv b w"
    and fin: "finish_success crate (logged_conversation time (overheard cv)) b w = (Inr (), st', tr', told', s')"
  shows "\<exists>ms. map sr_draft tr' = map (benchmark_draft b) ms \<and> subseq ms told' \<and>
    (told' \<noteq> [] \<longrightarrow> ms \<noteq> [] \<and> last ms = last told')"
proof -
  let ?cv = "logged_conversation time (overheard cv)"
  obtain st tr told s where w: "w = (st, tr, told, s)" by (cases w) auto
  obtain ms where ms: "map sr_draft tr = map (benchmark_draft b) ms" "subseq ms told"
    "bp_last_sent st = (if ms = [] then None else Some (last ms))"
    and latest: "bp_latest st = (if told = [] then None else Some (last told))"
    using inv by (auto simp: told_inv_def w)
  show ?thesis
  proof (cases "latest_unsent st")
    case None
    with fin have "tr' = tr" "told' = told"
      by (simp_all add: w finish_success_def on_state_def job_bind_def job_return_def)
    with None ms latest show ?thesis
      by (intro exI [of _ ms]) (auto simp: latest_unsent_def split: if_splits)
  next
    case (Some m)
    then have m: "told \<noteq> []" "m = last told" "ms = [] \<or> last ms \<noteq> m"
      using latest ms(3) by (auto simp: latest_unsent_def split: if_splits)
    from m obtain told0 where t: "told = told0 @ [m]" by (metis append_butlast_last_id)
    have "subseq ms (told0 @ [m])" using ms(2) unfolding t .
    then have "subseq ms told0" using m(3) by (rule subseq_snoc_other)
    then have sub: "subseq (ms @ [m]) told" by (simp add: t list_emb_append_mono)
    from fin Some have "send_locked crate ?cv b m (st, tr, told, s) = (Inr (), st', tr', told', s')"
      by (simp add: w finish_success_def on_state_def job_bind_def)
    then obtain x where "tr' = tr @ [x]" "sr_draft x = benchmark_draft b m" "told' = told"
      using send_locked_told [of crate time cv b m st tr told s] by force
    with ms(1) sub m(2) show ?thesis by (intro exI [of _ "ms @ [m]"]) simp
  qed
qed

text \<open>C19: A benchmark that completes has told everything: whatever it reported, and in whatever time,
  the messages sent are some of those reported, in the order reported, and the last one sent
  is the last one reported.\<close>

theorem latest_progress_is_sent:
  assumes "quiet_engines eng"
    and "benchmark_session crate (logged_conversation time (overheard cv)) (overhear eng) b (progress_default, [], [], s) =
      (Inr (), st, tr, told, s')"
  shows "\<exists>ms. map sr_draft tr = map (benchmark_draft b) ms \<and> subseq ms told \<and>
    (told \<noteq> [] \<longrightarrow> ms \<noteq> [] \<and> last ms = last told)"
proof -
  let ?cv = "logged_conversation time (overheard cv)" and ?w = "(progress_default, [], [], s)"
  obtain r w1 where x: "execute_database_benchmark (overhear eng) b (report crate ?cv b) ?w = (r, w1)"
    by (cases "execute_database_benchmark (overhear eng) b (report crate ?cv b) ?w")
  have "told_inv b ?w" by (simp add: told_inv_def progress_default_def)
  from keepsD [OF execute_told [OF assms(1)] this] x have "told_inv b w1" by (metis snd_conv)
  moreover have "finish_success crate ?cv b w1 = (Inr (), st, tr, told, s')"
  proof (cases r)
    case (Inl e)
    obtain r2 w2 where f: "finish_failure crate ?cv b e w1 = (r2, w2)" by (cases "finish_failure crate ?cv b e w1")
    with assms(2) Inl show ?thesis
      unfolding benchmark_session_def x by (cases r2) simp_all
  next
    case (Inr u)
    with assms(2) show ?thesis unfolding benchmark_session_def x by simp
  qed
  ultimately show ?thesis by (rule finish_told)
qed

section \<open>A benchmark that reports twice\<close>

definition ticking :: "nat conversation" where
  "ticking = \<lparr>set_read = job_return (), set_replying = job_return (), reply_with = (\<lambda>_ s. (Inr (), s + 5)),
     swipe_reply = (\<lambda>_. job_return ()), react_with = (\<lambda>_. job_return ()), instant_now = (\<lambda>s. (s, s)), sleep_for = (\<lambda>d s. s + d)\<rparr>"

definition passing :: "nat \<Rightarrow> (nat logged, unit) reporting" where
  "passing d w = (case w of (st, tr, s) \<Rightarrow> (Inr (), (st, tr, s + d)))"

definition two_reports :: "(rstr \<Rightarrow> (nat logged, unit) reporting) \<Rightarrow> (nat logged, unit) reporting" where
  "two_reports rep = job_bind (rep ''half'') (\<lambda>_. job_bind (passing 100) (\<lambda>_. rep ''done''))"

definition ticking_engines :: "nat logged engines" where
  "ticking_engines = \<lparr>temp_dir = job_return (), run_sqlite = (\<lambda>_. two_reports), run_redb = (\<lambda>_. two_reports), run_heed = (\<lambda>_. two_reports)\<rparr>"

lemma ticking_laws: "clock_laws (\<lambda>s. s) ticking"
  by (simp add: clock_laws_def ticking_def)

lemma two_reports_good: "only_reports (\<lambda>s. s) two_reports"
  unfolding only_reports_def
proof (intro allI impI)
  fix P :: "progress_state \<times> nat logged \<Rightarrow> bool" and rep :: "rstr \<Rightarrow> (nat logged, unit) reporting"
  assume P: "lets_time_pass (\<lambda>s. s) P" and rep: "\<forall>m. keeps P (rep m)"
  from P have "keeps P (passing d)" for d
    by (auto simp: keeps_def passing_def lets_time_pass_def)
  with rep show "keeps P (two_reports rep)" unfolding two_reports_def by (intro keeps_bind) simp_all
qed

lemma ticking_engines_good: "good_engines (\<lambda>s. s) ticking_engines"
  by (simp add: good_engines_def ticking_engines_def job_return_def two_reports_good)

definition sample_crate :: crate_ops where
  "sample_crate = \<lparr>crate_footer = given_footer, crate_mime = Inr\<rparr>"

definition sample_log :: "sent_reply list" where
  "sample_log =
     [\<lparr>sr_began = 0, sr_ended = 5, sr_draft = benchmark_draft Redb ''half''\<rparr>,
      \<lparr>sr_began = 6005, sr_ended = 6010, sr_draft = benchmark_draft Redb ''done''\<rparr>]"

lemma benchmark_draft_valid: "validate_demo_draft given_footer (benchmark_draft b m) = Inr ()"
  by (simp add: validate_demo_draft_def given_footer_def is_interactive_def benchmark_draft_def then_call_def text_draft_def
      makes_interactive_def)

lemma sample_session:
  "benchmark_session sample_crate (logged_conversation (\<lambda>s. s) ticking) ticking_engines Redb (progress_default, [], 0) =
     (Inr (), \<lparr>bp_latest = Some ''done'', bp_last_sent = Some ''done'', bp_last_sampled_at = Some 0, bp_last_sent_at = Some 6010\<rparr>,
      sample_log, 6010)"
proof -
  let ?cv = "logged_conversation (\<lambda>s. s) ticking"
  let ?half = "\<lparr>bp_latest = Some ''half'', bp_last_sent = Some ''half'', bp_last_sampled_at = Some 0, bp_last_sent_at = Some 5\<rparr>"
  let ?first = "[\<lparr>sr_began = 0, sr_ended = 5, sr_draft = benchmark_draft Redb ''half''\<rparr>]"
  let ?done = "?half\<lparr>bp_latest := Some ''done''\<rparr>"
  have tick: "instant_now ticking s = (s, s)" "sleep_for ticking d s = s + d" "reply_with ticking x s = (Inr (), s + 5)" for s d x
    by (simp_all add: ticking_def)
  have crate: "crate_footer sample_crate = given_footer" by (simp add: sample_crate_def)
  have one: "report sample_crate ?cv Redb ''half'' (progress_default, [], 0) = (Inr (), ?half, ?first, 5)"
    by (simp add: report_def job_bind_def on_state_def observe_def progress_default_def record_sampled_def tick
        send_locked_eq wait_to_send_def pair_send_delay_def crate benchmark_draft_valid record_sent_def)
  have two: "report sample_crate ?cv Redb ''done'' (?half, ?first, 105) = (Inr (), ?done, ?first, 105)"
    by (simp add: report_def job_bind_def on_state_def observe_def tick progress_interval_def job_return_def)
  have fin: "finish_success sample_crate ?cv Redb (?done, ?first, 105) =
      (Inr (), ?done\<lparr>bp_last_sent := Some ''done'', bp_last_sent_at := Some 6010\<rparr>, sample_log, 6010)"
    unfolding finish_success_def
    by (simp add: job_bind_def on_state_def latest_unsent_def tick send_locked_eq wait_to_send_def
        pair_send_delay_def pair_send_interval_def crate benchmark_draft_valid record_sent_def sample_log_def Let_def)
  have run: "execute_database_benchmark ticking_engines Redb (report sample_crate ?cv Redb) (progress_default, [], 0) =
      (Inr (), ?done, ?first, 105)"
    by (simp add: execute_database_benchmark_def ticking_engines_def two_reports_def job_bind_def on_world_def
        job_return_def job_map_err_def passing_def one two)
  show ?thesis using fin by (simp add: benchmark_session_def run)
qed

theorem sends_are_paced_witness:
  "sorted_wrt (\<lambda>x y. sr_ended x + 6000 \<le> sr_began y) sample_log"
  by (rule sends_are_paced [OF ticking_laws ticking_engines_good sample_session])

text \<open>The same benchmark overheard: both of its reports are on the list.\<close>

definition told_passing :: "nat \<Rightarrow> (nat overhearing logged, unit) reporting" where
  "told_passing d w = (case w of (st, tr, told, s) \<Rightarrow> (Inr (), (st, tr, told, s + d)))"

definition told_reports :: "(rstr \<Rightarrow> (nat overhearing logged, unit) reporting) \<Rightarrow> (nat overhearing logged, unit) reporting" where
  "told_reports rep = job_bind (rep ''half'') (\<lambda>_. job_bind (told_passing 100) (\<lambda>_. rep ''done''))"

definition told_engines :: "nat overhearing logged engines" where
  "told_engines = \<lparr>temp_dir = job_return (), run_sqlite = (\<lambda>_. told_reports), run_redb = (\<lambda>_. told_reports), run_heed = (\<lambda>_. told_reports)\<rparr>"

lemma told_reports_quiet: "quiet_run told_reports"
  unfolding quiet_run_def
proof (intro allI impI)
  fix P :: "progress_state \<times> nat overhearing logged \<Rightarrow> bool" and rep :: "rstr \<Rightarrow> (nat overhearing logged, unit) reporting"
  assume P: "world_blind P" and rep: "\<forall>m. keeps P (rep m)"
  from P have "keeps P (told_passing d)" for d
    by (auto simp: keeps_def told_passing_def world_blind_def)
  with rep show "keeps P (told_reports rep)" unfolding told_reports_def by (intro keeps_bind) simp_all
qed

lemma told_engines_quiet: "quiet_engines told_engines"
  by (simp add: quiet_engines_def told_engines_def job_return_def told_reports_quiet)

lemma told_session:
  "benchmark_session sample_crate (logged_conversation snd (overheard ticking)) (overhear told_engines) Redb (progress_default, [], [], 0) =
     (Inr (), \<lparr>bp_latest = Some ''done'', bp_last_sent = Some ''done'', bp_last_sampled_at = Some 0, bp_last_sent_at = Some 6010\<rparr>,
      sample_log, [''half'', ''done''], 6010)"
proof -
  let ?cv = "logged_conversation snd (overheard ticking)"
  let ?half = "\<lparr>bp_latest = Some ''half'', bp_last_sent = Some ''half'', bp_last_sampled_at = Some 0, bp_last_sent_at = Some 5\<rparr>"
  let ?first = "[\<lparr>sr_began = 0, sr_ended = 5, sr_draft = benchmark_draft Redb ''half''\<rparr>]"
  let ?done = "?half\<lparr>bp_latest := Some ''done''\<rparr>"
  have tick: "instant_now (overheard ticking) (told, s) = (s, (told, s))"
    "sleep_for (overheard ticking) d (told, s) = (told, s + d)"
    "reply_with (overheard ticking) x (told, s) = (Inr (), (told, s + 5))"
    "instant_now ticking s = (s, s)" "sleep_for ticking d s = s + d" for told s d x
    by (simp_all add: ticking_def overheard_def beside_def)
  have crate: "crate_footer sample_crate = given_footer" by (simp add: sample_crate_def)
  have one: "noted (report sample_crate ?cv Redb) ''half'' (progress_default, [], [], 0) = (Inr (), ?half, ?first, [''half''], 5)"
    by (simp add: noted_def note_told_def report_def job_bind_def on_state_def observe_def progress_default_def record_sampled_def
        tick send_locked_eq wait_to_send_def pair_send_delay_def crate benchmark_draft_valid record_sent_def)
  have two: "noted (report sample_crate ?cv Redb) ''done'' (?half, ?first, [''half''], 105) =
      (Inr (), ?done, ?first, [''half'', ''done''], 105)"
    by (simp add: noted_def note_told_def report_def job_bind_def on_state_def observe_def tick progress_interval_def job_return_def)
  have fin: "finish_success sample_crate ?cv Redb (?done, ?first, [''half'', ''done''], 105) =
      (Inr (), ?done\<lparr>bp_last_sent := Some ''done'', bp_last_sent_at := Some 6010\<rparr>, sample_log, [''half'', ''done''], 6010)"
    unfolding finish_success_def
    by (simp add: job_bind_def on_state_def latest_unsent_def tick send_locked_eq wait_to_send_def
        pair_send_delay_def pair_send_interval_def crate benchmark_draft_valid record_sent_def sample_log_def Let_def)
  have run: "execute_database_benchmark (overhear told_engines) Redb (report sample_crate ?cv Redb) (progress_default, [], [], 0) =
      (Inr (), ?done, ?first, [''half'', ''done''], 105)"
    by (simp add: execute_database_benchmark_def overhear_def told_engines_def told_reports_def job_bind_def on_world_def
        job_return_def job_map_err_def told_passing_def one two)
  show ?thesis using fin by (simp add: benchmark_session_def run)
qed

theorem latest_progress_is_sent_witness:
  "sr_draft (last sample_log) = benchmark_draft Redb ''done''"
proof -
  obtain ms where "map sr_draft sample_log = map (benchmark_draft Redb) ms" "ms \<noteq> []" "last ms = ''done''"
    using latest_progress_is_sent [OF told_engines_quiet told_session] by auto
  then show ?thesis by (metis last_map list.map_disc_iff)
qed

end
