(* ===== verification/WhatsappEngines.thy ===== *)
theory WhatsappEngines
  imports WhatsappPacing
begin

text \<open>
  The engines of the WhatsApp example are the benchmarks of \<open>Benchmarks\<close>: their reports are put
  into words by \<open>words\<close> and passed to the reporter, and before each of them the time of the work
  goes by, \<open>lapse\<close>. Such engines are what the guarantees of \<open>WhatsappPacing\<close> ask for.
\<close>

record 's bench_world =
  bw_temp_dir :: "(rstr, 's, unit) job"
  bw_words :: "progress \<Rightarrow> rstr"
  bw_lapse :: "progress \<Rightarrow> 's \<Rightarrow> 's"
  bw_clock :: "(bench_error, 128 word) result"
  bw_elapsed :: "nat \<Rightarrow> duration"
  bw_show_error :: "bench_error \<Rightarrow> rstr"

definition lapsed :: "('s \<Rightarrow> 's) \<Rightarrow> ('s logged, unit) reporting" where
  "lapsed f w = (case w of (st, tr, s) \<Rightarrow> (Inr (), (st, tr, f s)))"

definition reports_to ::
  "'s bench_world \<Rightarrow> (rstr \<Rightarrow> ('s logged, unit) reporting) \<Rightarrow> progress \<Rightarrow> ('s logged, unit) reporting" where
  "reports_to bw rep p = job_bind (lapsed (bw_lapse bw p)) (\<lambda>_. rep (bw_words bw p))"

definition database_engines ::
  "('e1, progress_state \<times> 's logged) bench_ops \<Rightarrow> ('e1, 't1, sqlite_event, 'c1) engine_ops \<Rightarrow> 'e1 \<Rightarrow>
   ('e2, progress_state \<times> 's logged) bench_ops \<Rightarrow> ('e2, 't2, u64 \<times> event, 'c2) engine_ops \<Rightarrow> 'e2 \<Rightarrow>
   ('e3, progress_state \<times> 's logged) bench_ops \<Rightarrow> ('e3, 't3, u64 \<times> event, 'c3) engine_ops \<Rightarrow> 'e3 \<Rightarrow>
   's bench_world \<Rightarrow> 's logged engines" where
  "database_engines ops1 eng1 e1 ops2 eng2 e2 ops3 eng3 e3 bw =
     \<lparr>temp_dir = aside (bw_temp_dir bw),
      run_sqlite = (\<lambda>c rep. as_benchmark (sqlite_run_benchmark (ops1\<lparr>bo_report := reports_to bw rep\<rparr>) eng1 c (bw_clock bw) (bw_elapsed bw)) e1 (bw_show_error bw)),
      run_redb = (\<lambda>c rep. as_benchmark (redb_run_benchmark (ops2\<lparr>bo_report := reports_to bw rep\<rparr>) eng2 c (bw_clock bw) (bw_elapsed bw)) e2 (bw_show_error bw)),
      run_heed = (\<lambda>c rep. as_benchmark (heed_run_benchmark (ops3\<lparr>bo_report := reports_to bw rep\<rparr>) eng3 c (bw_clock bw) (bw_elapsed bw)) e3 (bw_show_error bw))\<rparr>"

text \<open>Only the clock is relied on: it does not go backwards while a benchmark works.\<close>

definition time_goes_on :: "('s \<Rightarrow> nat) \<Rightarrow> 's bench_world \<Rightarrow> bool" where
  "time_goes_on time bw \<longleftrightarrow>
     (\<forall>p s. time s \<le> time (bw_lapse bw p s)) \<and> (\<forall>s. time s \<le> time (snd (bw_temp_dir bw s)))"

lemma keeps_reports_to:
  assumes "time_goes_on time bw" "lets_time_pass time P" "\<And>m. keeps P (rep m)"
  shows "keeps P (reports_to bw rep p)"
proof -
  have "keeps P (lapsed (bw_lapse bw p))"
    using assms(1,2) by (auto simp: keeps_def lapsed_def lets_time_pass_def time_goes_on_def)
  then show ?thesis unfolding reports_to_def by (rule keeps_bind) (rule assms(3))
qed

lemma database_engines_good:
  assumes "time_goes_on time bw"
  shows "good_engines time (database_engines ops1 eng1 e1 ops2 eng2 e2 ops3 eng3 e3 bw)"
proof -
  have "only_reports time (\<lambda>rep. as_benchmark (sqlite_run_benchmark (ops1\<lparr>bo_report := reports_to bw rep\<rparr>) eng1 c (bw_clock bw) (bw_elapsed bw)) e1 (bw_show_error bw))" for c
    unfolding only_reports_def
    by (intro allI impI keeps_as_benchmark sqlite_run_keeps) (simp add: keeps_reports_to [OF assms])
  moreover have "only_reports time (\<lambda>rep. as_benchmark (redb_run_benchmark (ops2\<lparr>bo_report := reports_to bw rep\<rparr>) eng2 c (bw_clock bw) (bw_elapsed bw)) e2 (bw_show_error bw))" for c
    unfolding only_reports_def
    by (intro allI impI keeps_as_benchmark redb_run_keeps) (simp add: keeps_reports_to [OF assms])
  moreover have "only_reports time (\<lambda>rep. as_benchmark (heed_run_benchmark (ops3\<lparr>bo_report := reports_to bw rep\<rparr>) eng3 c (bw_clock bw) (bw_elapsed bw)) e3 (bw_show_error bw))" for c
    unfolding only_reports_def
    by (intro allI impI keeps_as_benchmark heed_run_keeps) (simp add: keeps_reports_to [OF assms])
  moreover have "fst (snd (aside (bw_temp_dir bw) (tr, s))) = tr \<and> time s \<le> time (snd (snd (aside (bw_temp_dir bw) (tr, s))))" for tr s
    using assms by (simp add: aside_def time_goes_on_def case_prod_beta)
  ultimately show ?thesis by (simp add: good_engines_def database_engines_def)
qed

text \<open>A session over the databases keeps the reporter's invariant, whatever the databases answer.\<close>

lemma database_sessions_keep_inv:
  assumes "clock_laws time cv" "time_goes_on time bw"
  shows "reporter_inv time b
    (snd (benchmark_session crate (logged_conversation time cv)
      (database_engines ops1 eng1 e1 ops2 eng2 e2 ops3 eng3 e3 bw) b (progress_default, [], s)))"
  by (rule session_keeps [OF assms(1) database_engines_good [OF assms(2)] fresh_inv])

text \<open>Overheard, the databases put on the list only what they report.\<close>

definition overheard_world :: "'s bench_world \<Rightarrow> 's overhearing bench_world" where
  "overheard_world bw =
     \<lparr>bw_temp_dir = beside (bw_temp_dir bw), bw_words = bw_words bw,
      bw_lapse = (\<lambda>p (told, s). (told, bw_lapse bw p s)), bw_clock = bw_clock bw,
      bw_elapsed = bw_elapsed bw, bw_show_error = bw_show_error bw\<rparr>"

lemma blind_reports_to:
  assumes "world_blind P" "\<And>m. keeps P (rep m)"
  shows "keeps P (reports_to (overheard_world bw) rep p)"
proof -
  have "keeps P (lapsed (bw_lapse (overheard_world bw) p))"
    using assms(1) by (auto simp: keeps_def lapsed_def world_blind_def overheard_world_def)
  then show ?thesis unfolding reports_to_def by (rule keeps_bind) (rule assms(2))
qed

lemma database_engines_quiet:
  "quiet_engines (database_engines ops1 eng1 e1 ops2 eng2 e2 ops3 eng3 e3 (overheard_world bw))"
proof -
  let ?bw = "overheard_world bw"
  have "quiet_run (\<lambda>rep. as_benchmark (sqlite_run_benchmark (ops1\<lparr>bo_report := reports_to ?bw rep\<rparr>) eng1 c (bw_clock ?bw) (bw_elapsed ?bw)) e1 (bw_show_error ?bw))" for c
    unfolding quiet_run_def
    by (intro allI impI keeps_as_benchmark sqlite_run_keeps) (simp add: blind_reports_to)
  moreover have "quiet_run (\<lambda>rep. as_benchmark (redb_run_benchmark (ops2\<lparr>bo_report := reports_to ?bw rep\<rparr>) eng2 c (bw_clock ?bw) (bw_elapsed ?bw)) e2 (bw_show_error ?bw))" for c
    unfolding quiet_run_def
    by (intro allI impI keeps_as_benchmark redb_run_keeps) (simp add: blind_reports_to)
  moreover have "quiet_run (\<lambda>rep. as_benchmark (heed_run_benchmark (ops3\<lparr>bo_report := reports_to ?bw rep\<rparr>) eng3 c (bw_clock ?bw) (bw_elapsed ?bw)) e3 (bw_show_error ?bw))" for c
    unfolding quiet_run_def
    by (intro allI impI keeps_as_benchmark heed_run_keeps) (simp add: blind_reports_to)
  ultimately show ?thesis
    by (simp add: quiet_engines_def database_engines_def overheard_world_def aside_def beside_def case_prod_beta)
qed

end
