(* ===== verification/WhatsappJson.thy ===== *)
theory WhatsappJson
  imports Prelude "HOL-Library.AList"
begin

text \<open>
  The template quick-reply adapter of the WhatsApp example,
  \<open>src/examples/whatsapp_demoscene.rs\<close>: Meta delivers a click on a template's button as a message
  of type \<open>button\<close>, which the crate does not know; \<open>normalize_template_quick_reply_callbacks\<close>
  rewrites it to the \<open>interactive\<close> form. A \<open>serde_json::Value\<close> is the datatype \<open>json\<close>, an object the
  list of its fields in the order of their names (its map is a \<open>BTreeMap\<close>). Parsing and printing
  are the arguments \<open>from_slice\<close> and \<open>to_vec\<close>.
\<close>

section \<open>Values\<close>

datatype json =
    JNull
  | JBool bool
  | JNumber rstr
  | JString rstr
  | JArray "json list"
  | JObject "(rstr \<times> json) list"

fun as_str :: "json \<Rightarrow> rstr option" where
  "as_str (JString s) = Some s"
| "as_str _ = None"

fun as_object :: "json \<Rightarrow> (rstr \<times> json) list option" where
  "as_object (JObject fs) = Some fs"
| "as_object _ = None"

text \<open>\<open>Value::get\<close> with a name.\<close>

fun get_field :: "rstr \<Rightarrow> json \<Rightarrow> json option" where
  "get_field k (JObject fs) = map_of fs k"
| "get_field _ _ = None"

text \<open>\<open>Map::insert\<close>: names are ordered by their bytes.\<close>

fun name_less :: "rstr \<Rightarrow> rstr \<Rightarrow> bool" where
  "name_less _ [] = False"
| "name_less [] (_ # _) = True"
| "name_less (c # s) (d # t) = (code c < code d \<or> c = d \<and> name_less s t)"

fun object_insert :: "rstr \<Rightarrow> json \<Rightarrow> (rstr \<times> json) list \<Rightarrow> (rstr \<times> json) list" where
  "object_insert k v [] = [(k, v)]"
| "object_insert k v ((k', v') # fs) =
     (if k = k' then (k, v) # fs
      else if name_less k k' then (k, v) # (k', v') # fs
      else (k', v') # object_insert k v fs)"

lemma map_of_object_insert [simp]: "map_of (object_insert k v fs) = (map_of fs)(k \<mapsto> v)"
  by (induction k v fs rule: object_insert.induct) (auto simp: fun_eq_iff)

section \<open>Changing a value in place\<close>

text \<open>A step over \<open>&mut Value\<close> answers whether it changed anything, and the value after it.\<close>

type_synonym json_step = "json \<Rightarrow> (rstr, bool \<times> json) result"

fun each_value :: "json_step \<Rightarrow> json list \<Rightarrow> (rstr, bool \<times> json list) result" where
  "each_value f [] = Inr (False, [])"
| "each_value f (v # vs) =
     bind_res (f v) (\<lambda>(c, v').
     bind_res (each_value f vs) (\<lambda>(c', vs').
     Inr (c \<or> c', v' # vs')))"

text \<open>\<open>get_mut(name)\<close>, and the loop over \<open>as_array_mut\<close>; elsewhere \<open>continue\<close>.\<close>

definition on_field :: "rstr \<Rightarrow> json_step \<Rightarrow> json_step" where
  "on_field k f v =
     (case v of
        JObject fs \<Rightarrow>
          (case map_of fs k of
             Some w \<Rightarrow> bind_res (f w) (\<lambda>(c, w'). Inr (c, JObject (AList.update k w' fs)))
           | None \<Rightarrow> Inr (False, v))
      | _ \<Rightarrow> Inr (False, v))"

definition on_array :: "json_step \<Rightarrow> json_step" where
  "on_array f v =
     (case v of
        JArray vs \<Rightarrow> bind_res (each_value f vs) (\<lambda>(c, vs'). Inr (c, JArray vs'))
      | _ \<Rightarrow> Inr (False, v))"

section \<open>The adapter\<close>

definition button_reply :: "rstr \<Rightarrow> rstr \<Rightarrow> json" where
  "button_reply payload title =
     JObject [(''button_reply'', JObject [(''id'', JString payload), (''title'', JString title)]),
              (''type'', JString ''button_reply'')]"

definition normalize_message :: json_step where
  "normalize_message message =
     (if Option.bind (get_field ''type'' message) as_str \<noteq> Some ''button'' then Inr (False, message)
      else
        bind_res (ok_or ''message type `button` has no button object''
          (Option.bind (get_field ''button'' message) as_object)) (\<lambda>button.
        bind_res (ok_or ''template quick-reply button has no string payload''
          (Option.bind (map_of button ''payload'') as_str)) (\<lambda>payload.
        bind_res (ok_or ''template quick-reply button has no string text''
          (Option.bind (map_of button ''text'') as_str)) (\<lambda>title.
        bind_res (ok_or ''message entry is not an object'' (as_object message)) (\<lambda>fs.
        Inr (True, JObject
          (object_insert ''interactive'' (button_reply payload title)
            (object_insert ''type'' (JString ''interactive'') (AList.delete ''button'' fs)))))))))"

definition normalize_envelope :: json_step where
  "normalize_envelope =
     on_field ''entry'' (on_array (on_field ''changes'' (on_array
       (on_field ''value'' (on_field ''messages'' (on_array normalize_message))))))"

record json_ops =
  from_slice :: "rstr \<Rightarrow> (rstr, json) result"
  to_vec :: "json \<Rightarrow> (rstr, rstr) result"

definition normalize_template_quick_reply_callbacks :: "json_ops \<Rightarrow> rstr \<Rightarrow> (rstr, rstr option) result" where
  "normalize_template_quick_reply_callbacks js body =
     (case from_slice js body of
        Inl _ \<Rightarrow> Inr None
      | Inr envelope \<Rightarrow>
          bind_res (normalize_envelope envelope) (\<lambda>(changed, envelope').
          if changed
          then bind_res (map_err (\<lambda>err. ''serializing adapted template callback failed: '' @ err) (to_vec js envelope'))
                 (\<lambda>bytes. Inr (Some bytes))
          else Inr None))"

section \<open>Traversals\<close>

text \<open>
  The values a traversal \<open>trav\<close> steps on in a value \<open>v\<close> are \<open>foc v\<close>; \<open>upd g\<close> changes just
  these. A traversal stops at the first step that fails, and otherwise is \<open>upd\<close>.
\<close>

fun first_error :: "('e, 'a) result list \<Rightarrow> 'e option" where
  "first_error [] = None"
| "first_error (Inl e # rs) = Some e"
| "first_error (Inr _ # rs) = first_error rs"

lemma first_error_append:
  "first_error (xs @ ys) = (case first_error xs of Some e \<Rightarrow> Some e | None \<Rightarrow> first_error ys)"
  by (induction xs rule: first_error.induct) auto

lemma first_error_None: "first_error rs = None \<longleftrightarrow> (\<forall>r\<in>set rs. is_ok r)"
  by (induction rs rule: first_error.induct) auto

definition step_error :: "json_step \<Rightarrow> json list \<Rightarrow> rstr option" where
  "step_error f ws = first_error (map f ws)"

definition step_changes :: "json_step \<Rightarrow> json \<Rightarrow> bool" where
  "step_changes f w = fst (projr (f w))"

definition step_value :: "json_step \<Rightarrow> json \<Rightarrow> json" where
  "step_value f w = snd (projr (f w))"

lemma step_of_Inr: "f w = Inr (c, w') \<Longrightarrow> step_changes f w = c" "f w = Inr (c, w') \<Longrightarrow> step_value f w = w'"
  by (simp_all add: step_changes_def step_value_def)

locale traversal =
  fixes trav :: "json_step \<Rightarrow> json_step"
    and foc :: "json \<Rightarrow> json list"
    and upd :: "(json \<Rightarrow> json) \<Rightarrow> json \<Rightarrow> json"
  assumes trav_eq: "trav f v = (case step_error f (foc v) of
        Some e \<Rightarrow> Inl e
      | None \<Rightarrow> Inr (list_ex (step_changes f) (foc v), upd (step_value f) v))"
    and foc_upd: "foc (upd g v) = map g (foc v)"
    and upd_upd: "upd h (upd g v) = upd (h \<circ> g) v"
    and upd_cong: "(\<And>w. w \<in> set (foc v) \<Longrightarrow> g w = h w) \<Longrightarrow> upd g v = upd h v"
begin

lemma trav_Inr:
  "trav f v = Inr (c, v') \<longleftrightarrow>
     step_error f (foc v) = None \<and> c = list_ex (step_changes f) (foc v) \<and> v' = upd (step_value f) v"
  by (auto simp: trav_eq split: option.splits)

lemma trav_Inl: "trav f v = Inl e \<longleftrightarrow> step_error f (foc v) = Some e"
  by (auto simp: trav_eq split: option.splits)

text \<open>What is outside the focus is not touched.\<close>

lemma upd_frame: "upd (\<lambda>_. x) (upd g v) = upd (\<lambda>_. x) v"
  by (simp add: upd_upd comp_def)

end

lemma step_error_steps:
  assumes "traversal t2 foc2 upd2"
  shows "step_error (t2 f) ws = step_error f (concat (map foc2 ws))"
proof -
  show ?thesis
    by (induction ws) (auto simp: step_error_def first_error_append traversal.trav_eq [OF assms] split: option.splits)
qed

lemma traversal_compose:
  assumes t1: "traversal t1 foc1 upd1" and t2: "traversal t2 foc2 upd2"
  shows "traversal (\<lambda>f. t1 (t2 f)) (\<lambda>v. concat (map foc2 (foc1 v))) (\<lambda>g. upd1 (upd2 g))"
proof
  note eqs = traversal.trav_eq [OF t1] traversal.trav_eq [OF t2]
  show "t1 (t2 f) v = (case step_error f (concat (map foc2 (foc1 v))) of
      Some e \<Rightarrow> Inl e
    | None \<Rightarrow> Inr (list_ex (step_changes f) (concat (map foc2 (foc1 v))), upd1 (upd2 (step_value f)) v))" for f v
  proof (cases "step_error f (concat (map foc2 (foc1 v)))")
    case (Some e)
    then show ?thesis by (simp add: eqs(1) step_error_steps [OF t2])
  next
    case None
    have ok: "t2 f w = Inr (list_ex (step_changes f) (foc2 w), upd2 (step_value f) w)" if "w \<in> set (foc1 v)" for w
    proof -
      from None that have "step_error f (foc2 w) = None"
        by (auto simp: step_error_def first_error_None)
      then show ?thesis by (simp add: eqs(2))
    qed
    have "upd1 (step_value (t2 f)) v = upd1 (upd2 (step_value f)) v"
      by (rule traversal.upd_cong [OF t1]) (simp add: step_value_def ok)
    moreover have "list_ex (step_changes (t2 f)) (foc1 v) = list_ex (step_changes f) (concat (map foc2 (foc1 v)))"
      by (auto simp: list_ex_iff step_changes_def ok)
    ultimately show ?thesis
      using None by (simp add: eqs(1) step_error_steps [OF t2])
  qed
  show "concat (map foc2 (foc1 (upd1 (upd2 g) v))) = map g (concat (map foc2 (foc1 v)))" for g v
    by (simp add: traversal.foc_upd [OF t1] traversal.foc_upd [OF t2] map_concat comp_def)
  show "upd1 (upd2 h) (upd1 (upd2 g) v) = upd1 (upd2 (h \<circ> g)) v" for h g v
  proof -
    have "upd2 h \<circ> upd2 g = upd2 (h \<circ> g)" by (simp add: fun_eq_iff traversal.upd_upd [OF t2])
    then show ?thesis by (simp only: traversal.upd_upd [OF t1])
  qed
  show "upd1 (upd2 g) v = upd1 (upd2 h) v" if "\<And>w. w \<in> set (concat (map foc2 (foc1 v))) \<Longrightarrow> g w = h w" for v g h
    using that by (intro traversal.upd_cong [OF t1] traversal.upd_cong [OF t2]) auto
qed

section \<open>The fields and arrays of a value\<close>

definition field_values :: "rstr \<Rightarrow> json \<Rightarrow> json list" where
  "field_values k v = (case get_field k v of Some w \<Rightarrow> [w] | None \<Rightarrow> [])"

fun change_field :: "rstr \<Rightarrow> (json \<Rightarrow> json) \<Rightarrow> json \<Rightarrow> json" where
  "change_field k g (JObject fs) =
     JObject (case map_of fs k of Some w \<Rightarrow> AList.update k (g w) fs | None \<Rightarrow> fs)"
| "change_field k g v = v"

fun array_values :: "json \<Rightarrow> json list" where
  "array_values (JArray vs) = vs"
| "array_values _ = []"

fun change_array :: "(json \<Rightarrow> json) \<Rightarrow> json \<Rightarrow> json" where
  "change_array g (JArray vs) = JArray (map g vs)"
| "change_array g v = v"

lemma update_twice: "AList.update k x (AList.update k y fs) = AList.update k x fs"
  by (induction fs) auto

lemma traversal_field: "traversal (on_field k) (field_values k) (change_field k)"
proof
  show "on_field k f v = (case step_error f (field_values k v) of
      Some e \<Rightarrow> Inl e
    | None \<Rightarrow> Inr (list_ex (step_changes f) (field_values k v), change_field k (step_value f) v))" for f v
  proof (cases v)
    case (JObject fs)
    then show ?thesis
      by (cases "map_of fs k"; cases "f (the (map_of fs k))")
        (auto simp: on_field_def field_values_def step_error_def step_changes_def step_value_def)
  qed (auto simp: on_field_def field_values_def step_error_def)
  show "field_values k (change_field k g v) = map g (field_values k v)" for g v
    by (cases v) (auto simp: field_values_def update_conv split: option.split)
  show "change_field k h (change_field k g v) = change_field k (h \<circ> g) v" for h g v
    by (cases v) (auto simp: update_conv update_twice split: option.split)
  show "change_field k g v = change_field k h v" if "\<And>w. w \<in> set (field_values k v) \<Longrightarrow> g w = h w" for v g h
    using that by (cases v) (auto simp: field_values_def split: option.split)
qed

lemma each_value_eq:
  "each_value f vs = (case step_error f vs of
      Some e \<Rightarrow> Inl e
    | None \<Rightarrow> Inr (list_ex (step_changes f) vs, map (step_value f) vs))"
proof (induction vs)
  case (Cons v vs)
  then show ?case
    by (cases "f v") (auto simp: step_error_def step_of_Inr split: option.split)
qed (simp add: step_error_def)

lemma traversal_array: "traversal on_array array_values change_array"
proof
  show "on_array f v = (case step_error f (array_values v) of
      Some e \<Rightarrow> Inl e
    | None \<Rightarrow> Inr (list_ex (step_changes f) (array_values v), change_array (step_value f) v))" for f v
    by (cases v) (auto simp: on_array_def each_value_eq step_error_def split: option.split)
  show "array_values (change_array g v) = map g (array_values v)" for g v by (cases v) auto
  show "change_array h (change_array g v) = change_array (h \<circ> g) v" for h g v by (cases v) auto
  show "change_array g v = change_array h v" if "\<And>w. w \<in> set (array_values v) \<Longrightarrow> g w = h w" for v g h
    using that by (cases v) auto
qed

section \<open>The messages of an envelope\<close>

text \<open>The path \<open>entry[].changes[].value.messages[]\<close>, and what is around the messages.\<close>

definition entries :: "json \<Rightarrow> json list" where
  "entries v = concat (map array_values (field_values ''entry'' v))"

definition changes_of :: "json \<Rightarrow> json list" where
  "changes_of entry = concat (map array_values (field_values ''changes'' entry))"

definition change_messages :: "json \<Rightarrow> json list" where
  "change_messages change = concat (map (\<lambda>w. concat (map array_values (field_values ''messages'' w))) (field_values ''value'' change))"

definition messages_of :: "json \<Rightarrow> json list" where
  "messages_of v = concat (map (\<lambda>e. concat (map change_messages (changes_of e))) (entries v))"

definition map_messages :: "(json \<Rightarrow> json) \<Rightarrow> json \<Rightarrow> json" where
  "map_messages g =
     change_field ''entry'' (change_array (change_field ''changes'' (change_array
       (change_field ''value'' (change_field ''messages'' (change_array g))))))"

definition around_messages :: "json \<Rightarrow> json" where
  "around_messages = map_messages (\<lambda>_. JNull)"

interpretation envelope: traversal
  "\<lambda>f. on_field ''entry'' (on_array (on_field ''changes'' (on_array
       (on_field ''value'' (on_field ''messages'' (on_array f))))))" messages_of map_messages
proof -
  note in_array = traversal_compose [OF traversal_field traversal_array]
  have m: "traversal (\<lambda>f. on_field ''value'' (on_field ''messages'' (on_array f))) change_messages
      (\<lambda>g. change_field ''value'' (change_field ''messages'' (change_array g)))"
    unfolding change_messages_def by (rule traversal_compose [OF traversal_field in_array])
  have c: "traversal (\<lambda>f. on_field ''changes'' (on_array f)) changes_of (\<lambda>g. change_field ''changes'' (change_array g))"
    unfolding changes_of_def by (rule in_array)
  have e: "traversal (\<lambda>f. on_field ''entry'' (on_array f)) entries (\<lambda>g. change_field ''entry'' (change_array g))"
    unfolding entries_def by (rule in_array)
  show "traversal (\<lambda>f. on_field ''entry'' (on_array (on_field ''changes'' (on_array
       (on_field ''value'' (on_field ''messages'' (on_array f))))))) messages_of map_messages"
    using traversal_compose [OF e traversal_compose [OF c m]]
    unfolding messages_of_def map_messages_def by simp
qed

definition is_button :: "json \<Rightarrow> bool" where
  "is_button m \<longleftrightarrow> get_field ''type'' m = Some (JString ''button'')"

definition button_with :: "json \<Rightarrow> rstr \<Rightarrow> rstr \<Rightarrow> bool" where
  "button_with m payload title \<longleftrightarrow>
     is_button m \<and> (\<exists>b. get_field ''button'' m = Some (JObject b) \<and>
       map_of b ''payload'' = Some (JString payload) \<and> map_of b ''text'' = Some (JString title))"

lemma as_str_Some [simp]: "as_str v = Some s \<longleftrightarrow> v = JString s"
  by (cases v) auto

lemma as_object_Some [simp]: "as_object v = Some fs \<longleftrightarrow> v = JObject fs"
  by (cases v) auto

lemma is_button_type: "Option.bind (get_field ''type'' m) as_str = Some ''button'' \<longleftrightarrow> is_button m"
  by (auto simp: is_button_def Option.bind_eq_Some_conv)

lemma normalize_message_other: "\<not> is_button m \<Longrightarrow> normalize_message m = Inr (False, m)"
  by (simp add: normalize_message_def is_button_type)

text \<open>A message and the same click as the crate knows it.\<close>

definition same_click :: "json \<Rightarrow> json \<Rightarrow> bool" where
  "same_click m m' \<longleftrightarrow>
     (if is_button m
      then \<exists>payload title. button_with m payload title \<and>
        get_field ''type'' m' = Some (JString ''interactive'') \<and>
        get_field ''interactive'' m' = Some (button_reply payload title) \<and>
        (\<forall>k. k \<notin> {''type'', ''button'', ''interactive''} \<longrightarrow> get_field k m' = get_field k m)
      else m' = m)"

lemma normalize_message_button:
  assumes "is_button m"
  shows "(\<exists>payload title m'. button_with m payload title \<and> normalize_message m = Inr (True, m') \<and> same_click m m') \<or>
    (\<nexists>payload title. button_with m payload title) \<and> (\<exists>e. normalize_message m = Inl e)"
proof (cases "\<exists>payload title. button_with m payload title")
  case True
  then obtain payload title b fs where m: "m = JObject fs" "map_of fs ''button'' = Some (JObject b)"
    "map_of b ''payload'' = Some (JString payload)" "map_of b ''text'' = Some (JString title)"
    by (cases m) (auto simp: button_with_def)
  with assms have "normalize_message m = Inr (True, JObject
          (object_insert ''interactive'' (button_reply payload title)
            (object_insert ''type'' (JString ''interactive'') (AList.delete ''button'' fs))))"
    by (simp add: normalize_message_def is_button_def)
  moreover have "button_with m payload title" using assms m by (simp add: button_with_def)
  moreover from this have "same_click m (JObject
          (object_insert ''interactive'' (button_reply payload title)
            (object_insert ''type'' (JString ''interactive'') (AList.delete ''button'' fs))))"
    unfolding same_click_def using assms m(1)
    by (simp only: if_True) (rule exI [of _ payload], rule exI [of _ title], simp add: delete_conv)
  ultimately show ?thesis by blast
next
  case False
  have "\<exists>e. normalize_message m = Inl e"
  proof (cases "Option.bind (get_field ''button'' m) as_object")
    case None
    with assms show ?thesis by (simp add: normalize_message_def is_button_type)
  next
    case (Some b)
    then have b: "get_field ''button'' m = Some (JObject b)" by (simp add: Option.bind_eq_Some_conv)
    have "Option.bind (map_of b ''payload'') as_str = None \<or> Option.bind (map_of b ''text'') as_str = None"
    proof (rule ccontr)
      assume "\<not> ?thesis"
      then obtain p t where "Option.bind (map_of b ''payload'') as_str = Some p" "Option.bind (map_of b ''text'') as_str = Some t"
        by (cases "Option.bind (map_of b ''payload'') as_str"; cases "Option.bind (map_of b ''text'') as_str") auto
      then have "button_with m p t" using assms b by (simp add: button_with_def Option.bind_eq_Some_conv)
      with False show False by blast
    qed
    with assms Some show ?thesis
      by (cases "Option.bind (map_of b ''payload'') as_str") (auto simp: normalize_message_def is_button_type)
  qed
  with False show ?thesis by blast
qed

lemma not_button_after: "same_click m m' \<Longrightarrow> \<not> is_button m'"
proof (cases "is_button m")
  case True
  moreover assume "same_click m m'"
  ultimately have "get_field ''type'' m' = Some (JString ''interactive'')"
    unfolding same_click_def by (simp only: if_True) blast
  then show ?thesis by (simp add: is_button_def)
qed (simp add: same_click_def)

lemma no_button_after: "list_all2 same_click ms ms' \<Longrightarrow> \<not> list_ex is_button ms'"
  by (induction rule: list_all2_induct) (simp_all add: not_button_after)

definition malformed_button :: "json \<Rightarrow> bool" where
  "malformed_button m \<longleftrightarrow> is_button m \<and> (\<nexists>payload title. button_with m payload title)"

lemma message_ok: "is_ok (normalize_message m) \<longleftrightarrow> \<not> malformed_button m"
proof (cases "is_button m")
  case True
  from normalize_message_button [OF this] show ?thesis
    by (elim disjE exE conjE) (auto simp: malformed_button_def True)
qed (simp add: normalize_message_other malformed_button_def)

lemma message_error: "step_error normalize_message ms = None \<longleftrightarrow> \<not> list_ex malformed_button ms"
  by (auto simp: step_error_def first_error_None message_ok list_ex_iff)

lemma message_step:
  assumes "\<not> malformed_button m"
  shows "step_changes normalize_message m = is_button m" and "same_click m (step_value normalize_message m)"
proof -
  have "step_changes normalize_message m = is_button m \<and> same_click m (step_value normalize_message m)"
  proof (cases "is_button m")
    case True
    with assms normalize_message_button [OF this] obtain m' where "normalize_message m = Inr (True, m')" "same_click m m'"
      by (auto simp: malformed_button_def)
    with True show ?thesis by (simp add: step_of_Inr)
  qed (simp add: normalize_message_other step_of_Inr same_click_def)
  then show "step_changes normalize_message m = is_button m" "same_click m (step_value normalize_message m)" by auto
qed

lemma normalize_envelope_eq:
  "normalize_envelope v =
     (case step_error normalize_message (messages_of v) of
        Some e \<Rightarrow> Inl e
      | None \<Rightarrow> Inr (list_ex is_button (messages_of v), map_messages (step_value normalize_message) v))"
proof -
  have "list_ex (step_changes normalize_message) (messages_of v) = list_ex is_button (messages_of v)"
    if "step_error normalize_message (messages_of v) = None"
    using that message_step(1) by (auto simp: message_error list_ex_iff)
  then show ?thesis
    using envelope.trav_eq [of normalize_message v] by (simp add: normalize_envelope_def split: option.split)
qed

section \<open>Properties\<close>

text \<open>C15: The adapter touches exactly the deliveries that need it: it leaves a body alone if and only if the
  body is not JSON or holds no message of type \<open>button\<close>, and it reports an error if and only if
  some \<open>button\<close> message of the body lacks its button object, its payload or its text.\<close>

theorem adapter_is_selective:
  assumes "\<forall>v. is_ok (to_vec js v)"
  shows "(normalize_template_quick_reply_callbacks js body = Inr None \<longleftrightarrow>
      (\<forall>v. from_slice js body = Inr v \<longrightarrow> \<not> list_ex is_button (messages_of v))) \<and>
    (is_ok (normalize_template_quick_reply_callbacks js body) \<longleftrightarrow>
      (\<forall>v. from_slice js body = Inr v \<longrightarrow> \<not> list_ex malformed_button (messages_of v)))"
proof (cases "from_slice js body")
  case (Inr v)
  note d = normalize_template_quick_reply_callbacks_def normalize_envelope_eq Inr
  show ?thesis
  proof (cases "step_error normalize_message (messages_of v)")
    case (Some e)
    then have "list_ex malformed_button (messages_of v)" by (metis message_error option.distinct(1))
    with Some show ?thesis by (auto simp: d list_ex_iff malformed_button_def)
  next
    case None
    then have "\<not> list_ex malformed_button (messages_of v)" using message_error by blast
    with None assms [THEN spec, of "map_messages (step_value normalize_message) v"] show ?thesis
      by (cases "to_vec js (map_messages (step_value normalize_message) v)") (auto simp: d)
  qed
qed (simp add: normalize_template_quick_reply_callbacks_def)

text \<open>
  The next property asks of \<open>serde_json\<close> only that the adapted bytes are read back as the value
  they were written from. That holds for any delivery whose numbers are integers; for other
  numbers, without the feature \<open>float_roundtrip\<close>, the crate promises only its best effort.
\<close>

text \<open>C14: An adapted body is the same delivery with every template click in the form the crate
  understands: everything around the messages is as it was, each \<open>button\<close> message has become the
  interactive message with the same payload and title and its other fields unchanged, every other message
  is untouched, and adapting the result once more changes nothing.\<close>

theorem adapter_translates_clicks:
  assumes "from_slice js body = Inr v" "normalize_template_quick_reply_callbacks js body = Inr (Some bytes)"
    and "\<forall>v. to_vec js v = Inr bytes \<longrightarrow> from_slice js bytes = Inr v"
  shows "\<exists>v'. from_slice js bytes = Inr v' \<and> around_messages v' = around_messages v \<and>
    list_all2 same_click (messages_of v) (messages_of v') \<and>
    normalize_template_quick_reply_callbacks js bytes = Inr None"
proof -
  let ?v' = "map_messages (step_value normalize_message) v"
  note d = normalize_template_quick_reply_callbacks_def normalize_envelope_eq
  from assms(1,2) have no_error: "step_error normalize_message (messages_of v) = None" and "to_vec js ?v' = Inr bytes"
    by (auto simp: d split: option.splits if_splits elim!: bind_res_InrE)
  with assms(3) have v': "from_slice js bytes = Inr ?v'" by blast
  have clicks: "list_all2 same_click (messages_of v) (messages_of ?v')"
    using no_error message_step(2)
    by (auto simp: envelope.foc_upd list_all2_map2 message_error list_ex_iff list.rel_refl_strong intro!: list_all2_refl)
  then have "\<not> list_ex is_button (messages_of ?v')" by (rule no_button_after)
  moreover from this have "step_error normalize_message (messages_of ?v') = None"
    unfolding message_error by (auto simp: list_ex_iff malformed_button_def)
  ultimately have "normalize_template_quick_reply_callbacks js bytes = Inr None"
    by (simp add: d v')
  moreover have "around_messages ?v' = around_messages v"
    by (simp add: around_messages_def envelope.upd_frame)
  ultimately show ?thesis using v' clicks by blast
qed

section \<open>A delivery with one click\<close>

definition delivery :: "json list \<Rightarrow> json" where
  "delivery ms =
     JObject [(''entry'', JArray [JObject [(''changes'', JArray [JObject [(''field'', JString ''messages''),
       (''value'', JObject [(''messages'', JArray ms)])]])]]), (''object'', JString ''whatsapp_business_account'')]"

definition list_click :: json where
  "list_click = JObject [(''button'', JObject [(''payload'', JString ''demo:list''), (''text'', JString ''List'')]),
     (''from'', JString ''5511''), (''type'', JString ''button'')]"

definition list_click_adapted :: json where
  "list_click_adapted = JObject [(''from'', JString ''5511''), (''interactive'', button_reply ''demo:list'' ''List''),
     (''type'', JString ''interactive'')]"

definition hello :: json where
  "hello = JObject [(''from'', JString ''5511''), (''text'', JObject [(''body'', JString ''hello'')]), (''type'', JString ''text'')]"

definition sample_js :: json_ops where
  "sample_js = \<lparr>from_slice = (\<lambda>b. if b = ''click'' then Inr (delivery [hello, list_click])
       else if b = ''adapted'' then Inr (delivery [hello, list_click_adapted]) else Inl ''not JSON''),
     to_vec = (\<lambda>v. if v = delivery [hello, list_click_adapted] then Inr ''adapted'' else Inl ''unexpected'')\<rparr>"

lemma sample_adapted: "normalize_template_quick_reply_callbacks sample_js ''click'' = Inr (Some ''adapted'')"
  by code_simp

lemma adapter_translates_clicks_witness:
  "list_all2 same_click (messages_of (delivery [hello, list_click])) (messages_of (delivery [hello, list_click_adapted]))"
proof -
  have law: "\<forall>v. to_vec sample_js v = Inr ''adapted'' \<longrightarrow> from_slice sample_js ''adapted'' = Inr v"
    by (simp add: sample_js_def)
  have "from_slice sample_js ''click'' = Inr (delivery [hello, list_click])" by (simp add: sample_js_def)
  from adapter_translates_clicks [OF this sample_adapted law] show ?thesis
    by (auto simp: sample_js_def)
qed

lemma adapter_is_selective_witness:
  "normalize_template_quick_reply_callbacks (sample_js\<lparr>to_vec := (\<lambda>_. Inr ''out'')\<rparr>) ''hello'' = Inr None"
  using adapter_is_selective [of "sample_js\<lparr>to_vec := (\<lambda>_. Inr ''out'')\<rparr>" "''hello''"]
  by (simp add: sample_js_def)

end
