(* ===== verification/WhatsappWebhook.thy ===== *)
theory WhatsappWebhook
  imports WhatsappConfig WhatsappJson
begin

text \<open>
  The webhook of the WhatsApp example, \<open>src/examples/whatsapp_demoscene.rs\<close>: the challenge Meta
  verifies the endpoint with, the signature of a delivery, the status-only deliveries the example
  acknowledges itself, and what reaches the crate's service. HMAC, hexadecimal, JSON and the
  routing of axum are arguments; \<open>hmac_law\<close> and \<open>axum_law\<close> say what the code relies on.
\<close>

section \<open>Requests and responses\<close>

text \<open>A body is what arrives, or breaks off.\<close>

datatype incoming_body = Readable rstr | Broken rstr

record http_request =
  rq_method :: rstr
  rq_path :: rstr
  rq_headers :: "(rstr \<times> rstr) list"
  rq_body :: incoming_body

record http_response =
  rs_status :: nat
  rs_body :: rstr

definition respond :: "nat \<Rightarrow> rstr \<Rightarrow> http_response" where
  "respond status_code body = \<lparr>rs_status = status_code, rs_body = body\<rparr>"

text \<open>\<open>axum::body::to_bytes\<close>: the whole body, if it can be read and is within the limit.\<close>

definition max_webhook_body_bytes :: nat where
  "max_webhook_body_bytes = 1024 * 1024"

definition to_bytes :: "incoming_body \<Rightarrow> nat \<Rightarrow> (rstr, rstr) result" where
  "to_bytes body limit =
     (case body of
        Readable b \<Rightarrow> if length b \<le> limit then Inr b else Inl ''length limit exceeded''
      | Broken err \<Rightarrow> Inl err)"

section \<open>The challenge\<close>

record webhook_query =
  hub_mode :: "rstr option"
  hub_verify_token :: "rstr option"
  hub_challenge :: "rstr option"

definition verify_webhook_challenge :: "rstr \<Rightarrow> webhook_query \<Rightarrow> http_response" where
  "verify_webhook_challenge expected_verify_token query =
     (if hub_mode query \<noteq> Some ''subscribe'' then respond 400 ''unsupported webhook verification mode''
      else if hub_verify_token query \<noteq> Some expected_verify_token then respond 403 ''webhook verify token mismatch''
      else case hub_challenge query of
             Some challenge \<Rightarrow> respond 200 challenge
           | None \<Rightarrow> respond 400 ''missing webhook challenge'')"

section \<open>The signature\<close>

text \<open>\<open>hdr_str\<close> is \<open>HeaderValue::to_str\<close>, \<open>mac_new\<close> whether a key is accepted, \<open>mac_verify\<close> the
  check of a tag.\<close>

record mac_ops =
  hdr_str :: "rstr \<Rightarrow> rstr option"
  hex_decode :: "rstr \<Rightarrow> rstr option"
  mac_new :: "rstr \<Rightarrow> bool"
  mac_verify :: "rstr \<Rightarrow> rstr \<Rightarrow> rstr \<Rightarrow> bool"

definition hmac_law :: "mac_ops \<Rightarrow> (rstr \<Rightarrow> rstr \<Rightarrow> rstr) \<Rightarrow> bool" where
  "hmac_law ops hmac \<longleftrightarrow> (\<forall>k b t. mac_verify ops k b t \<longleftrightarrow> t = hmac k b)"

definition signature_header :: rstr where
  "signature_header = ''x-hub-signature-256''"

definition verify_meta_signature :: "mac_ops \<Rightarrow> rstr \<Rightarrow> (rstr \<times> rstr) list \<Rightarrow> rstr \<Rightarrow> (rstr, unit) result" where
  "verify_meta_signature ops secret headers body =
     bind_res (ok_or ''missing X-Hub-Signature-256 header'' (map_of headers signature_header)) (\<lambda>value.
     bind_res (ok_or ''X-Hub-Signature-256 is not valid ASCII'' (hdr_str ops value)) (\<lambda>sig_text.
     bind_res (ok_or ''X-Hub-Signature-256 must start with sha256='' (strip_pre ''sha256='' sig_text)) (\<lambda>digits.
     bind_res (ok_or ''X-Hub-Signature-256 is not valid hexadecimal'' (hex_decode ops digits)) (\<lambda>tag.
     if \<not> mac_new ops secret then Inl ''app secret cannot initialize HMAC-SHA256''
     else if mac_verify ops secret body tag then Inr ()
     else Inl ''signature does not match the request body''))))"

section \<open>Status-only deliveries\<close>

record status_error =
  se_code :: "nat option"
  se_title :: "rstr option"
  se_message :: "rstr option"

record status_update =
  su_id :: rstr
  su_status :: rstr
  su_callback :: "rstr option"
  su_errors :: "status_error list"

record status_value =
  sv_statuses :: "status_update list option"
  sv_messages :: "json option"

record status_change = sc_value :: status_value
record status_entry = se_changes :: "status_change list"

record status_envelope =
  env_object :: rstr
  env_entry :: "status_entry list"

text \<open>The inner and the outer loop; \<open>None\<close> is the \<open>return None\<close> in them.\<close>

fun collect_changes :: "status_change list \<Rightarrow> status_update list \<Rightarrow> status_update list option" where
  "collect_changes [] updates = Some updates"
| "collect_changes (c # cs) updates =
     (if sv_messages (sc_value c) \<noteq> None then None
      else case sv_statuses (sc_value c) of
             None \<Rightarrow> None
           | Some statuses \<Rightarrow> collect_changes cs (updates @ statuses))"

fun collect_entries :: "status_entry list \<Rightarrow> status_update list \<Rightarrow> status_update list option" where
  "collect_entries [] updates = Some updates"
| "collect_entries (e # es) updates = Option.bind (collect_changes (se_changes e) updates) (collect_entries es)"

definition status_updates_if_only :: "(rstr \<Rightarrow> (rstr, status_envelope) result) \<Rightarrow> rstr \<Rightarrow> status_update list option" where
  "status_updates_if_only envelope_of body =
     (case envelope_of body of
        Inl _ \<Rightarrow> None
      | Inr envelope \<Rightarrow>
          if env_object envelope \<noteq> ''whatsapp_business_account'' then None
          else Option.bind (collect_entries (env_entry envelope) [])
                 (\<lambda>updates. if updates \<noteq> [] then Some updates else None))"

section \<open>A delivery\<close>

record webhook_crates =
  wc_mac :: mac_ops
  wc_json :: json_ops
  wc_envelope :: "rstr \<Rightarrow> (rstr, status_envelope) result"

type_synonym 's service = "http_request \<Rightarrow> 's \<Rightarrow> http_response \<times> 's"

definition remove_header :: "rstr \<Rightarrow> (rstr \<times> rstr) list \<Rightarrow> (rstr \<times> rstr) list" where
  "remove_header name hs = filter (\<lambda>h. fst h \<noteq> name) hs"

definition handle_signed_webhook :: "webhook_crates \<Rightarrow> rstr \<Rightarrow> 's service \<Rightarrow> 's service" where
  "handle_signed_webhook crates secret serve req s =
     (case to_bytes (rq_body req) max_webhook_body_bytes of
        Inl _ \<Rightarrow> (respond 413 ''Webhook body is unreadable or exceeds 1 MiB'', s)
      | Inr body \<Rightarrow>
          (case verify_meta_signature (wc_mac crates) secret (rq_headers req) body of
             Inl _ \<Rightarrow> (respond 401 ''Webhook signature verification failed'', s)
           | Inr _ \<Rightarrow>
               (case status_updates_if_only (wc_envelope crates) body of
                  Some _ \<Rightarrow> (respond 200 [], s)
                | None \<Rightarrow>
                    (case normalize_template_quick_reply_callbacks (wc_json crates) body of
                       Inr (Some normalized) \<Rightarrow>
                         serve (req\<lparr>rq_headers := remove_header ''content-length'' (rq_headers req),
                                  rq_body := Readable normalized\<rparr>) s
                     | Inr None \<Rightarrow> serve (req\<lparr>rq_body := Readable body\<rparr>) s
                     | Inl _ \<Rightarrow> (respond 400 ''Invalid template quick-reply callback'', s)))))"

definition handle_unmatched_webhook_route :: "http_request \<Rightarrow> http_response" where
  "handle_unmatched_webhook_route req = respond 404 ''No WhatsApp webhook route matches this path''"

text \<open>Where axum takes a request to, on a router with one route: \<open>get(..).post(..)\<close>, the fallback,
  or an answer of its own.\<close>

datatype endpoint = Challenge webhook_query | Delivery | Unmatched | AxumAnswer http_response

definition axum_law :: "(rstr \<Rightarrow> http_request \<Rightarrow> endpoint) \<Rightarrow> bool" where
  "axum_law axum \<longleftrightarrow> (\<forall>route req. axum route req = Delivery \<longleftrightarrow> rq_method req = ''POST'' \<and> rq_path req = route)"

definition webhook_app ::
  "webhook_crates \<Rightarrow> (rstr \<Rightarrow> http_request \<Rightarrow> endpoint) \<Rightarrow> rstr \<Rightarrow> rstr \<Rightarrow> rstr \<Rightarrow> 's service \<Rightarrow> 's service" where
  "webhook_app crates axum route verify_token secret serve req s =
     (case axum route req of
        Challenge query \<Rightarrow> (verify_webhook_challenge verify_token query, s)
      | Delivery \<Rightarrow> handle_signed_webhook crates secret serve req s
      | Unmatched \<Rightarrow> (handle_unmatched_webhook_route req, s)
      | AxumAnswer response \<Rightarrow> (response, s))"

section \<open>What the webhook guarantees\<close>

text \<open>A delivery Meta signed: it is posted to the route, can be read within the limit, and carries the
  tag of its body under the app's secret.\<close>

definition signed_by_meta :: "mac_ops \<Rightarrow> (rstr \<Rightarrow> rstr \<Rightarrow> rstr) \<Rightarrow> rstr \<Rightarrow> (rstr \<times> rstr) list \<Rightarrow> rstr \<Rightarrow> bool" where
  "signed_by_meta ops hmac secret headers body \<longleftrightarrow>
     (\<exists>value digits. map_of headers signature_header = Some value \<and>
        hdr_str ops value = Some (''sha256='' @ digits) \<and> hex_decode ops digits = Some (hmac secret body)) \<and>
     mac_new ops secret"

lemma signature_ok:
  "hmac_law ops hmac \<Longrightarrow>
     verify_meta_signature ops secret headers body = Inr () \<longleftrightarrow> signed_by_meta ops hmac secret headers body"
  by (auto simp: verify_meta_signature_def signed_by_meta_def hmac_law_def strip_pre_Some split: if_splits)
    (simp add: strip_pre_def)

definition genuine :: "mac_ops \<Rightarrow> (rstr \<Rightarrow> rstr \<Rightarrow> rstr) \<Rightarrow> rstr \<Rightarrow> rstr \<Rightarrow> http_request \<Rightarrow> bool" where
  "genuine ops hmac secret route req \<longleftrightarrow>
     rq_method req = ''POST'' \<and> rq_path req = route \<and>
     (\<exists>body. rq_body req = Readable body \<and> length body \<le> max_webhook_body_bytes \<and>
        signed_by_meta ops hmac secret (rq_headers req) body)"

lemma to_bytes_Inr: "to_bytes b n = Inr body \<longleftrightarrow> b = Readable body \<and> length body \<le> n"
  by (auto simp: to_bytes_def split: incoming_body.splits)

lemma not_genuine_kept:
  assumes "hmac_law (wc_mac crates) hmac" "axum_law axum" "\<not> genuine (wc_mac crates) hmac secret route req"
  shows "snd (webhook_app crates axum route token secret serve req s) = s"
proof (cases "axum route req")
  case Delivery
  with assms(2) have "rq_method req = ''POST''" "rq_path req = route" by (auto simp: axum_law_def)
  with assms(1,3) have "verify_meta_signature (wc_mac crates) secret (rq_headers req) body \<noteq> Inr ()"
    if "to_bytes (rq_body req) max_webhook_body_bytes = Inr body" for body
    using that by (auto simp: genuine_def to_bytes_Inr signature_ok)
  with Delivery show ?thesis
    by (auto simp: webhook_app_def handle_signed_webhook_def split: sum.split)
qed (simp_all add: webhook_app_def)

text \<open>C12: Forged traffic has no effect. Whatever requests arrive, in whatever order, the bot ends in the
  state it would have reached had only the genuine deliveries arrived: those posted to the route,
  within 1 MiB, with the HMAC of their body under the app's secret.\<close>

theorem forged_requests_change_nothing:
  assumes "hmac_law (wc_mac crates) hmac" "axum_law axum"
  shows "snd (map_state (webhook_app crates axum route token secret serve) reqs s) =
    snd (map_state (webhook_app crates axum route token secret serve)
      (filter (genuine (wc_mac crates) hmac secret route) reqs) s)"
proof (induction reqs arbitrary: s)
  case (Cons req reqs)
  then show ?case
    using not_genuine_kept [OF assms, of secret route req token serve s]
    by (auto simp: Let_def case_prod_beta)
qed simp

text \<open>What the service gets.\<close>

definition passed_on :: "webhook_crates \<Rightarrow> http_request \<Rightarrow> rstr \<Rightarrow> http_request option" where
  "passed_on crates req body =
     (case normalize_template_quick_reply_callbacks (wc_json crates) body of
        Inl _ \<Rightarrow> None
      | Inr None \<Rightarrow> Some req
      | Inr (Some normalized) \<Rightarrow>
          Some (req\<lparr>rq_headers := remove_header ''content-length'' (rq_headers req), rq_body := Readable normalized\<rparr>))"

text \<open>C13: No genuine delivery is lost on the way: one that is not purely a list of statuses is given to the
  service exactly once, as it came (or with its template clicks adapted and its length header dropped),
  and the service's own response is what Meta gets; only a malformed template click is refused, with 400.\<close>

theorem genuine_deliveries_served:
  assumes "hmac_law (wc_mac crates) hmac" "axum_law axum" "genuine (wc_mac crates) hmac secret route req"
    and "rq_body req = Readable body" "status_updates_if_only (wc_envelope crates) body = None"
  shows "webhook_app crates axum route token secret serve req s =
    (case passed_on crates req body of
       Some req' \<Rightarrow> serve req' s
     | None \<Rightarrow> (respond 400 ''Invalid template quick-reply callback'', s))"
proof -
  from assms(3,4) have r: "rq_method req = ''POST''" "rq_path req = route" "length body \<le> max_webhook_body_bytes"
    "signed_by_meta (wc_mac crates) hmac secret (rq_headers req) body"
    by (auto simp: genuine_def)
  have "axum route req = Delivery" using assms(2) r by (simp add: axum_law_def)
  moreover have "to_bytes (rq_body req) max_webhook_body_bytes = Inr body"
    using assms(4) r(3) by (simp add: to_bytes_Inr)
  moreover have "verify_meta_signature (wc_mac crates) secret (rq_headers req) body = Inr ()"
    using signature_ok [OF assms(1)] r(4) by blast
  moreover have "req\<lparr>rq_body := Readable body\<rparr> = req" using assms(4) by simp
  ultimately show ?thesis
    using assms(5)
    by (auto simp: webhook_app_def handle_signed_webhook_def passed_on_def split: sum.split option.split)
qed

definition all_changes :: "status_envelope \<Rightarrow> status_change list" where
  "all_changes envelope = concat (map se_changes (env_entry envelope))"

lemma collect_changes_Some:
  "collect_changes cs acc = Some us \<longleftrightarrow>
     (\<forall>c\<in>set cs. sv_messages (sc_value c) = None \<and> sv_statuses (sc_value c) \<noteq> None) \<and>
     us = acc @ concat (map (\<lambda>c. the (sv_statuses (sc_value c))) cs)"
  by (induction cs arbitrary: acc) (auto split: option.split)

lemma collect_entries_changes:
  "collect_entries es acc = collect_changes (concat (map se_changes es)) acc"
proof (induction es arbitrary: acc)
  case (Cons e es)
  have "collect_changes (cs @ ds) acc = Option.bind (collect_changes cs acc) (collect_changes ds)" for cs ds acc
    by (induction cs arbitrary: acc) (auto split: option.split)
  moreover have "collect_entries es = collect_changes (concat (map se_changes es))" by (rule ext) (rule Cons.IH)
  ultimately show ?case by simp
qed simp

text \<open>The example answers a delivery itself only when that loses nothing: exactly when the delivery is
  for a WhatsApp account, no change in it carries a message, every change carries statuses, and there is
  at least one; and then it has all statuses of the delivery, in their order.\<close>

theorem only_pure_statuses_are_kept_back:
  "status_updates_if_only envelope_of body = Some us \<longleftrightarrow>
     (\<exists>envelope. envelope_of body = Inr envelope \<and> env_object envelope = ''whatsapp_business_account'' \<and>
        (\<forall>c\<in>set (all_changes envelope). sv_messages (sc_value c) = None \<and> sv_statuses (sc_value c) \<noteq> None) \<and>
        us = concat (map (\<lambda>c. the (sv_statuses (sc_value c))) (all_changes envelope)) \<and> us \<noteq> [])"
  unfolding status_updates_if_only_def collect_entries_changes all_changes_def
  by (auto simp: Option.bind_eq_Some_conv collect_changes_Some split: sum.splits if_splits)

section \<open>Concrete deliveries\<close>

definition sample_crates :: webhook_crates where
  "sample_crates =
     \<lparr>wc_mac = \<lparr>hdr_str = Some, hex_decode = Some, mac_new = (\<lambda>_. True), mac_verify = (\<lambda>k b t. t = k @ b)\<rparr>,
      wc_json = sample_js,
      wc_envelope = (\<lambda>_. Inl ''not a status envelope'')\<rparr>"

definition sample_axum :: "rstr \<Rightarrow> http_request \<Rightarrow> endpoint" where
  "sample_axum route req = (if rq_method req = ''POST'' \<and> rq_path req = route then Delivery else Unmatched)"

definition sample_request :: "rstr \<Rightarrow> http_request" where
  "sample_request signature =
     \<lparr>rq_method = ''POST'', rq_path = ''/webhook'', rq_headers = [(''x-hub-signature-256'', signature)],
      rq_body = Readable ''click''\<rparr>"

definition logging_service :: "http_request list service" where
  "logging_service req s = (respond 200 [], s @ [req])"

definition sample_app :: "http_request list service" where
  "sample_app = webhook_app sample_crates sample_axum ''/webhook'' ''token'' ''key'' logging_service"

definition sample_genuine :: "http_request \<Rightarrow> bool" where
  "sample_genuine req \<longleftrightarrow>
     rq_method req = ''POST'' \<and> rq_path req = ''/webhook'' \<and>
     (case rq_body req of Readable b \<Rightarrow> length b \<le> max_webhook_body_bytes \<and>
        map_of (rq_headers req) signature_header = Some (''sha256=key'' @ b) | Broken _ \<Rightarrow> False)"

lemma sample_laws: "hmac_law (wc_mac sample_crates) (@)" "axum_law sample_axum"
  by (simp_all add: hmac_law_def axum_law_def sample_crates_def sample_axum_def)

lemma sample_genuine_eq: "genuine (wc_mac sample_crates) (@) ''key'' ''/webhook'' = sample_genuine"
  by (auto simp: fun_eq_iff genuine_def sample_genuine_def signed_by_meta_def sample_crates_def split: incoming_body.splits)

lemma forged_requests_change_nothing_witness:
  "snd (map_state sample_app [sample_request ''sha256=forged'', sample_request ''sha256=keyclick''] []) =
   snd (map_state sample_app [sample_request ''sha256=keyclick''] [])"
proof -
  have "filter sample_genuine [sample_request ''sha256=forged'', sample_request ''sha256=keyclick''] =
      [sample_request ''sha256=keyclick'']"
    by (simp add: sample_genuine_def sample_request_def signature_header_def max_webhook_body_bytes_def)
  then show ?thesis
    using forged_requests_change_nothing [OF sample_laws, of "''/webhook''" "''token''" "''key''" logging_service
        "[sample_request ''sha256=forged'', sample_request ''sha256=keyclick'']" "[]"]
    by (simp only: sample_app_def sample_genuine_eq)
qed

lemma genuine_deliveries_served_witness:
  "sample_app (sample_request ''sha256=keyclick'') [] =
     (respond 200 [], [sample_request ''sha256=keyclick''\<lparr>rq_body := Readable ''adapted''\<rparr>])"
proof -
  have "genuine (wc_mac sample_crates) (@) ''key'' ''/webhook'' (sample_request ''sha256=keyclick'')"
    by (simp add: sample_genuine_eq sample_genuine_def sample_request_def signature_header_def max_webhook_body_bytes_def)
  note served = genuine_deliveries_served [OF sample_laws this, of "''click''" "''token''" logging_service "[]"]
  have "passed_on sample_crates (sample_request ''sha256=keyclick'') ''click'' =
      Some (sample_request ''sha256=keyclick''\<lparr>rq_body := Readable ''adapted''\<rparr>)"
    using sample_adapted
    by (simp add: passed_on_def sample_crates_def sample_request_def remove_header_def)
  with served show ?thesis
    by (simp add: sample_app_def logging_service_def sample_request_def sample_crates_def status_updates_if_only_def)
qed

definition delivered_status :: status_update where
  "delivered_status = \<lparr>su_id = ''wamid.1'', su_status = ''delivered'', su_callback = None, su_errors = []\<rparr>"

lemma only_pure_statuses_are_kept_back_witness:
  "status_updates_if_only (\<lambda>_. Inr \<lparr>env_object = ''whatsapp_business_account'',
     env_entry = [\<lparr>se_changes = [\<lparr>sc_value = \<lparr>sv_statuses = Some [delivered_status], sv_messages = None\<rparr>\<rparr>]\<rparr>]\<rparr>) ''status''
   = Some [delivered_status]"
  by (subst only_pure_statuses_are_kept_back) (simp add: all_changes_def)

end
