(* ===== verification/WhatsappServer.thy ===== *)
theory WhatsappServer
  imports WhatsappDemo WhatsappWebhook
begin

text \<open>
  The modes of the WhatsApp example, \<open>src/examples/whatsapp_demoscene.rs\<close>: sending the demos, the
  approved template and the batch, serving the webhook, registering it with Meta, and the HTTPS
  listener. The Graph API client, the HTTP client, sockets and axum's server are the record
  \<open>net_ops\<close>; what is printed is not modelled.
\<close>

section \<open>The outside world\<close>

text \<open>The two applications the example serves: the verifier, and the verifier with deliveries.\<close>

datatype served_app = VerifierApp rstr rstr | FullApp rstr rstr rstr

text \<open>\<open>batch_execute\<close> answers what \<open>flatten\<close> makes of its output; \<open>join_server\<close> is \<open>Inl\<close> when the task
  could not be joined and otherwise the server's own result.\<close>

record ('u, 'a, 't, 'c, 's) net_ops =
  connect_token :: "rstr \<Rightarrow> (rstr, 's, 'c) job"
  connect_app :: "rstr \<Rightarrow> rstr \<Rightarrow> (rstr, 's, 'c) job"
  send_draft :: "'c \<Rightarrow> rstr \<Rightarrow> rstr \<Rightarrow> draft \<Rightarrow> (rstr, 's, unit) job"
  batch_execute :: "'c \<Rightarrow> rstr \<Rightarrow> rstr \<Rightarrow> draft \<Rightarrow> draft \<Rightarrow>
    (rstr, 's, (rstr, (rstr, unit) result \<times> (rstr, unit) result) result) job"
  configure_webhook :: "'c \<Rightarrow> rstr \<Rightarrow> rstr \<Rightarrow> 'u \<Rightarrow> (rstr, 's, unit) job"
  http_client_build :: "(rstr, unit) result"
  post_json :: "rstr \<Rightarrow> rstr \<Rightarrow> json \<Rightarrow> (rstr, 's, nat) job"
  response_text :: "(rstr, 's, rstr) job"
  parse_message_ids :: "rstr \<Rightarrow> (rstr, rstr list) result"
  bind_listener :: "'a \<Rightarrow> (rstr, 's, unit) job"
  listener_addr :: "(rstr, 's, 'a) job"
  axum_serve :: "'t option \<Rightarrow> served_app \<Rightarrow> (rstr, 's, unit) job"
  spawn_server :: "'t option \<Rightarrow> served_app \<Rightarrow> 's \<Rightarrow> 's"
  wait_for_listener :: "'s \<Rightarrow> 's"
  signal_shutdown :: "'s \<Rightarrow> 's"
  join_server :: "(rstr, 's, (rstr, unit) result) job"

definition blaming :: "rstr \<Rightarrow> (rstr, 's, 'x) job \<Rightarrow> (wa_error, 's, 'x) job" where
  "blaming what = job_map_err (\<lambda>err. WaError (''WhatsApp demoscene: '' @ what @ err))"

section \<open>Clients\<close>

definition whatsapp_client :: "('u, 'a, 't, 'c, 's) net_ops \<Rightarrow> ('u, 'a) wa_config \<Rightarrow> (wa_error, 's, 'c) job" where
  "whatsapp_client net c =
     job_bind (job_lift (access_token c)) (\<lambda>token.
     blaming ''building WhatsApp send/reply client failed: '' (connect_token net token))"

definition app_client :: "('u, 'a, 't, 'c, 's) net_ops \<Rightarrow> ('u, 'a) wa_config \<Rightarrow> (wa_error, 's, 'c) job" where
  "app_client net c =
     job_bind (job_lift (webhook_registration c)) (\<lambda>registration.
     job_bind (job_lift (app_secret c)) (\<lambda>secret.
     blaming ''building Meta app client failed: '' (connect_app net (reg_app_id registration) secret)))"

section \<open>Sending\<close>

definition checked :: "crate_ops \<Rightarrow> draft \<Rightarrow> (wa_error, unit) result" where
  "checked crate d = map_err WaError (validate_demo_draft (crate_footer crate) d)"

definition no_preview_draft :: draft where
  "no_preview_draft =
     Draft (TextDraft ''OgreRobot Demoscene: text message with no link preview'')
       [PreviewUrl False, BizOpaqueCallbackData ''whatsapp-demoscene:text'']"

definition send_demos ::
  "crate_ops \<Rightarrow> ('u, 'a, 't, 'c, 's) net_ops \<Rightarrow> ('u, 'a) wa_config \<Rightarrow> 'c \<Rightarrow> (wa_error, 's, unit) job" where
  "send_demos crate net c client =
     job_bind (job_lift (outbound c)) (\<lambda>out.
     let send = (\<lambda>what d. blaming what (send_draft net client (out_phone_number_id out) (out_recipient out) d)) in
     job_bind (send ''sending text demo failed: '' no_preview_draft) (\<lambda>_.
     job_bind (send ''sending formatted-text demo failed: '' formatted_text_draft) (\<lambda>_.
     job_bind (job_lift (checked crate menu_draft)) (\<lambda>_.
     job_bind (send ''sending quick-reply menu failed: '' menu_draft) (\<lambda>_.
     job_bind (job_lift (checked crate list_draft)) (\<lambda>_.
     job_bind (send ''sending list demo failed: '' list_draft) (\<lambda>_.
     job_bind (job_lift (checked crate cta_draft)) (\<lambda>_.
     job_bind (send ''sending CTA demo failed: '' cta_draft) (\<lambda>_.
     job_bind (send ''sending location demo failed: '' location_draft) (\<lambda>_.
     job_bind (job_lift (checked crate location_request_draft)) (\<lambda>_.
     job_bind (send ''sending location-request demo failed: '' location_request_draft) (\<lambda>_.
     job_bind (job_lift (map_err WaError (embedded_media_drafts (crate_mime crate)))) (\<lambda>samples.
     job_iter (\<lambda>(what, d) _. send (''sending '' @ what @ '' demo failed: '') d) samples ())))))))))))))"

definition meta_graph_api_version :: rstr where
  "meta_graph_api_version = ''24.0''"

definition template_endpoint :: "outbound_config \<Rightarrow> rstr" where
  "template_endpoint out =
     ''https://graph.facebook.com/v'' @ meta_graph_api_version @ ''/'' @ out_phone_number_id out @ ''/messages''"

definition template_button :: "rstr \<Rightarrow> rstr \<Rightarrow> json" where
  "template_button index callback =
     JObject [(''index'', JString index),
       (''parameters'', JArray [JObject [(''payload'', JString callback), (''type'', JString ''payload'')]]),
       (''sub_type'', JString ''quick_reply''), (''type'', JString ''button'')]"

definition template_demo_payload :: "outbound_config \<Rightarrow> template_config \<Rightarrow> json" where
  "template_demo_payload out template =
     JObject [(''messaging_product'', JString ''whatsapp''), (''recipient_type'', JString ''individual''),
       (''template'', JObject
         [(''components'', JArray
            [template_button ''0'' ''demo:list'', template_button ''1'' ''demo:location'',
             template_button ''2'' ''demo:inspect'']),
          (''language'', JObject [(''code'', JString (tpl_language template))]),
          (''name'', JString (tpl_name template))]),
       (''to'', JString (out_recipient out)), (''type'', JString ''template'')]"

definition is_success :: "nat \<Rightarrow> bool" where
  "is_success status \<longleftrightarrow> 200 \<le> status \<and> status < 300"

text \<open>The error of a refused template holds the status and the body of the response.\<close>

definition send_template_demo ::
  "('u, 'a, 't, 'c, 's) net_ops \<Rightarrow> ('u, 'a) wa_config \<Rightarrow> (wa_error, 's, rstr) job" where
  "send_template_demo net c =
     job_bind (job_lift (outbound c)) (\<lambda>out.
     job_bind (job_lift (template_of c)) (\<lambda>template.
     job_bind (blaming ''building approved-template HTTP client failed: '' (job_lift (http_client_build net))) (\<lambda>_.
     job_bind (job_lift (access_token c)) (\<lambda>token.
     job_bind (blaming ''sending approved-template demo failed: ''
       (post_json net (template_endpoint out) token (template_demo_payload out template))) (\<lambda>status.
     job_bind (blaming ''reading approved-template response failed: '' (response_text net)) (\<lambda>body.
     if \<not> is_success status
     then job_fail (WaError (''WhatsApp demoscene: approved-template send returned HTTP '' @ show_nat status @ '': '' @ body))
     else
       job_bind (blaming ''approved-template response was not understood: ''
         (job_map_err (\<lambda>err. err @ ''; response='' @ body) (job_lift (parse_message_ids net body)))) (\<lambda>ids.
       case ids of
         [] \<Rightarrow> job_fail (WaError ''WhatsApp demoscene: approved-template response contained no message ID'')
       | i # _ \<Rightarrow> job_return i)))))))"

definition print_batch_result :: "rstr \<Rightarrow> (rstr, unit) result \<Rightarrow> (wa_error, unit) result" where
  "print_batch_result what r = map_err (\<lambda>err. WaError (''WhatsApp demoscene: '' @ what @ '' failed inside batch: '' @ err)) r"

definition send_batch_demo ::
  "('u, 'a, 't, 'c, 's) net_ops \<Rightarrow> ('u, 'a) wa_config \<Rightarrow> 'c \<Rightarrow> (wa_error, 's, unit) job" where
  "send_batch_demo net c client =
     job_bind (job_lift (outbound c)) (\<lambda>out.
     job_bind (blaming ''batch request failed: ''
       (batch_execute net client (out_phone_number_id out) (out_recipient out)
         (text_draft ''OgreRobot WhatsApp Demoscene batch: first message.'')
         (text_draft ''OgreRobot WhatsApp Demoscene batch: second message.''))) (\<lambda>output.
     job_bind (blaming ''parsing batch response failed: '' (job_lift output)) (\<lambda>(first, second).
     job_bind (job_lift (print_batch_result ''batch first'' first)) (\<lambda>_.
     job_lift (print_batch_result ''batch second'' second)))))"

section \<open>Registering and serving\<close>

definition register_webhook ::
  "('u, 'a, 't, 'c, 's) net_ops \<Rightarrow> ('u, 'a) wa_config \<Rightarrow> 'c \<Rightarrow> (wa_error, 's, unit) job" where
  "register_webhook net c client =
     job_bind (job_lift (webhook_registration c)) (\<lambda>registration.
     blaming ''registering webhook failed: ''
       (configure_webhook net client (reg_app_id registration) (reg_verify_token registration) (reg_public_url registration)))"

text \<open>Awaiting the server itself, and the result of the spawned one.\<close>

definition server_failed :: "'t option \<Rightarrow> rstr \<Rightarrow> wa_error" where
  "server_failed tls err = WaError (''WhatsApp demoscene: '' @ transport_name tls @ '' webhook server failed: '' @ err)"

definition run_webhook_server ::
  "('u, 'a, 't, 'c, 's) net_ops \<Rightarrow> 't option \<Rightarrow> served_app \<Rightarrow> (wa_error, 's, unit) job" where
  "run_webhook_server net tls app = job_map_err (server_failed tls) (axum_serve net tls app)"

definition await_server_task ::
  "('u, 'a, 't, 'c, 's) net_ops \<Rightarrow> 't option \<Rightarrow> rstr \<Rightarrow> (wa_error, 's, unit) job" where
  "await_server_task net tls what =
     job_bind (blaming what (join_server net)) (\<lambda>server_result. job_lift (map_err (server_failed tls) server_result))"

definition register_webhook_with_temporary_server ::
  "('u wa_url_ops \<times> 'a socket_ops \<times> ('x, 'k, 't) tls_ops) \<Rightarrow> ('u, 'a, 't, 'c, 's) net_ops \<Rightarrow> ('u, 'a) wa_config \<Rightarrow> 'c \<Rightarrow>
     (wa_error, 's, unit) job" where
  "register_webhook_with_temporary_server ops net c client =
     (case ops of (uops, sops, tops) \<Rightarrow>
     job_bind (job_lift (webhook_verify_token c)) (\<lambda>verify_token.
     job_bind (job_lift (webhook_public_url c)) (\<lambda>_.
     job_bind (job_lift (webhook_route uops c)) (\<lambda>route.
     job_bind (job_lift (webhook_tls_config tops c)) (\<lambda>tls.
     job_bind (job_lift (webhook_bind_address uops sops c)) (\<lambda>addr.
     job_bind (blaming ''couldn't bind temporary webhook verification listener: '' (bind_listener net addr)) (\<lambda>_.
     job_bind (blaming ''couldn't read temporary webhook verification listener address: '' (listener_addr net)) (\<lambda>_.
     (\<lambda>s.
        case register_webhook net c client (wait_for_listener net (spawn_server net tls (VerifierApp route verify_token) s)) of
          (registration_result, s1) \<Rightarrow>
            (registration_result,
             job_ignore (await_server_task net tls ''temporary verifier task failed to join: '') (signal_shutdown net s1)))))))))))"

definition serve_webhook ::
  "('u wa_url_ops \<times> 'a socket_ops \<times> ('x, 'k, 't) tls_ops) \<Rightarrow> ('u, 'a, 't, 'c, 's) net_ops \<Rightarrow> ('u, 'a) wa_config \<Rightarrow>
     'c option \<Rightarrow> (wa_error, 's, unit) job" where
  "serve_webhook ops net c registrar =
     (case ops of (uops, sops, tops) \<Rightarrow>
     job_bind (job_lift (webhook_verify_token c)) (\<lambda>verify_token.
     job_bind (job_lift (app_secret c)) (\<lambda>secret.
     job_bind (job_lift (webhook_public_url c)) (\<lambda>_.
     job_bind (job_lift (webhook_route uops c)) (\<lambda>route.
     job_bind (job_lift (webhook_tls_config tops c)) (\<lambda>tls.
     job_bind (job_lift (webhook_bind_address uops sops c)) (\<lambda>addr.
     job_bind (blaming ''couldn't bind webhook listener: '' (bind_listener net addr)) (\<lambda>_.
     job_bind (blaming ''couldn't read webhook listener address: '' (listener_addr net)) (\<lambda>_.
     case registrar of
       None \<Rightarrow> run_webhook_server net tls (FullApp route verify_token secret)
     | Some client \<Rightarrow>
         (\<lambda>s.
            case register_webhook net c client
                (wait_for_listener net (spawn_server net tls (FullApp route verify_token secret) s)) of
              (Inl err, s1) \<Rightarrow>
                (Inl err,
                 job_ignore (await_server_task net tls ''webhook task failed to join after registration failure: '')
                   (signal_shutdown net s1))
            | (Inr _, s1) \<Rightarrow> await_server_task net tls ''webhook task failed to join: '' s1))))))))))"

definition run_mode ::
  "crate_ops \<Rightarrow> ('u wa_url_ops \<times> 'a socket_ops \<times> ('x, 'k, 't) tls_ops) \<Rightarrow> ('u, 'a, 't, 'c, 's) net_ops \<Rightarrow>
     ('u, 'a) wa_config \<Rightarrow> wa_mode \<Rightarrow> (wa_error, 's, unit) job" where
  "run_mode crate ops net c mode =
     (case mode of
        ModeSend \<Rightarrow> job_bind (whatsapp_client net c) (send_demos crate net c)
      | ModeSendTemplate \<Rightarrow> job_bind (send_template_demo net c) (\<lambda>_. job_return ())
      | ModeSendBatch \<Rightarrow> job_bind (whatsapp_client net c) (send_batch_demo net c)
      | ModeServe \<Rightarrow> job_bind (whatsapp_client net c) (\<lambda>_. serve_webhook ops net c None)
      | ModeRegisterWebhook \<Rightarrow> job_bind (app_client net c) (register_webhook_with_temporary_server ops net c)
      | ModeServeAndRegister \<Rightarrow>
          job_bind (whatsapp_client net c) (\<lambda>_.
          job_bind (app_client net c) (\<lambda>client. serve_webhook ops net c (Some client)))
      | ModeHelp \<Rightarrow> job_return ())"

definition main ::
  "crate_ops \<Rightarrow> ('u wa_url_ops \<times> 'a socket_ops \<times> ('x, 'k, 't) tls_ops) \<Rightarrow> ('u, 'a, 't, 'c, 's) net_ops \<Rightarrow>
     rstr list \<Rightarrow> environment \<Rightarrow> (wa_error, 's, unit) job" where
  "main crate ops net args env =
     job_bind (job_lift (parse_mode args)) (\<lambda>mode.
     if mode = ModeHelp then job_return ()
     else
       job_bind (job_lift (from_env (fst ops) (fst (snd ops)) env)) (\<lambda>c. run_mode crate ops net c mode))"

section \<open>The HTTPS listener\<close>

text \<open>
  \<open>TlsListener::accept\<close> over what the TCP listener yields: a failed accept waits a second, a
  handshake is given ten. \<open>handshake\<close> says how long a client takes (in milliseconds) and how it ends;
  \<open>None\<close> is a listener that still waits. The last component is the time spent.
\<close>

definition handshake_timeout :: nat where
  "handshake_timeout = 10000"

fun https_accept ::
  "('x \<Rightarrow> nat \<times> (rstr, 't) result) \<Rightarrow> (rstr, 'x \<times> 'a) result list \<Rightarrow> nat \<Rightarrow>
     (('t \<times> 'a) \<times> (rstr, 'x \<times> 'a) result list \<times> nat) option" where
  "https_accept handshake [] spent = None"
| "https_accept handshake (Inl err # es) spent = https_accept handshake es (spent + 1000)"
| "https_accept handshake (Inr (stream, addr) # es) spent =
     (case handshake stream of (takes, r) \<Rightarrow>
        if takes < handshake_timeout
        then case r of
               Inr tls \<Rightarrow> Some ((tls, addr), es, spent + takes)
             | Inl err \<Rightarrow> https_accept handshake es (spent + takes)
        else https_accept handshake es (spent + handshake_timeout))"

end
