(* ===== verification/WhatsappAnswers.thy ===== *)
theory WhatsappAnswers
  imports WhatsappDemo
begin

text \<open>
  What the answers of the WhatsApp example guarantee: every button and list row leads to an
  answer of its own, every draft is within the platform's limit, and a shared location comes back
  south of where it was.
\<close>

section \<open>Callbacks\<close>

fun call_callback :: "draft_call \<Rightarrow> rstr option" where
  "call_callback (AddReplyButton i _) = Some i"
| "call_callback (AddListOption i _ _) = Some i"
| "call_callback _ = None"

definition callbacks_of :: "draft \<Rightarrow> rstr list" where
  "callbacks_of d = List.map_filter call_callback (draft_calls d)"

text \<open>Every draft that can be sent as an answer to the message \<open>m\<close>.\<close>

definition drafts_of :: "demo_action \<Rightarrow> draft list" where
  "drafts_of a = (case a of Reply d \<Rightarrow> [d] | Replies ds \<Rightarrow> ds | SwipeReply d \<Rightarrow> [d] | _ \<Rightarrow> [])"

definition click_on :: "rstr \<Rightarrow> wa_message \<Rightarrow> bool" where
  "click_on i m \<longleftrightarrow> wa_callback m = Some i \<and> (\<forall>l. wa_content m \<noteq> LocationContent l)"

lemma arm_drafts:
  "arm_action pm m arm = Inr a \<Longrightarrow> d \<in> set (drafts_of a) \<Longrightarrow>
     d \<in> {menu_draft, list_draft, database_benchmarks_draft, formatted_text_draft, location_draft, location_request_draft,
        cta_draft, inspect_message_draft m, echo_or_menu_draft m,
        text_draft ''This is a quoted (swipe-style) reply.'',
        text_draft ''Send any text and this demoscene will echo the primary text field.''} \<or>
     (\<exists>ds. embedded_media_drafts pm = Inr ds \<and> d \<in> snd ` set ds)"
  by (cases arm) (auto simp: arm_action_def drafts_of_def)

lemma media_drafts_plain:
  assumes "embedded_media_drafts pm = Inr ds" "d \<in> snd ` set ds"
  shows "callbacks_of d = []" and "given_footer d = None"
proof -
  have "\<exists>media c. snd x = Draft (MediaDraft media) [BizOpaqueCallbackData c]" if "x \<in> set ds" for x
    using assms(1) that
    by (auto simp: embedded_media_drafts_def embedded_media_draft_def elim!: bind_res_InrE)
  with assms(2) obtain media c where "d = Draft (MediaDraft media) [BizOpaqueCallbackData c]" by fastforce
  then show "callbacks_of d = []" and "given_footer d = None"
    by (simp_all add: callbacks_of_def map_filter_simps given_footer_def is_interactive_def makes_interactive_def)
qed

lemmas plain_drafts = formatted_text_draft_def location_draft_def location_request_draft_def inspect_message_draft_def
  echo_or_menu_draft_def text_draft_def then_call_def
lemmas interactive_drafts = menu_draft_def list_draft_def database_benchmarks_draft_def cta_draft_def

text \<open>The name each arm goes by on a button or in a list; the last arm has none.\<close>

fun arm_callback :: "command_arm \<Rightarrow> rstr" where
  "arm_callback ArmMenu = ''demo:menu''"
| "arm_callback ArmList = ''demo:list''"
| "arm_callback ArmBenchmarks = ''demo:benchmarks''"
| "arm_callback (ArmBenchmark Sqlite) = ''demo:benchmark:sqlite''"
| "arm_callback (ArmBenchmark Redb) = ''demo:benchmark:redb''"
| "arm_callback (ArmBenchmark Heed) = ''demo:benchmark:heed''"
| "arm_callback ArmFormatting = ''demo:formatting''"
| "arm_callback ArmMedia = ''demo:media''"
| "arm_callback ArmReaction = ''demo:reaction''"
| "arm_callback ArmQuote = ''demo:quote''"
| "arm_callback ArmLocation = ''demo:location''"
| "arm_callback ArmLocationRequest = ''demo:location-request''"
| "arm_callback ArmCta = ''demo:cta''"
| "arm_callback ArmInspect = ''demo:inspect''"
| "arm_callback ArmEcho = ''demo:echo''"
| "arm_callback ArmOther = []"

definition is_handled :: "rstr \<Rightarrow> bool" where
  "is_handled i \<longleftrightarrow>
     (let arm = command_arm (to_ascii_lowercase (trim i)) in arm \<notin> {ArmEcho, ArmOther} \<and> arm_callback arm = i)"

lemma callbacks_handled:
  "list_all is_handled (callbacks_of menu_draft)" "list_all is_handled (callbacks_of list_draft)"
  "list_all is_handled (callbacks_of database_benchmarks_draft)" "list_all is_handled (callbacks_of cta_draft)"
  by code_simp+

text \<open>What tells the answers of two arms apart: their kind, and the tags of a draft.\<close>

fun call_tag :: "draft_call \<Rightarrow> rstr option" where
  "call_tag (BizOpaqueCallbackData s) = Some s"
| "call_tag _ = None"

definition tags_of :: "draft \<Rightarrow> rstr list" where
  "tags_of d = List.map_filter call_tag (draft_calls d)"

definition answer_key :: "(rstr, demo_action) result \<Rightarrow> nat \<times> rstr list" where
  "answer_key res =
     (case res of
        Inl _ \<Rightarrow> (1, [])
      | Inr a \<Rightarrow>
          (case a of
             Reply d \<Rightarrow> (0, tags_of d)
           | Replies _ \<Rightarrow> (1, [])
           | ReactWith _ \<Rightarrow> (2, [])
           | SwipeReply _ \<Rightarrow> (3, [])
           | DatabaseBenchmark b \<Rightarrow> (4, [label b])))"

fun arm_key :: "command_arm \<Rightarrow> nat \<times> rstr list" where
  "arm_key ArmMedia = (1, [])"
| "arm_key ArmReaction = (2, [])"
| "arm_key ArmQuote = (3, [])"
| "arm_key (ArmBenchmark b) = (4, [label b])"
| "arm_key ArmMenu = (0, [''whatsapp-demoscene:menu''])"
| "arm_key ArmList = (0, [''whatsapp-demoscene:list''])"
| "arm_key ArmBenchmarks = (0, [''whatsapp-demoscene:database-benchmarks''])"
| "arm_key ArmFormatting = (0, [''whatsapp-demoscene:formatting''])"
| "arm_key ArmLocation = (0, [''whatsapp-demoscene:location''])"
| "arm_key ArmLocationRequest = (0, [''whatsapp-demoscene:location-request''])"
| "arm_key ArmCta = (0, [''whatsapp-demoscene:cta''])"
| "arm_key _ = (0, [])"

lemma answer_key_arm: "answer_key (arm_action pm m arm) = arm_key arm"
  by (cases arm)
     (auto simp: arm_action_def answer_key_def bind_res_def tags_of_def map_filter_simps plain_drafts interactive_drafts
        split: sum.splits option.splits)

lemma label_inject: "label b = label c \<Longrightarrow> b = c"
  by (cases b; cases c) simp_all

lemma arm_key_inject:
  assumes "arm_key a = arm_key b" "a \<notin> {ArmEcho, ArmOther}" "b \<notin> {ArmEcho, ArmOther}"
  shows "a = b"
  using assms by (cases a; cases b) (auto dest: label_inject)

lemma plain_callbacks:
  "callbacks_of formatted_text_draft = []" "callbacks_of location_draft = []" "callbacks_of location_request_draft = []"
  "callbacks_of (inspect_message_draft m) = []" "callbacks_of (echo_or_menu_draft m) = []" "callbacks_of (text_draft t) = []"
  by (simp_all add: plain_drafts callbacks_of_def map_filter_simps split: option.splits)

lemma shifted_callbacks: "shifted_location_draft l = Inr d \<Longrightarrow> callbacks_of d = [] \<and> given_footer d = None"
  by (auto simp: shifted_location_draft_def callbacks_of_def map_filter_simps given_footer_def is_interactive_def makes_interactive_def
      split: if_splits)

lemma answer_callbacks:
  assumes "response_for pm m = Inr a" "d \<in> set (drafts_of a)"
  shows "list_all is_handled (callbacks_of d)"
proof (cases "\<exists>l. wa_content m = LocationContent l")
  case True
  with assms show ?thesis
    by (auto simp: response_for_def drafts_of_def shifted_callbacks elim!: bind_res_InrE)
next
  case False
  with assms(1) obtain arm where "arm_action pm m arm = Inr a"
    by (auto simp: response_for_def split: wa_content.splits)
  from arm_drafts [OF this assms(2)] show ?thesis
  proof
    assume "\<exists>ds. embedded_media_drafts pm = Inr ds \<and> d \<in> snd ` set ds"
    then show ?thesis by (elim exE conjE) (simp add: media_drafts_plain(1))
  qed (use callbacks_handled plain_callbacks in auto)
qed

text \<open>A callback the example can send: on a button or a row of a draft it answers some message with.\<close>

inductive offered :: "(rstr \<Rightarrow> (rstr, rstr) result) \<Rightarrow> rstr \<Rightarrow> bool" for pm where
  "response_for pm m = Inr a \<Longrightarrow> d \<in> set (drafts_of a) \<Longrightarrow> i \<in> set (callbacks_of d) \<Longrightarrow> offered pm i"

lemma offered_handled: "offered pm i \<Longrightarrow> is_handled i"
  by (auto elim!: offered.cases dest!: answer_callbacks simp: list_all_iff)

lemma handled_arm:
  assumes "is_handled i" "click_on i m"
  shows "\<exists>arm. arm \<notin> {ArmEcho, ArmOther} \<and> i = arm_callback arm \<and> response_for pm m = arm_action pm m arm"
proof -
  have "response_for pm m = arm_action pm m (command_arm (to_ascii_lowercase (trim i)))"
    using assms(2) by (auto simp: response_for_def click_on_def command_of_def split: wa_content.splits)
  with assms(1) show ?thesis
    by (intro exI [of _ "command_arm (to_ascii_lowercase (trim i))"]) (auto simp: is_handled_def Let_def)
qed

lemmas click_arm = handled_arm [OF offered_handled]

text \<open>C20: Every interactive answer can be clicked: each button and each list row the drafts offer is
  the name of an arm other than the echoes, a click on it is answered by that arm, and clicks
  on two different ones are never answered alike.\<close>

theorem every_callback_handled:
  assumes "offered pm i" "click_on i m" "offered pm j" "click_on j n"
  shows "\<exists>arm. arm \<notin> {ArmEcho, ArmOther} \<and> i = arm_callback arm \<and> response_for pm m = arm_action pm m arm \<and>
    (response_for pm m = response_for pm n \<longrightarrow> i = j)"
proof -
  obtain a where a: "a \<notin> {ArmEcho, ArmOther}" "i = arm_callback a" "response_for pm m = arm_action pm m a"
    using click_arm [OF assms(1,2)] by blast
  obtain b where b: "b \<notin> {ArmEcho, ArmOther}" "j = arm_callback b" "response_for pm n = arm_action pm n b"
    using click_arm [OF assms(3,4)] by blast
  have "i = j" if "response_for pm m = response_for pm n"
  proof -
    from that have "arm_key a = arm_key b"
      unfolding a(3) b(3) by (metis answer_key_arm)
    from arm_key_inject [OF this a(1) b(1)] show ?thesis by (simp add: a(2) b(2))
  qed
  with a show ?thesis by blast
qed

theorem every_callback_handled_witness:
  "let m = \<lparr>wa_msg_id = ''1'', wa_sender = ''5511'', wa_content = TextContent, wa_text = Some ''menu'', wa_callback = None\<rparr>;
       c = m\<lparr>wa_content := InteractiveContent, wa_text := None, wa_callback := Some ''demo:inspect''\<rparr>;
       l = m\<lparr>wa_content := InteractiveContent, wa_text := None, wa_callback := Some ''demo:location''\<rparr>
   in (\<exists>arm. arm \<noteq> ArmOther \<and> ''demo:inspect'' = arm_callback arm \<and>
         response_for (\<lambda>s. Inr s) c = arm_action (\<lambda>s. Inr s) c arm) \<and>
      response_for (\<lambda>s. Inr s) c \<noteq> response_for (\<lambda>s. Inr s) l"
proof -
  let ?m = "\<lparr>wa_msg_id = ''1'', wa_sender = ''5511'', wa_content = TextContent, wa_text = Some ''menu'', wa_callback = None\<rparr>"
  let ?c = "?m\<lparr>wa_content := InteractiveContent, wa_text := None, wa_callback := Some ''demo:inspect''\<rparr>"
  let ?l = "?m\<lparr>wa_content := InteractiveContent, wa_text := None, wa_callback := Some ''demo:location''\<rparr>"
  have "response_for (\<lambda>s. Inr s) ?m = Inr (Reply menu_draft)" by code_simp
  moreover have "''demo:inspect'' \<in> set (callbacks_of menu_draft)" "''demo:location'' \<in> set (callbacks_of menu_draft)"
    by code_simp+
  ultimately have o1: "offered (\<lambda>s. Inr s) ''demo:inspect''" and o2: "offered (\<lambda>s. Inr s) ''demo:location''"
    by (auto intro!: offered.intros [of "\<lambda>s. Inr s" ?m "Reply menu_draft" menu_draft] simp: drafts_of_def)
  have c: "click_on ''demo:inspect'' ?c" "click_on ''demo:location'' ?l" by (simp_all add: click_on_def)
  from every_callback_handled [OF o1 c(1) o2 c(2)] show ?thesis by (auto simp: Let_def)
qed

section \<open>Limits\<close>

definition fits :: "draft \<Rightarrow> bool" where
  "fits d \<longleftrightarrow> validate_demo_draft given_footer d = Inr ()"

lemma fits_law: "footer_law footer_of \<Longrightarrow> fits d \<Longrightarrow> validate_demo_draft footer_of d = Inr ()"
  by (simp add: fits_def footer_law_def validate_demo_draft_def)

lemma interactive_fit: "fits menu_draft" "fits list_draft" "fits database_benchmarks_draft" "fits cta_draft"
  by code_simp+

lemma no_footer_fits: "given_footer d = None \<Longrightarrow> fits d"
  by (simp add: fits_def validate_demo_draft_def)

lemma plain_fit:
  "fits formatted_text_draft" "fits location_draft" "fits location_request_draft"
  "fits (inspect_message_draft m)" "fits (echo_or_menu_draft m)" "fits (text_draft t)"
  by (rule no_footer_fits; simp add: plain_drafts given_footer_def is_interactive_def makes_interactive_def map_filter_simps
      split: option.splits)+

text \<open>No answer is ever held back for its footer: every draft the example can answer with passes its
  own check of the platform's limit, so a reply only fails where the network does.\<close>

theorem answers_fit_limits:
  assumes "footer_law footer_of" "response_for pm m = Inr a" "d \<in> set (drafts_of a)"
  shows "validate_demo_draft footer_of d = Inr ()"
proof (cases "\<exists>l. wa_content m = LocationContent l")
  case True
  with assms(2,3) have "given_footer d = None"
    by (auto simp: response_for_def drafts_of_def shifted_callbacks elim!: bind_res_InrE)
  then show ?thesis by (intro fits_law [OF assms(1)] no_footer_fits)
next
  case False
  with assms(2) obtain arm where "arm_action pm m arm = Inr a"
    by (auto simp: response_for_def split: wa_content.splits)
  from arm_drafts [OF this assms(3)] have "fits d"
  proof
    assume "\<exists>ds. embedded_media_drafts pm = Inr ds \<and> d \<in> snd ` set ds"
    then show ?thesis by (elim exE conjE) (simp add: media_drafts_plain(2) no_footer_fits)
  qed (use interactive_fit plain_fit in auto)
  with assms(1) show ?thesis by (rule fits_law)
qed

lemma answers_fit_limits_witness:
  "validate_demo_draft given_footer list_draft = Inr ()"
proof -
  let ?m = "\<lparr>wa_msg_id = ''1'', wa_sender = ''5511'', wa_content = TextContent, wa_text = Some ''list'', wa_callback = None\<rparr>"
  have "response_for (\<lambda>s. Inr s) ?m = Inr (Reply list_draft)" by code_simp
  then show ?thesis
    using answers_fit_limits [of given_footer "\<lambda>s. Inr s" ?m "Reply list_draft" list_draft]
    by (simp add: footer_law_def drafts_of_def)
qed

section \<open>The shifted location\<close>

lemma latitude_shift_value:
  obtains d where "latitude_shift = Fin d" "965637 / 2 ^ 30 \<le> d" "d \<le> 965639 / 2 ^ 30"
proof -
  define r where "r = rnd (63710088 / 10)"
  define q where "q = rnd (100 / r)"
  define k where "k = rnd (572957795130823208767981548141051703 / 10 ^ 34)"
  define d where "d = rnd (q * k)"
  have r: "6371008 \<le> r" "r \<le> 6371009"
    using rnd_dyadic [of 6371008 0 "63710088 / 10" 6371009] by (simp_all add: r_def)
  have "17258045 / 2 ^ 40 \<le> 100 / r" "100 / r \<le> 17258049 / 2 ^ 40"
    using r by (simp_all add: field_simps)
  then have q: "17258045 / 2 ^ 40 \<le> q" "q \<le> 17258049 / 2 ^ 40"
    using rnd_dyadic [of 17258045 40 "100 / r" 17258049] by (simp_all add: q_def)
  have k: "60078979 / 2 ^ 20 \<le> k" "k \<le> 60078980 / 2 ^ 20"
    using rnd_dyadic [of 60078979 20 "572957795130823208767981548141051703 / 10 ^ 34" 60078980] by (simp_all add: k_def)
  have "(17258045 / 2 ^ 40) * (60078979 / 2 ^ 20) \<le> q * k" "q * k \<le> (17258049 / 2 ^ 40) * (60078980 / 2 ^ 20)"
    using q k by (intro mult_mono; simp)+
  then have qk: "965637 / 2 ^ 30 \<le> q * k" "q * k \<le> 965639 / 2 ^ 30" by simp_all
  then have d: "965637 / 2 ^ 30 \<le> d" "d \<le> 965639 / 2 ^ 30"
    using rnd_dyadic [of 965637 30 "q * k" 965639] by (simp_all add: d_def)
  have small: "to_f64 x = Fin (rnd x)" if "0 \<le> x" "x \<le> 2 ^ 53" for x
    using that to_f64_le [of x "2 ^ 53"] by simp
  have e: "earth_mean_radius_meters = Fin r"
    by (simp add: earth_mean_radius_meters_def r_def small)
  have "to_f64 (572957795130823208767981548141051703 / 10 ^ 34) = Fin k"
    by (simp add: k_def small)
  moreover have "to_f64 (100 / r) = Fin q"
    unfolding q_def by (rule small) (use r in \<open>simp_all add: field_simps\<close>)
  moreover have "to_f64 (q * k) = Fin d"
    unfolding d_def by (rule small) (use qk in simp_all)
  moreover have "r \<noteq> 0" using r by linarith
  ultimately have "latitude_shift = Fin d"
    unfolding latitude_shift_def to_degrees_def e by (simp only: f_div.simps f_mul.simps if_False)
  with d show thesis by (intro that)
qed

text \<open>C21: A location shared with the bot comes back one hundred metres further south. Coordinates
  outside the valid ranges are refused; for all others the answer has the same longitude and a
  latitude that is the sender's less 0.000899320 degrees (to the ninth decimal) rounded to a double, but
  never beyond the pole and never north of the sender.\<close>

theorem shifted_location:
  assumes "wf_f64 (latitude l)"
  shows "shifted_location_draft l =
      Inl ''received location coordinates are outside the valid latitude/longitude ranges'' \<and>
      \<not> ((\<exists>x. latitude l = Fin x \<and> - 90 \<le> x \<and> x \<le> 90) \<and> (\<exists>y. longitude l = Fin y \<and> - 180 \<le> y \<and> y \<le> 180)) \<or>
    (\<exists>x y d calls. latitude l = Fin x \<and> - 90 \<le> x \<and> x \<le> 90 \<and> longitude l = Fin y \<and> - 180 \<le> y \<and> y \<le> 180 \<and>
       965637 / 2 ^ 30 \<le> d \<and> d \<le> 965639 / 2 ^ 30 \<and>
       shifted_location_draft l = Inr (Draft (LocationDraft (Fin (max (rnd (x - d)) (- 90))) (Fin y)) calls) \<and>
       max (rnd (x - d)) (- 90) \<le> x)"
proof (cases "(\<exists>x. latitude l = Fin x \<and> - 90 \<le> x \<and> x \<le> 90) \<and> (\<exists>y. longitude l = Fin y \<and> - 180 \<le> y \<and> y \<le> 180)")
  case False
  then show ?thesis
    by (cases "latitude l"; cases "longitude l") (auto simp: shifted_location_draft_def in_closed_def)
next
  case True
  then obtain x y where l: "latitude l = Fin x" "- 90 \<le> x" "x \<le> 90" "longitude l = Fin y" "- 180 \<le> y" "y \<le> 180"
    by blast
  obtain d where d: "latitude_shift = Fin d" "965637 / 2 ^ 30 \<le> d" "d \<le> 965639 / 2 ^ 30"
    by (rule latitude_shift_value)
  have d0: "0 \<le> d" "d \<le> 1" using d(2,3) by simp_all
  have "to_f64 (x - d) = Fin (rnd (x - d))"
    using to_f64_le [of "x - d" 91] l(2,3) d0 by (simp add: abs_le_iff)
  then have "f_max (f_sub (latitude l) latitude_shift) (Fin (- 90)) = Fin (max (rnd (x - d)) (- 90))"
    by (simp add: l d(1) f_sub_def f_max_def max_def)
  then have "shifted_location_draft l = Inr (Draft (LocationDraft (Fin (max (rnd (x - d)) (- 90))) (Fin y))
          [LocationName ''About 100 m south of your location'',
           LocationAddress (''Original: '' @ fmt_dec 6 (latitude l) @ '', '' @ fmt_dec 6 (longitude l)),
           BizOpaqueCallbackData ''whatsapp-demoscene:location-shifted-south''])"
    by (simp add: shifted_location_draft_def in_closed_def l)
  moreover have "max (rnd (x - d)) (- 90) \<le> x"
    using rnd_mono [of "x - d" x] d0(1) l assms by simp
  ultimately show ?thesis using l d by blast
qed

lemma shifted_location_witness:
  "\<exists>x y d calls. Fin 45 = Fin x \<and> Fin 10 = Fin y \<and> 965637 / 2 ^ 30 \<le> d \<and> d \<le> 965639 / 2 ^ 30 \<and>
     shifted_location_draft \<lparr>latitude = Fin 45, longitude = Fin 10\<rparr> =
       Inr (Draft (LocationDraft (Fin (max (rnd (x - d)) (- 90))) (Fin y)) calls)"
proof -
  have "rnd 45 = 45" using rnd_of_int [of 45] by simp
  then show ?thesis
    using shifted_location [of "\<lparr>latitude = Fin 45, longitude = Fin 10\<rparr>"]
    by (simp del: power_Suc) blast
qed

end
