(* ===== verification/WhatsappServing.thy ===== *)
theory WhatsappServing
  imports WhatsappServer WhatsappAnswers
begin

text \<open>
  What the modes of the WhatsApp example guarantee: an incomplete configuration has no effect, no
  server is left running, the demos are sent in their order, the template's buttons lead somewhere,
  and the HTTPS listener is never held up for long.
\<close>

section \<open>Incomplete configuration\<close>

text \<open>What a mode asks of the configuration.\<close>

definition webhook_complete ::
  "('u wa_url_ops \<times> 'a socket_ops \<times> ('x, 'k, 't) tls_ops) \<Rightarrow> ('u, 'a) wa_config \<Rightarrow> bool" where
  "webhook_complete ops c \<longleftrightarrow>
     (case ops of (uops, sops, tops) \<Rightarrow>
        is_ok (webhook_verify_token c) \<and> is_ok (webhook_public_url c) \<and> is_ok (webhook_tls_config tops c) \<and>
        is_ok (webhook_bind_address uops sops c))"

definition mode_complete ::
  "('u wa_url_ops \<times> 'a socket_ops \<times> ('x, 'k, 't) tls_ops) \<Rightarrow> ('u, 'a) wa_config \<Rightarrow> wa_mode \<Rightarrow> bool" where
  "mode_complete ops c mode \<longleftrightarrow>
     (case mode of
        ModeSend \<Rightarrow> is_ok (access_token c) \<and> is_ok (outbound c)
      | ModeSendTemplate \<Rightarrow> is_ok (outbound c) \<and> is_ok (template_of c) \<and> is_ok (access_token c)
      | ModeSendBatch \<Rightarrow> is_ok (access_token c) \<and> is_ok (outbound c)
      | ModeServe \<Rightarrow> is_ok (access_token c) \<and> is_ok (app_secret c) \<and> webhook_complete ops c
      | ModeRegisterWebhook \<Rightarrow> is_ok (webhook_registration c) \<and> is_ok (app_secret c) \<and> webhook_complete ops c
      | ModeServeAndRegister \<Rightarrow>
          is_ok (access_token c) \<and> is_ok (webhook_registration c) \<and> is_ok (app_secret c) \<and> webhook_complete ops c
      | ModeHelp \<Rightarrow> True)"

text \<open>A job that fails and leaves \<open>eff\<close> as it was.\<close>

definition stops :: "('s \<Rightarrow> 'e) \<Rightarrow> ('r, 's, 'x) job \<Rightarrow> bool" where
  "stops eff j \<longleftrightarrow> (\<forall>s. (\<exists>e. fst (j s) = Inl e) \<and> eff (snd (j s)) = eff s)"

definition silent :: "('s \<Rightarrow> 'e) \<Rightarrow> ('r, 's, 'x) job \<Rightarrow> bool" where
  "silent eff j \<longleftrightarrow> (\<forall>s. eff (snd (j s)) = eff s)"

lemma stops_lift: "\<not> is_ok r \<Longrightarrow> stops eff (job_bind (job_lift r) f)"
  by (cases r) (simp_all add: stops_def job_fail_def)

lemma stops_fail: "stops eff (job_fail e)"
  by (simp add: stops_def job_fail_def)

lemma stops_bind: "silent eff j \<Longrightarrow> (\<And>x. stops eff (f x)) \<Longrightarrow> stops eff (job_bind j f)"
  unfolding stops_def
proof (intro allI)
  fix s assume "silent eff j" "\<And>x. \<forall>s. (\<exists>e. fst (f x s) = Inl e) \<and> eff (snd (f x s)) = eff s"
  then show "(\<exists>e. fst (job_bind j f s) = Inl e) \<and> eff (snd (job_bind j f s)) = eff s"
    by (cases "j s"; cases "fst (j s)") (auto simp: job_bind_def silent_def dest: spec [of _ s])
qed

lemma stops_lift_bind: "(\<And>x. r = Inr x \<Longrightarrow> stops eff (f x)) \<Longrightarrow> stops eff (job_bind (job_lift r) f)"
  by (cases r) (simp_all add: stops_fail)

lemma silent_lift: "silent eff (job_lift r)"
  by (simp add: silent_def job_lift_def)

lemma silent_bind: "silent eff j \<Longrightarrow> (\<And>x. silent eff (f x)) \<Longrightarrow> silent eff (job_bind j f)"
  by (auto simp: silent_def job_bind_def split: prod.split sum.split) (metis snd_conv)+

lemma silent_blaming: "silent eff j \<Longrightarrow> silent eff (blaming what j)"
  by (simp add: silent_def blaming_def job_map_err_def case_prod_beta)

text \<open>Connecting a client has no effect that \<open>eff\<close> sees.\<close>

definition only_connects :: "('u, 'a, 't, 'c, 's) net_ops \<Rightarrow> ('s \<Rightarrow> 'e) \<Rightarrow> bool" where
  "only_connects net eff \<longleftrightarrow>
     (\<forall>token. silent eff (connect_token net token)) \<and> (\<forall>app secret. silent eff (connect_app net app secret))"

lemma clients_silent:
  assumes "only_connects net eff"
  shows "silent eff (whatsapp_client net c)" and "silent eff (app_client net c)"
  using assms
  by (auto simp: whatsapp_client_def app_client_def only_connects_def intro!: silent_bind silent_lift silent_blaming)

lemma clients_stop:
  "\<not> is_ok (access_token c) \<Longrightarrow> stops eff (job_bind (whatsapp_client net c) f)"
  "\<not> is_ok (webhook_registration c) \<or> \<not> is_ok (app_secret c) \<Longrightarrow> stops eff (job_bind (app_client net c) g)"
  unfolding whatsapp_client_def app_client_def job_bind_assoc
  by (auto intro: stops_lift stops_lift_bind)

lemma serve_stops:
  assumes "\<not> is_ok (app_secret c) \<or> \<not> webhook_complete ops c"
  shows "stops eff (serve_webhook ops net c registrar)"
  using assms unfolding serve_webhook_def webhook_complete_def webhook_route_def
  by (cases ops)
    (auto simp: webhook_public_url_def intro!: stops_lift_bind intro: stops_lift)

lemma register_stops:
  assumes "\<not> webhook_complete ops c"
  shows "stops eff (register_webhook_with_temporary_server ops net c client)"
  using assms unfolding register_webhook_with_temporary_server_def webhook_complete_def webhook_route_def
  by (cases ops) (auto intro!: stops_lift_bind intro: stops_lift)

lemma sends_stop:
  "\<not> is_ok (outbound c) \<Longrightarrow> stops eff (send_demos crate net c client)"
  "\<not> is_ok (outbound c) \<Longrightarrow> stops eff (send_batch_demo net c client)"
  "\<not> is_ok (outbound c) \<or> \<not> is_ok (template_of c) \<or> \<not> is_ok (access_token c) \<Longrightarrow> stops eff (send_template_demo net c)"
  unfolding send_demos_def send_batch_demo_def send_template_demo_def
  by (auto intro!: stops_lift_bind stops_bind silent_blaming silent_lift intro: stops_lift)

lemma run_mode_stops:
  assumes net: "only_connects net eff" and "\<not> mode_complete ops c mode"
  shows "stops eff (run_mode crate ops net c mode)"
proof -
  note silent = clients_silent [OF net]
  note stop = sends_stop serve_stops register_stops clients_stop
  show ?thesis
  proof (cases mode)
    case ModeSend
    with assms(2) consider "\<not> is_ok (access_token c)" | "\<not> is_ok (outbound c)"
      by (auto simp: mode_complete_def)
    then show ?thesis
      by cases (auto simp: run_mode_def ModeSend intro: stop stops_bind [OF silent(1)])
  next
    case ModeSendTemplate
    with assms(2) show ?thesis
      by (auto simp: run_mode_def mode_complete_def job_bind_assoc send_template_demo_def
          intro!: stops_lift_bind stops_bind silent_blaming silent_lift intro: stops_lift)
  next
    case ModeSendBatch
    with assms(2) consider "\<not> is_ok (access_token c)" | "\<not> is_ok (outbound c)"
      by (auto simp: mode_complete_def)
    then show ?thesis
      by cases (auto simp: run_mode_def ModeSendBatch intro: stop stops_bind [OF silent(1)])
  next
    case ModeServe
    with assms(2) consider "\<not> is_ok (access_token c)" | "\<not> is_ok (app_secret c) \<or> \<not> webhook_complete ops c"
      by (auto simp: mode_complete_def)
    then show ?thesis
      by cases (auto simp: run_mode_def ModeServe intro: stop stops_bind [OF silent(1)])
  next
    case ModeRegisterWebhook
    with assms(2) consider "\<not> is_ok (webhook_registration c) \<or> \<not> is_ok (app_secret c)" | "\<not> webhook_complete ops c"
      by (auto simp: mode_complete_def)
    then show ?thesis
      by cases (auto simp: run_mode_def ModeRegisterWebhook intro: stop stops_bind [OF silent(2)])
  next
    case ModeServeAndRegister
    with assms(2) consider "\<not> is_ok (access_token c)" | "\<not> is_ok (webhook_registration c) \<or> \<not> is_ok (app_secret c)"
      | "\<not> is_ok (app_secret c) \<or> \<not> webhook_complete ops c"
      by (auto simp: mode_complete_def)
    then show ?thesis
      by cases (auto simp: run_mode_def ModeServeAndRegister intro: stop stops_bind [OF silent(1)] stops_bind [OF silent(2)])
  qed (use assms(2) in \<open>simp add: mode_complete_def\<close>)
qed

text \<open>C17: A mode whose configuration is incomplete fails before it does anything: whatever observable
  \<open>eff\<close> of the world connecting a client does not change (messages sent, sockets bound,
  webhooks registered, servers started) is as it was, in every mode of the command line.\<close>

theorem incomplete_configuration_has_no_effect:
  assumes "only_connects net eff"
    and "parse_mode args = Inr mode" "from_env (fst ops) (fst (snd ops)) env = Inr c" "\<not> mode_complete ops c mode"
  shows "(\<exists>err. fst (main crate ops net args env s) = Inl err) \<and> eff (snd (main crate ops net args env s)) = eff s"
proof -
  have "mode \<noteq> ModeHelp" using assms(4) by (auto simp: mode_complete_def)
  then have "main crate ops net args env s = run_mode crate ops net c mode s"
    using assms(2,3) by (simp add: main_def)
  with run_mode_stops [OF assms(1,4), of crate] show ?thesis by (simp add: stops_def)
qed

section \<open>Servers are stopped\<close>

definition server_laws :: "('u, 'a, 't, 'c, 's) net_ops \<Rightarrow> ('s \<Rightarrow> bool) \<Rightarrow> bool" where
  "server_laws net running \<longleftrightarrow>
     (\<forall>token. keeps (\<lambda>s. \<not> running s) (connect_token net token)) \<and>
     (\<forall>app secret. keeps (\<lambda>s. \<not> running s) (connect_app net app secret)) \<and>
     (\<forall>client p r d. keeps (\<lambda>s. \<not> running s) (send_draft net client p r d)) \<and>
     (\<forall>client p r d d'. keeps (\<lambda>s. \<not> running s) (batch_execute net client p r d d')) \<and>
     (\<forall>u token v. keeps (\<lambda>s. \<not> running s) (post_json net u token v)) \<and>
     keeps (\<lambda>s. \<not> running s) (response_text net) \<and>
     (\<forall>addr. keeps (\<lambda>s. \<not> running s) (bind_listener net addr)) \<and>
     keeps (\<lambda>s. \<not> running s) (listener_addr net) \<and>
     (\<forall>tls app s. \<not> running (snd (axum_serve net tls app s))) \<and>
     (\<forall>s. \<not> running (snd (join_server net s)))"

lemma keeps_blaming [keeps_rules]: "keeps P j \<Longrightarrow> keeps P (blaming what j)"
  by (simp add: blaming_def keeps_map_err)

lemma server_ended:
  assumes "server_laws net running"
  shows "\<not> running (snd (await_server_task net tls what s))" and "\<not> running (snd (run_webhook_server net tls app s))"
  using assms
  by (auto simp: server_laws_def await_server_task_def run_webhook_server_def job_bind_def blaming_def job_map_err_def job_lift_def
      split: prod.split sum.split) (metis snd_conv)+

lemma keeps_clients:
  assumes "server_laws net running"
  shows "keeps (\<lambda>s. \<not> running s) (whatsapp_client net c)" "keeps (\<lambda>s. \<not> running s) (app_client net c)"
  using assms by (auto simp: server_laws_def whatsapp_client_def app_client_def intro!: keeps_rules)

lemma keeps_sends:
  assumes "server_laws net running"
  shows "keeps (\<lambda>s. \<not> running s) (send_demos crate net c client)"
    and "keeps (\<lambda>s. \<not> running s) (send_batch_demo net c client)"
    and "keeps (\<lambda>s. \<not> running s) (send_template_demo net c)"
  using assms
  by (auto simp: server_laws_def send_demos_def send_batch_demo_def send_template_demo_def Let_def
      intro!: keeps_rules split: prod.split list.split)

lemma keeps_servers:
  assumes "server_laws net running"
  shows "keeps (\<lambda>s. \<not> running s) (serve_webhook ops net c registrar)"
    and "keeps (\<lambda>s. \<not> running s) (register_webhook_with_temporary_server ops net c client)"
proof -
  note ended = server_ended [OF assms]
  have bind: "keeps (\<lambda>s. \<not> running s) (bind_listener net addr)" "keeps (\<lambda>s. \<not> running s) (listener_addr net)" for addr
    using assms by (simp_all add: server_laws_def)
  show "keeps (\<lambda>s. \<not> running s) (serve_webhook ops net c registrar)"
    unfolding serve_webhook_def
    by (cases ops, simp only: prod.case, intro keeps_bind keeps_lift keeps_blaming bind)
      (auto simp: keeps_def job_ignore_def ended split: prod.split sum.split option.split)
  show "keeps (\<lambda>s. \<not> running s) (register_webhook_with_temporary_server ops net c client)"
    unfolding register_webhook_with_temporary_server_def
    by (cases ops, simp only: prod.case, intro keeps_bind keeps_lift keeps_blaming bind)
      (auto simp: keeps_def job_ignore_def ended split: prod.split)
qed

text \<open>C16: No server is left running. Whatever fails (a client, the configuration, the socket, the
  registration with Meta, the server itself), when the program ends no webhook server is up: the
  temporary verifier, and the server whose registration failed, are shut down and awaited first.\<close>

theorem no_server_left_running:
  assumes "server_laws net running" "\<not> running s"
  shows "\<not> running (snd (main crate ops net args env s))"
proof -
  note parts = keeps_clients [OF assms(1)] keeps_sends [OF assms(1)] keeps_servers [OF assms(1)]
  have "keeps (\<lambda>s. \<not> running s) (run_mode crate ops net c mode)" for c mode
    by (cases mode) (auto simp: run_mode_def intro!: keeps_rules parts)
  then have "keeps (\<lambda>s. \<not> running s) (main crate ops net args env)"
    by (auto simp: main_def intro!: keeps_rules)
  with assms(2) show ?thesis by (simp add: keeps_def)
qed

section \<open>The demos in their order\<close>

text \<open>\<open>out\<close> is what has been sent: a send that succeeds adds its draft, one that fails adds nothing.\<close>

definition outbox_law :: "('u, 'a, 't, 'c, 's) net_ops \<Rightarrow> ('s \<Rightarrow> draft list) \<Rightarrow> bool" where
  "outbox_law net out \<longleftrightarrow> (\<forall>client p r d. emits out [d] (send_draft net client p r d))"

definition all_demos :: "(rstr \<times> draft) list \<Rightarrow> (rstr \<times> draft) list" where
  "all_demos samples =
     [(''text'', no_preview_draft), (''formatted-text'', formatted_text_draft), (''quick-reply menu'', menu_draft),
      (''list'', list_draft), (''CTA'', cta_draft), (''location'', location_draft),
      (''location-request'', location_request_draft)] @ samples"

lemma sent_one: "outbox_law net out \<Longrightarrow> emits out [d] (blaming what (send_draft net client p r d))"
  by (simp add: outbox_law_def blaming_def emits_map_err)

text \<open>The demos go out in their order and none is skipped: when \<open>send\<close> ends well, exactly the seven
  fixed drafts and the five media have been sent, and otherwise a proper prefix of them, up to the first
  one the platform refused; the example's own check of its drafts never stops it.\<close>

theorem demos_sent_in_order:
  assumes "outbox_law net out" "footer_law (crate_footer crate)" "is_ok (outbound c)"
    and "embedded_media_drafts (crate_mime crate) = Inr samples"
  shows "emits out (map snd (all_demos samples)) (send_demos crate net c client)"
proof -
  obtain o' where o': "outbound c = Inr o'" using assms(3) by (cases "outbound c") auto
  have fine: "checked crate menu_draft = Inr ()" "checked crate list_draft = Inr ()" "checked crate cta_draft = Inr ()"
    "checked crate location_request_draft = Inr ()"
    unfolding checked_def using fits_law [OF assms(2)] interactive_fit plain_fit by simp_all
  note one = sent_one [OF assms(1)]
  have "emits out ([no_preview_draft] @ [formatted_text_draft] @ [menu_draft] @ [list_draft] @ [cta_draft] @
      [location_draft] @ [location_request_draft] @ map snd samples) (send_demos crate net c client)"
    unfolding send_demos_def Let_def o' assms(4) fine job_bind_simps map_err_simps
    by (intro emits_bind one emits_iter) (auto intro: one)
  then show ?thesis by (simp add: all_demos_def)
qed

section \<open>The buttons of the template\<close>

text \<open>The callbacks in \<open>template.components[].parameters[].payload\<close>.\<close>

definition template_callbacks :: "json \<Rightarrow> rstr list" where
  "template_callbacks v =
     List.map_filter as_str
       (concat (map (field_values ''payload'')
         (concat (map array_values (concat (map (field_values ''parameters'')
           (concat (map array_values (concat (map (field_values ''components'') (field_values ''template'' v)))))))))))"

lemma template_callbacks_eq:
  "template_callbacks (template_demo_payload out template) = [''demo:list'', ''demo:location'', ''demo:inspect'']"
  by (simp add: template_callbacks_def template_demo_payload_def template_button_def field_values_def map_filter_simps)

lemma template_callbacks_handled: "list_all is_handled [''demo:list'', ''demo:location'', ''demo:inspect'']"
  by code_simp

text \<open>The approved template and the webhook agree: every button the template is sent with carries the
  name of an arm of the example, so that the click Meta delivers for it, once adapted, is answered by
  that arm and never by an echo.\<close>

theorem template_buttons_answered:
  assumes "i \<in> set (template_callbacks (template_demo_payload out template))" "click_on i m"
  shows "\<exists>arm. arm \<notin> {ArmEcho, ArmOther} \<and> i = arm_callback arm \<and> response_for pm m = arm_action pm m arm"
proof -
  have "is_handled i"
    using assms(1) template_callbacks_handled by (simp only: template_callbacks_eq list_all_iff)
  then show ?thesis using assms(2) by (rule handled_arm)
qed

section \<open>The HTTPS listener\<close>

definition prompt :: "('x \<Rightarrow> nat \<times> (rstr, 't) result) \<Rightarrow> (rstr, 'x \<times> 'a) result \<Rightarrow> bool" where
  "prompt handshake e \<longleftrightarrow>
     (case e of Inl _ \<Rightarrow> False | Inr (stream, _) \<Rightarrow> fst (handshake stream) < handshake_timeout \<and> is_ok (snd (handshake stream)))"

lemma prompt_simps [simp]:
  "prompt handshake (Inl err) = False"
  "prompt handshake (Inr (stream, addr)) \<longleftrightarrow> fst (handshake stream) < handshake_timeout \<and> is_ok (snd (handshake stream))"
  by (simp_all add: prompt_def)

text \<open>One slow or hostile client cannot hold the HTTPS listener: it yields the first connection that
  completes its handshake in ten seconds, having spent at most ten seconds on each connection up to
  and including it.\<close>

theorem https_accept_bounded:
  assumes "list_ex (prompt handshake) es"
  shows "\<exists>conn pre e rest spent'. https_accept handshake es spent = Some (conn, rest, spent') \<and> es = pre @ e # rest \<and>
    prompt handshake e \<and> \<not> list_ex (prompt handshake) pre \<and> spent' \<le> spent + 10000 * (length pre + 1)"
  using assms
proof (induction handshake es spent rule: https_accept.induct)
  case (2 handshake err es spent)
  from "2.prems" have "list_ex (prompt handshake) es" by simp
  from "2.IH" [OF this] obtain conn pre e rest spent' where "https_accept handshake es (spent + 1000) = Some (conn, rest, spent')"
    "es = pre @ e # rest" "prompt handshake e" "\<not> list_ex (prompt handshake) pre"
    "spent' \<le> spent + 1000 + 10000 * (length pre + 1)"
    by blast
  then show ?case
    by - (rule exI [of _ conn], rule exI [of _ "Inl err # pre"], rule exI [of _ e], rule exI [of _ rest], rule exI [of _ spent'],
        simp)
next
  case (3 handshake stream addr es spent)
  obtain takes r where h: "handshake stream = (takes, r)" by (cases "handshake stream")
  show ?case
  proof (cases "prompt handshake (Inr (stream, addr))")
    case True
    then obtain tls where "r = Inr tls" "takes < handshake_timeout"
      using h by (cases r) auto
    then show ?thesis
      using h True
      by - (rule exI [of _ "(tls, addr)"], rule exI [of _ "[]"], rule exI [of _ "Inr (stream, addr)"], rule exI [of _ es], rule exI [of _ "spent + takes"],
        simp add: handshake_timeout_def)
  next
    case False
    with "3.prems" have later: "list_ex (prompt handshake) es" by auto
    define spent1 where "spent1 = spent + (if takes < handshake_timeout then takes else handshake_timeout)"
    have step: "https_accept handshake (Inr (stream, addr) # es) spent = https_accept handshake es spent1"
      using False h by (cases r) (auto simp: spent1_def)
    have "\<exists>conn pre e rest spent'. https_accept handshake es spent1 = Some (conn, rest, spent') \<and> es = pre @ e # rest \<and>
        prompt handshake e \<and> \<not> list_ex (prompt handshake) pre \<and> spent' \<le> spent1 + 10000 * (length pre + 1)"
      using "3.IH" h later False by (cases r) (auto simp: spent1_def)
    then obtain conn pre e rest spent' where r: "https_accept handshake es spent1 = Some (conn, rest, spent')"
      "es = pre @ e # rest" "prompt handshake e" "\<not> list_ex (prompt handshake) pre"
      "spent' \<le> spent1 + 10000 * (length pre + 1)"
      by blast
    moreover have "spent1 \<le> spent + 10000" by (simp add: spent1_def handshake_timeout_def)
    ultimately show ?thesis
      using False step
      by - (rule exI [of _ conn], rule exI [of _ "Inr (stream, addr) # pre"], rule exI [of _ e], rule exI [of _ rest], rule exI [of _ spent'],
        simp del: https_accept.simps)
  qed
qed simp

section \<open>A concrete world\<close>

text \<open>What has been sent, and whether a server is up; Meta refuses every registration.\<close>

type_synonym sample_world = "draft list \<times> bool"

definition sample_net :: "(unit, nat, unit, unit, sample_world) net_ops" where
  "sample_net =
     \<lparr>connect_token = (\<lambda>_. job_return ()), connect_app = (\<lambda>_ _. job_return ()),
      send_draft = (\<lambda>_ _ _ d w. (Inr (), (fst w @ [d], snd w))),
      batch_execute = (\<lambda>_ _ _ _ _. job_return (Inr (Inr (), Inr ()))),
      configure_webhook = (\<lambda>_ _ _ _. job_fail ''refused''),
      http_client_build = Inr (), post_json = (\<lambda>_ _ _. job_return 200), response_text = job_return ''ok'',
      parse_message_ids = (\<lambda>_. Inr [''wamid.1'']),
      bind_listener = (\<lambda>_. job_return ()), listener_addr = job_return 0,
      axum_serve = (\<lambda>_ _ w. (Inr (), (fst w, False))), spawn_server = (\<lambda>_ _ w. (fst w, True)),
      wait_for_listener = (\<lambda>w. w), signal_shutdown = (\<lambda>w. w), join_server = (\<lambda>w. (Inr (Inr ()), (fst w, False)))\<rparr>"

definition sample_ops :: "unit wa_url_ops \<times> nat socket_ops \<times> (unit, unit, unit) tls_ops" where
  "sample_ops =
     (\<lparr>url_parse = (\<lambda>_. Inr ()), url_scheme = (\<lambda>_. ''https''), url_port = (\<lambda>_. Some 443), url_host = (\<lambda>_. Some ''bot''),
       url_query = (\<lambda>_. None), url_fragment = (\<lambda>_. None), url_path = (\<lambda>_. ''/webhook'')\<rparr>,
      \<lparr>socket_parse = (\<lambda>_. Inr 0), any_interface = (\<lambda>p. p)\<rparr>,
      \<lparr>pem_file_iter = (\<lambda>_. Inr [Inr ()]), key_from_pem_file = (\<lambda>_. Inr ()), with_single_cert = (\<lambda>_ _. Inr ())\<rparr>)"

definition sample_crate :: crate_ops where
  "sample_crate = \<lparr>crate_footer = given_footer, crate_mime = (\<lambda>m. Inr m)\<rparr>"

definition empty_config :: "(unit, nat) wa_config" where
  "empty_config =
     \<lparr>wa_access_token = None, wa_phone_number_id = None, wa_recipient = None, wa_template_name = None,
      wa_template_language = None, wa_app_id = None, wa_app_secret = None, wa_verify_token = None, wa_public_url = None,
      wa_bind_addr = None, wa_certificate_file = None, wa_private_key_file = None\<rparr>"

lemma incomplete_configuration_has_no_effect_witness:
  "snd (main sample_crate sample_ops sample_net [''demo'', ''serve-and-register''] (\<lambda>_. None) ([], False)) = ([], False)"
proof -
  have "only_connects sample_net (\<lambda>w. w)"
    by (simp add: only_connects_def sample_net_def silent_def job_return_def)
  moreover have "parse_mode [''demo'', ''serve-and-register''] = Inr ModeServeAndRegister" by code_simp
  moreover have "from_env (fst sample_ops) (fst (snd sample_ops)) (\<lambda>_. None) = Inr empty_config"
    by (simp add: from_env_def parse_public_webhook_url_def parse_socket_addr_env_def env_optional_def empty_config_def)
  moreover have "\<not> mode_complete sample_ops empty_config ModeServeAndRegister"
    by (simp add: mode_complete_def access_token_def empty_config_def)
  ultimately show ?thesis
    using incomplete_configuration_has_no_effect [of sample_net "\<lambda>w. w" "[''demo'', ''serve-and-register'']"
        ModeServeAndRegister sample_ops "\<lambda>_. None" empty_config sample_crate "([], False)"] by simp
qed

lemma no_server_left_running_witness:
  "\<not> snd (snd (main sample_crate sample_ops sample_net [''demo'', ''register-webhook''] (\<lambda>_. Some ''x'') ([], False)))"
proof -
  have "server_laws sample_net snd"
    by (simp add: server_laws_def sample_net_def keeps_def job_return_def)
  then show ?thesis
    using no_server_left_running [of sample_net snd "([], False)"] by simp
qed

lemma demos_sent_in_order_witness:
  "emits fst (map snd (all_demos (projr (embedded_media_drafts (\<lambda>m. Inr m)))))
     (send_demos sample_crate sample_net (empty_config\<lparr>wa_phone_number_id := Some ''1'', wa_recipient := Some ''2''\<rparr>) ())"
proof (rule demos_sent_in_order)
  show "outbox_law sample_net fst" by (simp add: outbox_law_def sample_net_def emits_def)
  show "footer_law (crate_footer sample_crate)" by (simp add: footer_law_def sample_crate_def)
  show "is_ok (outbound (empty_config\<lparr>wa_phone_number_id := Some ''1'', wa_recipient := Some ''2''\<rparr>))"
    by (simp add: outbound_def empty_config_def)
  show "embedded_media_drafts (crate_mime sample_crate) = Inr (projr (embedded_media_drafts (\<lambda>m. Inr m)))"
    by (simp add: embedded_media_drafts_def embedded_media_draft_def sample_crate_def)
qed

lemma template_buttons_answered_witness:
  "let m = \<lparr>wa_msg_id = ''1'', wa_sender = ''5511'', wa_content = InteractiveContent, wa_text = None,
       wa_callback = Some ''demo:location''\<rparr>
   in \<exists>arm. arm \<notin> {ArmEcho, ArmOther} \<and> ''demo:location'' = arm_callback arm \<and> response_for (\<lambda>s. Inr s) m = arm_action (\<lambda>s. Inr s) m arm"
  unfolding Let_def
  by (rule template_buttons_answered [of "''demo:location''" "\<lparr>out_phone_number_id = ''1'', out_recipient = ''2''\<rparr>"
        "\<lparr>tpl_name = ''demo'', tpl_language = ''en_US''\<rparr>"])
    (simp_all add: template_callbacks_eq click_on_def)

lemma https_accept_bounded_witness:
  "\<exists>conn pre e rest spent'.
     https_accept (\<lambda>takes. (takes, Inr takes)) [Inl ''reset'', Inr (60000, ''slow''), Inr (20, ''good'')] 0 = Some (conn, rest, spent') \<and>
     [Inl ''reset'', Inr (60000, ''slow''), Inr (20, ''good'')] = pre @ e # rest \<and> prompt (\<lambda>takes. (takes, Inr takes)) e \<and>
     \<not> list_ex (prompt (\<lambda>takes. (takes, Inr takes))) pre \<and> spent' \<le> 0 + 10000 * (length pre + 1)"
  by (rule https_accept_bounded) (simp add: handshake_timeout_def)

end
