(* ===== verification/WhatsappPermit.thy ===== *)
theory WhatsappPermit
  imports WhatsappDemo
begin

text \<open>
  One benchmark at a time: the crate runs every message in a task of its own, and the handlers of the
  WhatsApp example (\<open>run_database_benchmark\<close> in \<open>src/examples/whatsapp_demoscene.rs\<close>) share one semaphore.
  A handler that gets the permit keeps it until it returns, one that does not is told so.
\<close>

datatype handler = Arrived database_benchmark | Running database_benchmark | Returned

record handlers_state =
  permits :: nat
  handlers :: "handler list"

text \<open>\<open>Semaphore::const_new(1)\<close>, and \<open>try_acquire\<close>: whether it got a permit, and what is left.\<close>

definition benchmark_semaphore :: nat where
  "benchmark_semaphore = 1"

definition try_acquire :: "nat \<Rightarrow> bool \<times> nat" where
  "try_acquire n = (if n = 0 then (False, 0) else (True, n - 1))"

inductive handler_step :: "handlers_state \<Rightarrow> handlers_state \<Rightarrow> bool" where
  arrive: "handler_step p (p\<lparr>handlers := handlers p @ [Arrived b]\<rparr>)"
| start: "i < length (handlers p) \<Longrightarrow> handlers p ! i = Arrived b \<Longrightarrow> try_acquire (permits p) = (True, n) \<Longrightarrow>
    handler_step p (p\<lparr>permits := n, handlers := (handlers p)[i := Running b]\<rparr>)"
| refuse: "i < length (handlers p) \<Longrightarrow> handlers p ! i = Arrived b \<Longrightarrow> try_acquire (permits p) = (False, n) \<Longrightarrow>
    handler_step p (p\<lparr>permits := n, handlers := (handlers p)[i := Returned]\<rparr>)"
| finish: "i < length (handlers p) \<Longrightarrow> handlers p ! i = Running b \<Longrightarrow>
    handler_step p (p\<lparr>permits := permits p + 1, handlers := (handlers p)[i := Returned]\<rparr>)"

definition no_handlers :: handlers_state where
  "no_handlers = \<lparr>permits = benchmark_semaphore, handlers = []\<rparr>"

definition is_running :: "handler \<Rightarrow> bool" where
  "is_running h \<longleftrightarrow> (case h of Running _ \<Rightarrow> True | _ \<Rightarrow> False)"

definition running_count :: "handlers_state \<Rightarrow> nat" where
  "running_count p = length (filter is_running (handlers p))"

lemma length_filter_update:
  "i < length xs \<Longrightarrow>
     length (filter P (xs[i := x])) + (if P (xs ! i) then 1 else 0) = length (filter P xs) + (if P x then 1 else 0)"
proof (induction xs arbitrary: i)
  case (Cons a xs)
  then show ?case by (cases i) auto
qed simp

text \<open>The permits and the running benchmarks are always one together.\<close>

lemma step_permits:
  assumes "handler_step p q" "permits p + running_count p = 1"
  shows "permits q + running_count q = 1"
  using assms(1)
proof cases
  case (arrive b)
  with assms(2) show ?thesis by (simp add: running_count_def is_running_def)
next
  case (start i b n)
  with assms(2) length_filter_update [of i "handlers p" is_running "Running b"] show ?thesis
    by (simp add: running_count_def is_running_def try_acquire_def del: length_0_conv split: if_splits)
next
  case (refuse i b n)
  with assms(2) length_filter_update [of i "handlers p" is_running Returned] show ?thesis
    by (auto simp: running_count_def is_running_def try_acquire_def split: if_splits)
next
  case (finish i b)
  with assms(2) length_filter_update [of i "handlers p" is_running Returned] show ?thesis
    by (simp add: running_count_def is_running_def del: length_0_conv)
qed

lemma reachable_permits: "handler_step\<^sup>*\<^sup>* no_handlers p \<Longrightarrow> permits p + running_count p = 1"
proof (induction rule: rtranclp_induct)
  case base
  show ?case by (simp add: no_handlers_def benchmark_semaphore_def running_count_def)
qed (rule step_permits)

text \<open>However the handlers of arriving messages interleave, at most one benchmark runs, and a request is
  refused only while one does.\<close>

theorem one_benchmark_at_a_time:
  assumes "handler_step\<^sup>*\<^sup>* no_handlers p"
  shows "running_count p \<le> 1 \<and> (fst (try_acquire (permits p)) \<longleftrightarrow> running_count p = 0)"
  using reachable_permits [OF assms] by (auto simp: try_acquire_def)

lemma one_benchmark_at_a_time_witness:
  "let p = \<lparr>permits = 0, handlers = [Running Heed, Returned]\<rparr>
   in running_count p \<le> 1 \<and> (fst (try_acquire (permits p)) \<longleftrightarrow> running_count p = 0)"
proof -
  let ?s1 = "\<lparr>permits = 1, handlers = [Arrived Heed]\<rparr>"
  let ?s2 = "\<lparr>permits = 0, handlers = [Running Heed]\<rparr>"
  let ?s3 = "\<lparr>permits = 0, handlers = [Running Heed, Arrived Redb]\<rparr>"
  let ?s4 = "\<lparr>permits = 0, handlers = [Running Heed, Returned]\<rparr>"
  have "handler_step no_handlers ?s1"
    using arrive [of no_handlers Heed] by (simp add: no_handlers_def benchmark_semaphore_def)
  moreover have "handler_step ?s1 ?s2" using start [of 0 ?s1 Heed 0] by (simp add: try_acquire_def)
  moreover have "handler_step ?s2 ?s3" using arrive [of ?s2 Redb] by simp
  moreover have "handler_step ?s3 ?s4" using refuse [of 1 ?s3 Redb 0] by (simp add: try_acquire_def)
  ultimately have "handler_step\<^sup>*\<^sup>* no_handlers ?s4" by (meson converse_rtranclp_into_rtranclp rtranclp.rtrancl_refl)
  from one_benchmark_at_a_time [OF this] show ?thesis by simp
qed

end
