(* ===== verification/BroadcastGuarantees.thy ===== *)
theory BroadcastGuarantees
  imports BroadcastBuilder
begin

text \<open>
  What the broadcast builder guarantees: only a checked analysis of a PDF is printed, Gemini is asked at
  most eight times with growing pauses, its text is the candidate's without the thoughts; and what it does
  not: the sanitizer's result is thrown away.
\<close>

section \<open>What is printed\<close>

lemma prefix_replace_br:
  assumes "prefix p (replace_br s)" "CHR 0x0A \<notin> set p"
  shows "prefix p s"
  using assms
proof (induction p arbitrary: s)
  case (Cons a p)
  then obtain c t where s: "s = c # t"
    by (cases s) (auto simp: replace_br.simps [of "[]"] strip_pre_def)
  show ?case
  proof (cases "strip_pre ''<br>'' s")
    case None
    with Cons.prems(1) s have "a = c" "prefix p (replace_br t)"
      by (simp_all add: replace_br.simps [of "c # t"])
    with Cons.IH [of t] Cons.prems(2) s show ?thesis by simp
  next
    case (Some u)
    then have "replace_br s = CHR 0x0A # replace_br u" by (simp add: replace_br.simps [of s])
    with Cons.prems show ?thesis by simp
  qed
qed simp

lemma no_br_left: "\<not> contains (replace_br s) ''<br>''"
proof (induction s rule: replace_br.induct)
  case (1 s)
  show ?case
  proof (cases "strip_pre ''<br>'' s")
    case (Some t)
    then have "replace_br s = CHR 0x0A # replace_br t" by (simp add: replace_br.simps [of s])
    with 1(2) [OF Some] show ?thesis by (simp add: contains_def sublist_Cons_right)
  next
    case None
    show ?thesis
    proof (cases s)
      case Nil
      then show ?thesis by (simp add: replace_br.simps [of "[]"] strip_pre_def contains_def)
    next
      case (Cons c t)
      with None have eq: "replace_br s = c # replace_br t" by (simp add: replace_br.simps [of "c # t"])
      have "\<not> prefix ''<br>'' (replace_br s)"
        using None prefix_replace_br [of "''<br>''" s] by (auto simp: strip_pre_def split: if_splits)
      moreover have "\<not> contains (replace_br t) ''<br>''" using 1(1) [OF None Cons] .
      ultimately show ?thesis by (simp add: contains_def eq sublist_Cons_right)
    qed
  qed
qed

definition in_unit :: "f64 \<Rightarrow> bool" where
  "in_unit x \<longleftrightarrow> (\<exists>q. x = Fin q \<and> 0 \<le> q \<and> q \<le> 1)"

definition unit_scores :: "market_analysis \<Rightarrow> bool" where
  "unit_scores m \<longleftrightarrow>
     in_unit (liquidity (derivatives_market m)) \<and> in_unit (risk (derivatives_market m)) \<and>
     in_unit (liquidity (spot_market m)) \<and> in_unit (risk (spot_market m))"

lemma validate_score_eq:
  "validate_score segment field x = (if in_unit x then Inr () else Inl (InvalidScore segment field x))"
  by (cases x) (auto simp: validate_score_def in_unit_def)

lemma validate_ok:
  "validate clean r = Inr () \<longleftrightarrow>
     \<not> contains (summary_html r) (replicate 3 (CHR 0x60)) \<and> chars_count (summary_html r) \<le> max_summary_characters \<and>
     unit_scores (analysis r)"
  by (auto simp: validate_def sanitize_html_fragment_def validate_segment_def unit_scores_def Let_def validate_score_eq)

lemma download_ok:
  assumes "download_pdf ops url s = (Inr bytes, s')"
  shows "bytes \<noteq> []" and "has_pdf_magic bytes"
  using assms by (auto simp: download_pdf_def job_bind_Inr split: if_splits)

lemma validate_pdf_ok: "validate_pdf bytes = Inr pdf \<Longrightarrow> pdf = bytes \<and> length bytes \<le> max_inline_pdf_bytes"
  by (auto simp: validate_pdf_def split: if_splits)

text \<open>C37: Nothing unchecked is printed: when the program ends well it downloaded a non-empty PDF of at most
  50 MB with its header in the first 1024 bytes, and prints a summary of at most 4096 characters without
  a code fence and without \<open><br>\<close>, and an analysis whose four scores are finite and between 0 and 1.\<close>

theorem printed_broadcast_is_checked:
  assumes "build_broadcast ops env arguments s = (Inr (html, pretty), s')"
  shows "\<exists>url model pdf s1 (r :: report_analysis). parse_arguments arguments (env ''GEMINI_MODEL'') = Inr (url, model) \<and>
    download_pdf ops url s = (Inr pdf, s1) \<and> has_pdf_magic pdf \<and> 0 < length pdf \<and> length pdf \<le> 50000000 \<and>
    html = replace_br (summary_html r) \<and> \<not> contains html ''<br>'' \<and> chars_count (summary_html r) \<le> 4096 \<and>
    \<not> contains (summary_html r) (replicate 3 (CHR 0x60)) \<and> unit_scores (analysis r) \<and>
    pretty_json ops (analysis r) = Inr pretty"
proof -
  from assms obtain api_key url model down pdf s1 s2 r where parts:
    "parse_arguments arguments (env ''GEMINI_MODEL'') = Inr (url, model)" "download_pdf ops url s = (Inr down, s1)"
    "validate_pdf down = Inr pdf" "analyze_pdf ops model api_key pdf s1 = (Inr r, s2)"
    "html = replace_br (summary_html r)" "pretty_json ops (analysis r) = Inr pretty"
    by (auto simp: build_broadcast_def job_bind_Inr case_prod_beta)
  from parts(4) have "validate (html_clean ops) r = Inr ()"
    by (auto simp: analyze_pdf_def job_bind_Inr)
  then have "\<not> contains (summary_html r) (replicate 3 (CHR 0x60))" "chars_count (summary_html r) \<le> 4096" "unit_scores (analysis r)"
    unfolding validate_ok max_summary_characters_def by blast+
  moreover have "pdf = down" "length pdf \<le> 50000000"
    using validate_pdf_ok [OF parts(3)] by (simp_all add: max_inline_pdf_bytes_def)
  moreover have "0 < length down" "has_pdf_magic down" "\<not> contains html ''<br>''"
    using download_ok [OF parts(2)] no_br_left parts(5) by simp_all
  ultimately show ?thesis
    using parts
    by - (rule exI [of _ url], rule exI [of _ model], rule exI [of _ down], rule exI [of _ s1], rule exI [of _ r], simp)
qed

section \<open>The sanitizer\<close>

lemma validate_ignores_clean: "validate clean r = validate clean' r"
  by (simp add: validate_def sanitize_html_fragment_def)

lemmas attempts_eqs =
  gemini_attempts.simps [where left = 0] gemini_attempts.simps [where left = "Suc left" for left]

lemma attempts_ignore_clean: "gemini_attempts (ops\<lparr>html_clean := f\<rparr>) e k p left = gemini_attempts ops e k p left"
  by (induction left) (simp_all add: attempts_eqs Let_def cong: if_cong)

text \<open>C39: The HTML sanitizer has no influence on what is printed: whatever it would make of the summary, the
  program does the same, because \<open>validate\<close> only looks at whether sanitizing fails and the summary that
  is printed is the one Gemini sent.\<close>

theorem sanitizer_has_no_effect:
  "build_broadcast (ops\<lparr>html_clean := f\<rparr>) env arguments = build_broadcast ops env arguments"
proof -
  have "analyze_pdf (ops\<lparr>html_clean := f\<rparr>) = analyze_pdf ops"
    by (simp add: fun_eq_iff analyze_pdf_def send_gemini_with_retry_def attempts_ignore_clean analysis_payload_def
        validate_ignores_clean [of f _ "html_clean ops"])
  moreover have "download_pdf (ops\<lparr>html_clean := f\<rparr>) = download_pdf ops"
    by (simp add: fun_eq_iff download_pdf_def)
  ultimately show ?thesis by (simp add: build_broadcast_def)
qed

section \<open>Retries\<close>

text \<open>\<open>requests\<close> counts the requests made to Gemini and \<open>slept\<close> the seconds waited.\<close>

definition metered :: "'s builder_ops \<Rightarrow> ('s \<Rightarrow> nat) \<Rightarrow> ('s \<Rightarrow> nat) \<Rightarrow> bool" where
  "metered ops requests slept \<longleftrightarrow>
     (\<forall>e k p s. requests (snd (gemini_post ops e k p s)) = requests s + 1 \<and> slept (snd (gemini_post ops e k p s)) = slept s) \<and>
     (\<forall>d s. requests (sleep_seconds ops d s) = requests s \<and> slept (sleep_seconds ops d s) = slept s + d)"

definition never_says_when :: "'s builder_ops \<Rightarrow> bool" where
  "never_says_when ops \<longleftrightarrow>
     (\<forall>e k p s r s'. gemini_post ops e k p s = (Inr r, s') \<longrightarrow> retry_after_seconds r = None)"

lemma attempts_metered:
  assumes "metered ops requests slept" "left < 8"
  shows "\<exists>n. 1 \<le> n \<and> n \<le> Suc left \<and>
    requests (snd (gemini_attempts ops e k p left s)) = requests s + n \<and>
    slept s + 2 ^ (7 - left) * (2 ^ (n - 1) - 1) \<le> slept (snd (gemini_attempts ops e k p left s)) \<and>
    (never_says_when ops \<longrightarrow>
       slept (snd (gemini_attempts ops e k p left s)) = slept s + 2 ^ (7 - left) * (2 ^ (n - 1) - 1))"
  using assms(2)
proof (induction left arbitrary: s rule: less_induct)
  case (less left)
  obtain q s1 where post: "gemini_post ops e k p s = (q, s1)" by (cases "gemini_post ops e k p s")
  with assms(1) have s1: "requests s1 = requests s + 1" "slept s1 = slept s"
    unfolding metered_def by (metis snd_conv)+
  let ?out = "gemini_attempts ops e k p left s"
  have one: ?case if "snd ?out = s1"
    using that s1 by (intro exI [of _ 1]) simp
  show ?case
  proof (cases "\<exists>r body left'. q = Inr r \<and> gr_text r = Inr body \<and> \<not> status_success (gr_status r) \<and>
      is_retryable_status (gr_status r) \<and> left = Suc left'")
    case False
    then have "snd ?out = s1"
      by (cases q; cases "gr_text (projr q)"; cases left)
        (auto simp: gemini_attempts.simps [of ops] post job_bind_def job_map_err_def job_lift_def job_return_def job_fail_def Let_def)
    then show ?thesis by (rule one)
  next
    case True
    then obtain r body left' where r: "q = Inr r" "gr_text r = Inr body" "\<not> status_success (gr_status r)"
      "is_retryable_status (gr_status r)" "left = Suc left'" by blast
    define d where "d = backoff_delay_seconds (8 - left) (retry_after_seconds r)"
    let ?s2 = "sleep_seconds ops d s1"
    have out: "?out = gemini_attempts ops e k p left' ?s2"
      using r by (simp add: attempts_eqs(2) post job_bind_def job_map_err_def job_lift_def Let_def d_def
          max_gemini_attempts_def)
    have s2: "requests ?s2 = requests s + 1" "slept ?s2 = slept s + d"
      using assms(1) s1 by (simp_all add: metered_def)
    have exps: "7 - left' = Suc (7 - left)" "8 - left - 1 = 7 - left" using r(5) less.prems by auto
    have "retry_after_seconds r = None" if "never_says_when ops"
      using that post r(1) unfolding never_says_when_def by blast
    then have d: "2 ^ (7 - left) \<le> d" "never_says_when ops \<Longrightarrow> d = 2 ^ (7 - left)"
      using exps(2) by (simp_all add: d_def backoff_delay_seconds_def)
    from less.IH [of left' ?s2] r(5) less.prems obtain n where n: "1 \<le> n" "n \<le> Suc left'"
      "requests (snd ?out) = requests ?s2 + n"
      "slept ?s2 + 2 ^ (7 - left') * (2 ^ (n - 1) - 1) \<le> slept (snd ?out)"
      "never_says_when ops \<longrightarrow> slept (snd ?out) = slept ?s2 + 2 ^ (7 - left') * (2 ^ (n - 1) - 1)"
      unfolding out by auto
    have sum: "2 ^ (7 - left) + 2 ^ (7 - left') * (2 ^ (n - 1) - 1) = 2 ^ (7 - left) * (2 ^ (Suc n - 1) - (1::nat))"
    proof -
      obtain m where "n = Suc m" using n(1) by (cases n) auto
      moreover have "(2::nat) ^ m \<ge> 1" by simp
      ultimately show ?thesis by (simp add: exps(1) algebra_simps diff_mult_distrib2)
    qed
    show ?thesis
      by (rule exI [of _ "Suc n"]) (use n s2 d sum r(5) in auto)
  qed
qed

text \<open>C38: Gemini is never flooded: one to eight requests are made, and \<open>n\<close> requests take at least
  \<open>2^(n-1) - 1\<close> seconds of waiting, exactly that if Gemini never names a time itself.\<close>

theorem gemini_retries_bounded:
  assumes "metered ops requests slept"
  shows "\<exists>n. 1 \<le> n \<and> n \<le> 8 \<and>
    requests (snd (send_gemini_with_retry ops endpoint api_key payload s)) = requests s + n \<and>
    slept s + (2 ^ (n - 1) - 1) \<le> slept (snd (send_gemini_with_retry ops endpoint api_key payload s)) \<and>
    (never_says_when ops \<longrightarrow>
       slept (snd (send_gemini_with_retry ops endpoint api_key payload s)) = slept s + (2 ^ (n - 1) - 1))"
  using attempts_metered [OF assms, of 7 endpoint api_key payload s]
  by (simp add: send_gemini_with_retry_def max_gemini_attempts_def)

section \<open>Gemini's text\<close>

definition spoken :: "json \<Rightarrow> rstr" where
  "spoken part =
     (if get_field ''thought'' part = Some (JBool True) then []
      else case get_field ''text'' part of Some (JString t) \<Rightarrow> t | _ \<Rightarrow> [])"

definition parts_of :: "json \<Rightarrow> json list" where
  "parts_of candidate =
     concat (map array_values (concat (map (field_values ''parts'') (field_values ''content'' candidate))))"

lemma as_bool_Some [simp]: "as_bool v = Some b \<longleftrightarrow> v = JBool b"
  by (cases v) auto

lemma as_array_Some [simp]: "as_array v = Some vs \<longleftrightarrow> v = JArray vs"
  by (cases v) auto

lemma as_str_other: "as_str v = (case v of JString t \<Rightarrow> Some t | _ \<Rightarrow> None)"
  by (cases v) auto

lemma as_array_other: "as_array v = (case v of JArray vs \<Rightarrow> Some vs | _ \<Rightarrow> None)"
  by (cases v) auto

lemma push_part_spoken: "push_part text part = text @ spoken part"
  by (auto simp: push_part_def spoken_def Option.bind_eq_Some_conv as_str_other split: option.split json.split)

lemma candidate_text_spoken: "candidate_text candidate = concat (map spoken (parts_of candidate))"
proof -
  have "foldl push_part acc ps = acc @ concat (map spoken ps)" for acc ps
    by (induction ps arbitrary: acc) (simp_all add: push_part_spoken)
  then show ?thesis
    by (auto simp: candidate_text_def parts_of_def field_values_def as_array_other split: option.split json.split)
qed

text \<open>The answer that is parsed is exactly what the first candidate says: the texts of its parts in order
  without the parts marked as thoughts, and only if the candidate finished normally and its text is
  not blank.\<close>

theorem generated_text_is_spoken:
  "extract_generated_text show_json response = Inr text \<longleftrightarrow>
     (\<exists>candidate others. get_field ''candidates'' response = Some (JArray (candidate # others)) \<and>
        (\<forall>reason. get_field ''finishReason'' candidate = Some (JString reason) \<longrightarrow> reason = ''STOP'') \<and>
        text = concat (map spoken (parts_of candidate)) \<and> \<not> is_blank text)"
proof -
  have first: "first_of xs = Some x \<longleftrightarrow> (\<exists>ys. xs = x # ys)" for xs :: "json list" and x
    by (cases xs) auto
  have reason: "Option.bind (get_field ''finishReason'' c) as_str \<noteq> None \<and>
      Option.bind (get_field ''finishReason'' c) as_str \<noteq> Some ''STOP'' \<longleftrightarrow>
      (\<exists>reason. get_field ''finishReason'' c = Some (JString reason) \<and> reason \<noteq> ''STOP'')" for c
  proof -
    have "Option.bind x as_str = Some t \<longleftrightarrow> x = Some (JString t)" for x t by (cases x) auto
    note this [of "get_field ''finishReason'' c", symmetric]
    then show ?thesis by (cases "Option.bind (get_field ''finishReason'' c) as_str") auto
  qed
  show ?thesis
    unfolding extract_generated_text_def Let_def reason candidate_text_spoken
    by (auto simp: Option.bind_eq_Some_conv first bind_res_def ok_or_def split: option.splits)
qed

section \<open>Model names\<close>

text \<open>Every model is known by its full name and by the name without \<open>gemini-\<close>, and by no other.\<close>

theorem model_names:
  "parse_model value = Inr m \<longleftrightarrow> value = model_name m \<or> ''gemini-'' @ value = model_name m"
  by (cases m) (auto simp: parse_model_def)

section \<open>A concrete world\<close>

text \<open>The requests made and the seconds slept; \<open>busy\<close> is how many requests are answered with 503.\<close>

definition sample_report :: report_analysis where
  "sample_report =
     \<lparr>summary_html = ''<b>Neutro.</b><br>'',
      analysis = \<lparr>overall_rating = NeutralExpectations, derivatives_market = \<lparr>liquidity = Fin 1, risk = Fin 0\<rparr>,
        spot_market = \<lparr>liquidity = Fin 0, risk = Fin 1\<rparr>\<rparr>\<rparr>"

definition sample_answer :: json where
  "sample_answer =
     JObject [(''candidates'', JArray [JObject
       [(''content'', JObject [(''parts'', JArray
          [JObject [(''text'', JString ''thinking''), (''thought'', JBool True)], JObject [(''text'', JString ''{}'')]])]),
        (''finishReason'', JString ''STOP'')]])]"

definition sample_builder :: "nat \<Rightarrow> (nat \<times> nat) builder_ops" where
  "sample_builder busy =
     \<lparr>http_build = Inr (),
      http_get = (\<lambda>_ s. (Inr \<lparr>pr_status = 200, pr_content_type = Some ''application/pdf'', pr_text = Inr [],
        pr_chunks = [Inr ''%PD'', Inr ''F-1.7'']\<rparr>, s)),
      gemini_post = (\<lambda>_ _ _ s. (Inr \<lparr>gr_status = (if fst s < busy then 503 else 200), gr_retry_after = None, gr_text = Inr ''...''\<rparr>,
        (fst s + 1, snd s))),
      sleep_seconds = (\<lambda>d s. (fst s, snd s + d)),
      base64_encode = (\<lambda>b. b), json_parse = (\<lambda>_. Inr sample_answer), json_show = (\<lambda>_. []),
      analysis_parse = (\<lambda>_. Inr sample_report), html_clean = (\<lambda>_ h. h), pretty_json = (\<lambda>_. Inr ''{...}'')\<rparr>"

lemma sample_metered: "metered (sample_builder busy) fst snd" "never_says_when (sample_builder busy)"
  by (auto simp: metered_def never_says_when_def sample_builder_def retry_after_seconds_def)

text \<open>When failure is inevitable the program waits 127 seconds between its eight requests.\<close>

lemma inevitable_failure_waits_127:
  "snd (send_gemini_with_retry (sample_builder 100) ''e'' ''k'' JNull (0, 0)) = (8, 127)"
  by code_simp

lemma gemini_retries_bounded_witness:
  "\<exists>n. 1 \<le> n \<and> n \<le> 8 \<and>
     fst (snd (send_gemini_with_retry (sample_builder 2) ''e'' ''k'' JNull (0, 0))) = n \<and>
     snd (snd (send_gemini_with_retry (sample_builder 2) ''e'' ''k'' JNull (0, 0))) = 2 ^ (n - 1) - 1"
  using gemini_retries_bounded [OF sample_metered(1), of 2 "''e''" "''k''" JNull "(0, 0)"] sample_metered(2) [of 2] by auto

lemma sample_text: "\<not> is_blank ''{}''"
  by code_simp

lemma generated_text_is_spoken_witness:
  "extract_generated_text (\<lambda>_. []) sample_answer = Inr ''{}''"
  by (subst generated_text_is_spoken) (simp add: sample_answer_def parts_of_def field_values_def spoken_def sample_text)

lemma sample_valid: "validate clean sample_report = Inr ()"
proof -
  have "\<not> contains ''<b>Neutro.</b><br>'' (replicate 3 (CHR 0x60))" "chars_count ''<b>Neutro.</b><br>'' \<le> max_summary_characters"
    by code_simp+
  then show ?thesis by (simp add: validate_ok sample_report_def unit_scores_def in_unit_def)
qed

lemma sample_download: "download_pdf (sample_builder busy) ''url'' s = (Inr ''%PDF-1.7'', s)"
proof -
  have "has_pdf_magic ''%PDF-1.7''" by code_simp
  then show ?thesis
    by (simp add: download_pdf_def sample_builder_def job_bind_def job_map_err_def job_lift_def job_return_def status_success_def)
qed

lemma sample_send:
  "send_gemini_with_retry (sample_builder 1) e k p (0, 0) = (Inr ''...'', (2, 1))"
  by code_simp

lemma sample_fields:
  "http_build (sample_builder busy) = Inr ()" "json_parse (sample_builder busy) b = Inr sample_answer"
  "json_show (sample_builder busy) = (\<lambda>_. [])" "analysis_parse (sample_builder busy) b = Inr sample_report"
  "html_clean (sample_builder busy) = (\<lambda>_ h. h)" "pretty_json (sample_builder busy) m = Inr ''{...}''"
  by (simp_all add: sample_builder_def)

lemma sample_extract: "extract_generated_text (\<lambda>_. []) sample_answer = Inr ''{}''"
  by code_simp

lemma sample_run:
  "build_broadcast (sample_builder 1) (\<lambda>_. Some ''gemini-2.5-pro'') [''bb'', ''url''] (0, 0) =
     (Inr (replace_br ''<b>Neutro.</b><br>'', ''{...}''), (2, 1))"
proof -
  have args: "parse_arguments [''bb'', ''url''] (Some ''gemini-2.5-pro'') = Inr (''url'', Gemini25Pro)" by code_simp
  have summary: "summary_html sample_report = ''<b>Neutro.</b><br>''" by (simp add: sample_report_def)
  have pdf: "validate_pdf ''%PDF-1.7'' = Inr ''%PDF-1.7''" by (simp add: validate_pdf_def max_inline_pdf_bytes_def)
  have "analyze_pdf (sample_builder 1) Gemini25Pro k ''%PDF-1.7'' (0, 0) = (Inr sample_report, (2, 1))" for k
    using sample_send sample_extract sample_valid
    by (simp add: analyze_pdf_def job_bind_def job_map_err_def job_lift_def job_return_def sample_fields del: One_nat_def)
  then show ?thesis
    by (simp add: build_broadcast_def job_bind_def job_lift_def job_return_def args pdf sample_download sample_fields summary
        del: One_nat_def)
qed

lemma printed_broadcast_is_checked_witness:
  "\<exists>r :: report_analysis. unit_scores (analysis r) \<and> chars_count (summary_html r) \<le> 4096 \<and>
     replace_br ''<b>Neutro.</b><br>'' = replace_br (summary_html r)"
  using printed_broadcast_is_checked [OF sample_run] by blast

section \<open>Texts in errors\<close>

lemma chars_count_Cons: "chars_count (c # s) = (if is_continuation c then chars_count s else Suc (chars_count s))"
  by (simp add: chars_count_def)

lemma take_chars_all: "chars_count s \<le> n \<Longrightarrow> take_chars n s = s"
  by (induction n s rule: take_chars.induct) (auto simp: chars_count_Cons split: nat.split if_splits)

lemma take_chars_count: "chars_count (take_chars n s) \<le> n"
  by (induction n s rule: take_chars.induct) (auto simp: chars_count_Cons split: nat.split if_splits)

text \<open>The limit is in characters but the test is in bytes: a text that was not cut at all is marked as
  truncated when it has more bytes than the limit.\<close>

theorem whole_text_marked_truncated:
  assumes "chars_count value \<le> 2000" "2000 < length value"
  shows "truncate_for_error value = value @ ''...[truncated; additional '' @ show_nat (length value) @ '' chars]''"
  using assms by (simp add: truncate_for_error_def take_chars_all)

end
