(* ===== verification/SqliteWrapper.thy ===== *)
theory SqliteWrapper
  imports Jobs
begin

text \<open>
  The SQLite wrapper, \<open>src/src/db/sqlite/sqlite_wrapper.rs\<close>: how a database is opened and its model set up,
  and the maintenance that merges the write-ahead log. The driver is the record \<open>sqlite_ops\<close>; bulk
  loading is in \<open>Ingest\<close>.
\<close>

datatype sqlite_error =
    BadPath rstr
  | Opening rstr
  | ModelSetup nat rstr rstr
  | Maintenance rstr rstr

text \<open>\<open>SqliteConnectOptions\<close> and the pool's size, as far as the code sets them; times are seconds.\<close>

datatype journal_mode = Wal
datatype synchronous_mode = SynchronousOff

record connect_options =
  create_if_missing :: bool
  journal_mode :: journal_mode
  synchronous :: synchronous_mode
  busy_timeout :: nat
  pragmas :: "(rstr \<times> rstr) list"
  max_connections :: nat

definition sqlite_options :: connect_options where
  "sqlite_options =
     \<lparr>create_if_missing = True, journal_mode = Wal, synchronous = SynchronousOff, busy_timeout = 120,
      pragmas = [(''cache_size'', ''-65536''), (''temp_store'', ''FILE''), (''wal_autocheckpoint'', ''32768''),
        (''mmap_size'', ''17179869184''), (''locking_mode'', ''EXCLUSIVE'')],
      max_connections = 1\<rparr>"

record 's sqlite_ops =
  url_options :: "rstr \<Rightarrow> (rstr, unit) result"
  connect_with :: "rstr \<Rightarrow> connect_options \<Rightarrow> (rstr, 's, unit) job"
  execute :: "rstr \<Rightarrow> (rstr, 's, unit) job"
  close_pool :: "'s \<Rightarrow> 's"

definition apply_model_setup :: "'s sqlite_ops \<Rightarrow> rstr list \<Rightarrow> (sqlite_error, 's, unit) job" where
  "apply_model_setup ops sqls =
     job_iter (\<lambda>(i, sql) _. job_map_err (ModelSetup i sql) (execute ops sql)) (List.enumerate 0 sqls) ()"

definition open_db :: "'s sqlite_ops \<Rightarrow> rstr \<Rightarrow> rstr list \<Rightarrow> (sqlite_error, 's, unit) job" where
  "open_db ops db_path model_setup_sqls =
     job_bind (job_lift (map_err BadPath (url_options ops (''sqlite://'' @ db_path)))) (\<lambda>_.
     job_bind (job_map_err Opening (connect_with ops (''sqlite://'' @ db_path) sqlite_options)) (\<lambda>_.
     apply_model_setup ops model_setup_sqls))"

definition close_db :: "'s sqlite_ops \<Rightarrow> (sqlite_error, 's, unit) job" where
  "close_db ops s = (Inr (), close_pool ops s)"

definition passive_synchronize_wal :: "'s sqlite_ops \<Rightarrow> (sqlite_error, 's, unit) job" where
  "passive_synchronize_wal ops =
     job_map_err (Maintenance ''WAL checkpoint PASSIVE: '') (execute ops ''PRAGMA wal_checkpoint(PASSIVE)'')"

definition perform_daily_data_maintenance :: "'s sqlite_ops \<Rightarrow> (sqlite_error, 's, unit) job" where
  "perform_daily_data_maintenance ops =
     job_bind (passive_synchronize_wal ops) (\<lambda>_.
     job_map_err (Maintenance ''WAL checkpoint TRUNCATE: '') (execute ops ''PRAGMA wal_checkpoint(TRUNCATE)''))"

definition perform_weekly_data_maintenance :: "'s sqlite_ops \<Rightarrow> (sqlite_error, 's, unit) job" where
  "perform_weekly_data_maintenance ops =
     job_bind (perform_daily_data_maintenance ops) (\<lambda>_.
     job_bind (job_map_err (Maintenance ''Error during VACUUM: '') (execute ops ''VACUUM'')) (\<lambda>_.
     job_bind (job_map_err (Maintenance ''Error during optimize: '') (execute ops ''PRAGMA optimize'')) (\<lambda>_.
     job_map_err (Maintenance ''Final WAL checkpoint TRUNCATE: '') (execute ops ''PRAGMA wal_checkpoint(TRUNCATE)''))))"

section \<open>What is executed\<close>

text \<open>\<open>out\<close> is the statements that have been executed: a failed one has no effect.\<close>

definition executes :: "'s sqlite_ops \<Rightarrow> ('s \<Rightarrow> rstr list) \<Rightarrow> bool" where
  "executes ops out \<longleftrightarrow> (\<forall>sql. emits out [sql] (execute ops sql))"

definition connects :: "'s sqlite_ops \<Rightarrow> ('s \<Rightarrow> rstr list) \<Rightarrow> bool" where
  "connects ops out \<longleftrightarrow> (\<forall>url options s. out (snd (connect_with ops url options s)) = out s)"

lemma emits_execute: "executes ops out \<Longrightarrow> emits out [sql] (job_map_err f (execute ops sql))"
  by (simp add: executes_def emits_map_err)

lemma daily_emits:
  assumes "executes ops out"
  shows "emits out [''PRAGMA wal_checkpoint(PASSIVE)'', ''PRAGMA wal_checkpoint(TRUNCATE)''] (perform_daily_data_maintenance ops)"
  using emits_bind [OF emits_execute [OF assms] emits_execute [OF assms]]
  by (simp add: perform_daily_data_maintenance_def passive_synchronize_wal_def)

text \<open>The weekly maintenance merges the log before it rewrites the database and again after it: the
  five statements are executed in this order, all of them if it succeeds, and only those before the
  first that fails otherwise.\<close>

theorem weekly_maintenance_in_order:
  assumes "executes ops out"
  shows "emits out [''PRAGMA wal_checkpoint(PASSIVE)'', ''PRAGMA wal_checkpoint(TRUNCATE)'', ''VACUUM'', ''PRAGMA optimize'',
      ''PRAGMA wal_checkpoint(TRUNCATE)''] (perform_weekly_data_maintenance ops)"
proof -
  note exec = emits_execute [OF assms]
  have "emits out ([''PRAGMA wal_checkpoint(PASSIVE)'', ''PRAGMA wal_checkpoint(TRUNCATE)''] @ [''VACUUM''] @
      [''PRAGMA optimize''] @ [''PRAGMA wal_checkpoint(TRUNCATE)'']) (perform_weekly_data_maintenance ops)"
    unfolding perform_weekly_data_maintenance_def by (intro emits_bind daily_emits assms exec)
  then show ?thesis by simp
qed

text \<open>Opening a database executes the statements of the model in their order, stopping at the first that
  fails, whose position and text the error names.\<close>

theorem model_setup_in_order:
  assumes "executes ops out"
  shows "emits out sqls (apply_model_setup ops sqls)"
proof -
  have "emits out (map snd (List.enumerate 0 sqls)) (apply_model_setup ops sqls)"
    unfolding apply_model_setup_def by (rule emits_iter) (simp add: emits_execute [OF assms])
  then show ?thesis by simp
qed

lemma setup_error_position:
  "apply_model_setup ops sqls s = (Inl e, s') \<Longrightarrow> \<exists>i err. i < length sqls \<and> e = ModelSetup i (sqls ! i) err"
proof -
  have gen: "\<exists>i err. i < length sqls \<and> e = ModelSetup (k + i) (sqls ! i) err"
    if "job_iter (\<lambda>(i, sql) _. job_map_err (ModelSetup i sql) (execute ops sql)) (List.enumerate k sqls) () s = (Inl e, s')"
    for k sqls s
    using that
  proof (induction sqls arbitrary: k s)
    case Nil
    then show ?case by (simp add: job_return_def)
  next
    case (Cons sql sqls)
    show ?case
    proof (cases "execute ops sql s")
      case (Pair r s1)
      show ?thesis
      proof (cases r)
        case (Inl err)
        with Cons.prems Pair have "e = ModelSetup k sql err" by (simp add: job_bind_def job_map_err_def)
        then show ?thesis by (intro exI [of _ 0]) simp
      next
        case (Inr u)
        with Pair have "job_map_err (ModelSetup k sql) (execute ops sql) s = (Inr (), s1)" by (simp add: job_map_err_def)
        with Cons.prems
        have "job_iter (\<lambda>(i, sql) _. job_map_err (ModelSetup i sql) (execute ops sql)) (List.enumerate (Suc k) sqls) () s1 = (Inl e, s')"
          by (simp add: job_bind_def)
        from Cons.IH [OF this] obtain i err where "i < length sqls" "e = ModelSetup (Suc k + i) (sqls ! i) err" by blast
        then show ?thesis by (intro exI [of _ "Suc i"]) simp
      qed
    qed
  qed
  show "apply_model_setup ops sqls s = (Inl e, s') \<Longrightarrow> \<exists>i err. i < length sqls \<and> e = ModelSetup i (sqls ! i) err"
    using gen [of 0 sqls s] by (simp add: apply_model_setup_def)
qed

end
