(* ===== verification/Encodings.thy ===== *)
theory Encodings
  imports Prelude
begin

text \<open>
  How values are stored in the embedded databases, \<open>src/src/db/heed/serde.rs\<close> and
  \<open>src/src/db/redb/serde.rs\<close>: the bytes of a plain value as they lie in memory, or what rkyv makes of
  it. The memory layout of a type (\<open>bytemuck::Pod\<close>) and rkyv are records with their laws; a
  read through a pointer is undefined when the bytes are too few or not aligned.
\<close>

section \<open>Layouts\<close>

record 'v pod =
  size_of :: nat
  align_of :: nat
  bytes_of :: "'v \<Rightarrow> rstr"
  value_of :: "rstr \<Rightarrow> 'v"

text \<open>A plain type: a value is its bytes, all of them and nothing else.\<close>

definition pod_law :: "'v pod \<Rightarrow> bool" where
  "pod_law t \<longleftrightarrow> 0 < align_of t \<and> (\<forall>v. length (bytes_of t v) = size_of t \<and> value_of t (bytes_of t v) = v)"

text \<open>Borrowed bytes: where they begin in memory, and what they are.\<close>

record slice =
  address :: nat
  contents :: rstr

datatype 'v read = Value 'v | Panics | Undefined

text \<open>Dereferencing a \<open>*const T\<close> to the slice, and \<open>ptr::read_unaligned\<close>.\<close>

definition deref_pointer :: "'v pod \<Rightarrow> slice \<Rightarrow> 'v read" where
  "deref_pointer t data =
     (if size_of t \<le> length (contents data) \<and> address data mod align_of t = 0
      then Value (value_of t (take (size_of t) (contents data)))
      else Undefined)"

definition pointer_read_unaligned :: "'v pod \<Rightarrow> slice \<Rightarrow> 'v read" where
  "pointer_read_unaligned t data =
     (if size_of t \<le> length (contents data) then Value (value_of t (take (size_of t) (contents data))) else Undefined)"

section \<open>Heed\<close>

datatype codec_error = InvalidWidth nat nat | RkyvFailed rstr | CastError

text \<open>A \<open>HeedPodRef\<close> is the borrowed bytes; \<open>debug\<close> says whether debug assertions are compiled in.\<close>

definition heed_bytes_encode :: "'v pod \<Rightarrow> 'v \<Rightarrow> (codec_error, rstr) result" where
  "heed_bytes_encode t item = Inr (bytes_of t item)"

definition heed_bytes_decode :: "bool \<Rightarrow> 'v pod \<Rightarrow> slice \<Rightarrow> (codec_error, slice) result" where
  "heed_bytes_decode debug t data =
     (if debug \<and> length (contents data) \<noteq> size_of t then Inl (InvalidWidth (length (contents data)) (size_of t))
      else Inr data)"

definition as_bytes :: "slice \<Rightarrow> rstr" where
  "as_bytes r = contents r"

definition try_as_aligned :: "'v pod \<Rightarrow> slice \<Rightarrow> (codec_error, 'v) result" where
  "try_as_aligned t r =
     (if address r mod align_of t \<noteq> 0 \<or> length (contents r) \<noteq> size_of t then Inl CastError
      else Inr (value_of t (contents r)))"

definition read_unaligned :: "'v pod \<Rightarrow> slice \<Rightarrow> 'v read" where
  "read_unaligned t r = (if length (contents r) = size_of t then Value (value_of t (contents r)) else Panics)"

definition as_aligned_unchecked :: "'v pod \<Rightarrow> slice \<Rightarrow> 'v read" where
  "as_aligned_unchecked t r = deref_pointer t r"

section \<open>ReDB\<close>

definition mmap_fixed_width :: "'v pod \<Rightarrow> nat option" where
  "mmap_fixed_width t = Some (size_of t)"

definition mmap_from_bytes :: "'v pod \<Rightarrow> slice \<Rightarrow> 'v read" where
  "mmap_from_bytes t data = deref_pointer t data"

definition mmap_as_bytes :: "'v pod \<Rightarrow> 'v \<Rightarrow> rstr" where
  "mmap_as_bytes t v = bytes_of t v"

definition mmap_unaligned_from_bytes :: "bool \<Rightarrow> 'v pod \<Rightarrow> slice \<Rightarrow> 'v read" where
  "mmap_unaligned_from_bytes debug t data =
     (if debug \<and> length (contents data) \<noteq> size_of t then Panics else pointer_read_unaligned t data)"

section \<open>Rkyv\<close>

text \<open>\<open>rkyv::to_bytes\<close>, and \<open>rkyv::access_unchecked\<close> on what it made of a value.\<close>

record ('v, 'r) rkyv =
  rkyv_to_bytes :: "'v \<Rightarrow> (rstr, rstr) result"
  rkyv_access :: "rstr \<Rightarrow> 'r"

definition rkyv_law :: "('v, 'r) rkyv \<Rightarrow> ('v \<Rightarrow> 'r) \<Rightarrow> bool" where
  "rkyv_law k archived \<longleftrightarrow> (\<forall>v bytes. rkyv_to_bytes k v = Inr bytes \<longrightarrow> rkyv_access k bytes = archived v)"

definition heed_rkyv_encode :: "('v, 'r) rkyv \<Rightarrow> 'v \<Rightarrow> (codec_error, rstr) result" where
  "heed_rkyv_encode k item = map_err RkyvFailed (rkyv_to_bytes k item)"

definition heed_rkyv_decode :: "('v, 'r) rkyv \<Rightarrow> slice \<Rightarrow> (codec_error, 'r) result" where
  "heed_rkyv_decode k data = Inr (rkyv_access k (contents data))"

datatype rkyv_cow = Borrowed rstr | Owned rstr

fun cow_as_ref :: "rkyv_cow \<Rightarrow> rstr" where
  "cow_as_ref (Borrowed b) = b"
| "cow_as_ref (Owned b) = b"

definition wrapper_from_bytes :: "slice \<Rightarrow> rkyv_cow" where
  "wrapper_from_bytes data = Borrowed (contents data)"

definition wrapper_from_value :: "('v, 'r) rkyv \<Rightarrow> 'v \<Rightarrow> (rstr, rkyv_cow) result" where
  "wrapper_from_value k value = bind_res (rkyv_to_bytes k value) (\<lambda>bytes. Inr (Owned bytes))"

definition wrapper_deref :: "('v, 'r) rkyv \<Rightarrow> rkyv_cow \<Rightarrow> 'r" where
  "wrapper_deref k w = rkyv_access k (cow_as_ref w)"

section \<open>Properties\<close>

text \<open>A stored plain value is read back as it was, wherever the database put its bytes: through the Heed
  codec with the unaligned read and through ReDB's unaligned macro always, through the typed references
  (Heed's \<open>as_aligned_unchecked\<close>, ReDB's mmap macro) exactly when the bytes happen to be aligned; otherwise
  these are undefined, in release builds as in debug builds.\<close>

theorem plain_values_read_back:
  assumes "pod_law t"
  shows "heed_bytes_encode t v = Inr (mmap_as_bytes t v) \<and>
    (\<forall>at debug. let data = \<lparr>address = at, contents = mmap_as_bytes t v\<rparr> in
       heed_bytes_decode debug t data = Inr data \<and> read_unaligned t data = Value v \<and>
       mmap_unaligned_from_bytes debug t data = Value v \<and>
       as_aligned_unchecked t data = (if at mod align_of t = 0 then Value v else Undefined) \<and>
       mmap_from_bytes t data = (if at mod align_of t = 0 then Value v else Undefined) \<and>
       (try_as_aligned t data = Inr v \<longleftrightarrow> as_aligned_unchecked t data = Value v))"
  using assms
  by (simp add: pod_law_def Let_def heed_bytes_encode_def mmap_as_bytes_def heed_bytes_decode_def read_unaligned_def
      mmap_unaligned_from_bytes_def as_aligned_unchecked_def mmap_from_bytes_def deref_pointer_def
      pointer_read_unaligned_def try_as_aligned_def)

text \<open>The checks that debug builds make are all that keeps a value of the wrong width from being read: without
  them the Heed codec accepts it, and a typed reference to too few bytes is undefined.\<close>

theorem wrong_width_unchecked_in_release:
  assumes "length (contents data) < size_of t"
  shows "(\<exists>e. heed_bytes_decode True t data = Inl e) \<and> heed_bytes_decode False t data = Inr data \<and>
    as_aligned_unchecked t data = Undefined \<and> mmap_unaligned_from_bytes False t data = Undefined"
  using assms
  by (simp add: heed_bytes_decode_def as_aligned_unchecked_def mmap_unaligned_from_bytes_def deref_pointer_def
      pointer_read_unaligned_def)

text \<open>An archived value is read back from what was stored of it, by Heed's codec and by ReDB's wrapper, whether
  the wrapper owns its bytes or borrows them from the database.\<close>

theorem archived_values_read_back:
  assumes "rkyv_law k archived" "wrapper_from_value k v = Inr w"
  shows "heed_rkyv_encode k v = Inr (cow_as_ref w) \<and> wrapper_deref k w = archived v \<and>
    (\<forall>at. wrapper_deref k (wrapper_from_bytes \<lparr>address = at, contents = cow_as_ref w\<rparr>) = archived v \<and>
       heed_rkyv_decode k \<lparr>address = at, contents = cow_as_ref w\<rparr> = Inr (archived v))"
  using assms
  by (auto simp: rkyv_law_def wrapper_from_value_def heed_rkyv_encode_def wrapper_deref_def wrapper_from_bytes_def
      heed_rkyv_decode_def)

text \<open>A two-byte type aligned to two.\<close>

definition pair_pod :: "(char \<times> char) pod" where
  "pair_pod = \<lparr>size_of = 2, align_of = 2, bytes_of = (\<lambda>(a, b). [a, b]), value_of = (\<lambda>bs. (bs ! 0, bs ! 1))\<rparr>"

lemma plain_values_read_back_witness:
  "let data = \<lparr>address = 7, contents = ''ab''\<rparr> in
     read_unaligned pair_pod data = Value (CHR ''a'', CHR ''b'') \<and> mmap_from_bytes pair_pod data = Undefined"
proof -
  have "pod_law pair_pod" by (auto simp: pod_law_def pair_pod_def)
  from plain_values_read_back [OF this, of "(CHR ''a'', CHR ''b'')"] show ?thesis
    by (simp add: Let_def mmap_as_bytes_def pair_pod_def)
qed

end
