(* ===== verification/GatewayLifecycle.thy ===== *)
theory GatewayLifecycle
  imports TelegramGateway RouterSystem
begin

text \<open>
  The life of a Telegram gateway, \<open>TelegramGateway::new\<close> to \<open>await_termination\<close> of
  \<open>src/src/messaging/gateways/telegram_gateway.rs\<close>: the event loop, the hand-over of its
  updates to the router, and the sending task, running together. The router's own tasks are
  \<open>RouterSystem\<close>; here they are whatever may take from the incoming channel, queue outgoing
  messages and close the outgoing channel at the end of the shut-down.
\<close>

section \<open>The event loop\<close>

text \<open>
  What the dispatcher does with an update: messages and button clicks have an endpoint, the
  other kinds of update have none and are dropped.
\<close>

datatype update = UpdateMessage message | UpdateCallback callback_query | OtherUpdate

definition deliver_update :: "('c, telegram_mo) chan_ops \<Rightarrow> update \<Rightarrow> 'c \<Rightarrow> 'c delivery option" where
  "deliver_update ops u c =
     (case u of
        UpdateMessage m \<Rightarrow> Some (handler ops m c)
      | UpdateCallback q \<Rightarrow> Some (on_callback ops q c)
      | OtherUpdate \<Rightarrow> None)"

fun update_mo :: "update \<Rightarrow> telegram_mo option" where
  "update_mo (UpdateMessage m) = Some (Message m)"
| "update_mo (UpdateCallback q) = Some (CallbackQuery q)"
| "update_mo OtherUpdate = None"

text \<open>
  \<open>'w\<close> is the world outside; both dispatchers return when they are told to stop (Ctrl-C or
  SIGTERM), with nothing to report.
\<close>

record ('u, 't, 'b, 'w) dispatcher_ops =
  dispatch_polling :: "'w \<Rightarrow> 'w"
  dispatch_with_listener :: "('u, 't, 'b) serving \<Rightarrow> 'w \<Rightarrow> 'w"
  log_error :: "webhook_error \<Rightarrow> 'w \<Rightarrow> 'w"

definition run_polling :: "('u, 't, 'b, 'w) dispatcher_ops \<Rightarrow> 'w \<Rightarrow> (webhook_error, unit) result \<times> 'w" where
  "run_polling dops w = (Inr (), dispatch_polling dops w)"

definition run_webhook_mode ::
  "'u url_ops \<Rightarrow> ('x, 'k, 't) tls_ops \<Rightarrow> ('u, 'b) network_ops \<Rightarrow> ('u, 't, 'b, 'w) dispatcher_ops \<Rightarrow>
   rstr \<Rightarrow> rstr \<Rightarrow> rstr \<Rightarrow> rstr \<Rightarrow> 'w \<Rightarrow> (webhook_error, unit) result \<times> 'w" where
  "run_webhook_mode uops tops nops dops url secret cert key w =
     (case run_webhook uops tops nops url secret cert key of
        Inl err \<Rightarrow> (Inl err, w)
      | Inr s \<Rightarrow> (Inr (), dispatch_with_listener dops s w))"

text \<open>The spawned task: an error is logged and dropped, and the producer is closed in every case.\<close>

definition event_loop_task ::
  "'u url_ops \<Rightarrow> ('x, 'k, 't) tls_ops \<Rightarrow> ('u, 'b) network_ops \<Rightarrow> ('u, 't, 'b, 'w) dispatcher_ops \<Rightarrow>
   ('c, telegram_mo) chan_ops \<Rightarrow> integration_mode \<Rightarrow> 'c \<times> 'w \<Rightarrow> 'c \<times> 'w" where
  "event_loop_task uops tops nops dops ops mode s =
     (case s of (c, w) \<Rightarrow>
        case (case mode of
                Polling \<Rightarrow> run_polling dops w
              | WebHook url secret cert key \<Rightarrow> run_webhook_mode uops tops nops dops url secret cert key w) of
          (r, w') \<Rightarrow> (ch_close ops c, case r of Inl err \<Rightarrow> log_error dops err w' | Inr _ \<Rightarrow> w'))"

lemma event_loop_closes:
  "chan_laws ops \<Longrightarrow> ch_closed ops (fst (event_loop_task uops tops nops dops ops mode (c, w)))"
  by (simp add: event_loop_task_def case_prod_beta)

section \<open>The tasks together\<close>

datatype loop_phase = Dispatching | LoopEnded

datatype routing_phase = RoutingMos | ShuttingDown | RoutingEnded

text \<open>
  \<open>gs_accepted\<close>, \<open>gs_routed\<close> and \<open>gs_queued\<close> record what went into the incoming channel, what
  the router took from it, and what the dialogs put into the outgoing channel.
\<close>

record ('c, 'd) gateway_state =
  gs_loop :: loop_phase
  gs_in :: 'c
  gs_accepted :: "telegram_mo list"
  gs_routed :: "telegram_mo list"
  gs_routing :: routing_phase
  gs_out :: 'd
  gs_queued :: "(rstr, rstr) result list"
  gs_running :: "(rstr, rstr) result list"
  gs_done :: "(rstr, rstr) result list"
  gs_sender_ended :: bool

definition gateway_new ::
  "('c, telegram_mo) chan_ops \<Rightarrow> ('d, (rstr, rstr) result) chan_ops \<Rightarrow> ('c, 'd) gateway_state" where
  "gateway_new ops mops =
     \<lparr>gs_loop = Dispatching, gs_in = ch_new ops, gs_accepted = [], gs_routed = [], gs_routing = RoutingMos,
      gs_out = ch_new mops, gs_queued = [], gs_running = [], gs_done = [], gs_sender_ended = False\<rparr>"

text \<open>
  \<open>arrive\<close> is an update whose endpoint could send it; one that cannot be sent changes nothing
  (\<open>late_update_refused\<close>). An update may still be on its way when the loop ends. A send that
  fails is an \<open>Err\<close> and counts as \<open>sent_mt\<close>; a panic inside a send, which would end the sending task
  and make \<open>await_termination\<close> report its \<open>JoinError\<close>, is not a step.
\<close>

inductive gateway_step ::
  "('c, telegram_mo) chan_ops \<Rightarrow> ('d, (rstr, rstr) result) chan_ops \<Rightarrow>
   ('c, 'd) gateway_state \<Rightarrow> ('c, 'd) gateway_state \<Rightarrow> bool"
  for ops mops
where
  arrive: "deliver_update ops u (gs_in s) = Some (Delivered c') \<Longrightarrow> update_mo u = Some mo1 \<Longrightarrow>
     gateway_step ops mops s (s\<lparr>gs_in := c', gs_accepted := gs_accepted s @ [mo1]\<rparr>)"
| loop_end: "gs_loop s = Dispatching \<Longrightarrow>
     gateway_step ops mops s (s\<lparr>gs_loop := LoopEnded, gs_in := ch_close ops (gs_in s)\<rparr>)"
| route: "gs_routing s = RoutingMos \<Longrightarrow> ch_recv ops (gs_in s) = Some (mo1, c') \<Longrightarrow>
     gateway_step ops mops s (s\<lparr>gs_in := c', gs_routed := gs_routed s @ [mo1]\<rparr>)"
| mos_end: "gs_routing s = RoutingMos \<Longrightarrow> ch_recv ops (gs_in s) = None \<Longrightarrow> ch_closed ops (gs_in s) \<Longrightarrow>
     gateway_step ops mops s (s\<lparr>gs_routing := ShuttingDown\<rparr>)"
| queue: "length (ch_items mops (gs_out s)) < mt_capacity \<Longrightarrow> ch_send mops r (gs_out s) = Some d' \<Longrightarrow>
     gateway_step ops mops s (s\<lparr>gs_out := d', gs_queued := gs_queued s @ [r]\<rparr>)"
| shut: "gs_routing s = ShuttingDown \<Longrightarrow>
     gateway_step ops mops s (s\<lparr>gs_routing := RoutingEnded, gs_out := ch_close mops (gs_out s)\<rparr>)"
| take_mt: "ch_recv mops (gs_out s) = Some (r, d') \<Longrightarrow> length (gs_running s) < all_users_mt_concurrency \<Longrightarrow>
     gateway_step ops mops s (s\<lparr>gs_out := d', gs_running := gs_running s @ [r]\<rparr>)"
| sent_mt: "gs_running s = rs1 @ r # rs2 \<Longrightarrow>
     gateway_step ops mops s (s\<lparr>gs_running := rs1 @ rs2, gs_done := gs_done s @ [r]\<rparr>)"
| sender_end: "\<not> gs_sender_ended s \<Longrightarrow> ch_recv mops (gs_out s) = None \<Longrightarrow> ch_closed mops (gs_out s) \<Longrightarrow>
     gs_running s = [] \<Longrightarrow> gateway_step ops mops s (s\<lparr>gs_sender_ended := True\<rparr>)"

inductive gateway_run ::
  "('c, telegram_mo) chan_ops \<Rightarrow> ('d, (rstr, rstr) result) chan_ops \<Rightarrow> ('c, 'd) gateway_state \<Rightarrow> bool"
  for ops mops
where
  started: "gateway_run ops mops (gateway_new ops mops)"
| stepped: "gateway_run ops mops s \<Longrightarrow> gateway_step ops mops s t \<Longrightarrow> gateway_run ops mops t"

section \<open>The invariant\<close>

definition gateway_inv ::
  "('c, telegram_mo) chan_ops \<Rightarrow> ('d, (rstr, rstr) result) chan_ops \<Rightarrow> ('c, 'd) gateway_state \<Rightarrow> bool" where
  "gateway_inv ops mops s \<longleftrightarrow>
     gs_accepted s = gs_routed s @ ch_items ops (gs_in s) \<and> length (ch_items ops (gs_in s)) \<le> 64 \<and>
     mset (gs_queued s) = mset (ch_items mops (gs_out s)) + mset (gs_running s) + mset (gs_done s) \<and>
     length (ch_items mops (gs_out s)) \<le> 64 \<and> length (gs_running s) \<le> 4 \<and>
     (gs_loop s = LoopEnded \<longleftrightarrow> ch_closed ops (gs_in s)) \<and>
     (gs_routing s \<noteq> RoutingMos \<longrightarrow> ch_closed ops (gs_in s) \<and> ch_items ops (gs_in s) = []) \<and>
     (ch_closed mops (gs_out s) \<longleftrightarrow> gs_routing s = RoutingEnded) \<and>
     (gs_sender_ended s \<longrightarrow> ch_closed mops (gs_out s) \<and> ch_items mops (gs_out s) = [] \<and> gs_running s = [])"

lemma gateway_inv_new: "chan_laws ops \<Longrightarrow> chan_laws mops \<Longrightarrow> gateway_inv ops mops (gateway_new ops mops)"
  by (simp add: gateway_inv_def gateway_new_def)

lemma handler_closed [simp]:
  "chan_laws ops \<Longrightarrow> ch_closed ops c \<Longrightarrow> handler ops m c = RetryAfter 15"
  "chan_laws ops \<Longrightarrow> ch_closed ops c \<Longrightarrow> on_callback ops q c = RetryAfter 15"
  by (simp_all add: handler_def on_callback_def chan_send_closed)

lemma handler_sends:
  "handler ops m c = Delivered c' \<Longrightarrow>
     ch_send ops (Message m) c = Some c' \<and> (ch_closed ops c \<or> length (ch_items ops c) < 64)"
  "on_callback ops q c = Delivered c' \<Longrightarrow>
     ch_send ops (CallbackQuery q) c = Some c' \<and> (ch_closed ops c \<or> length (ch_items ops c) < 64)"
  by (auto simp: handler_def on_callback_def mo_capacity_def split: if_splits option.splits)

lemma deliver_update_sends:
  assumes "deliver_update ops u c = Some (Delivered c')" "update_mo u = Some mo1"
  shows "ch_send ops mo1 c = Some c' \<and> (ch_closed ops c \<or> length (ch_items ops c) < 64)"
  using assms by (cases u) (auto simp: deliver_update_def dest: handler_sends)

lemma delivered:
  assumes "chan_laws ops" "deliver_update ops u c = Some (Delivered c')" "update_mo u = Some mo1"
  shows "ch_items ops c' = ch_items ops c @ [mo1]" "length (ch_items ops c') \<le> 64"
    "\<not> ch_closed ops c" "\<not> ch_closed ops c'"
  using deliver_update_sends [OF assms(2,3)] chan_send_Some [OF assms(1), of mo1 c c'] by auto

lemma gateway_step_inv:
  assumes "gateway_step ops mops s t" "chan_laws ops" "chan_laws mops" "gateway_inv ops mops s"
  shows "gateway_inv ops mops t"
  using assms(1)
proof cases
  case (arrive u c' mo1)
  with assms(4) delivered [OF assms(2) arrive(2,3)] show ?thesis by (auto simp: gateway_inv_def)
next
  case (route mo1 c')
  with assms(4) chan_recv_Some [OF assms(2) route(3)] show ?thesis by (auto simp: gateway_inv_def)
next
  case (mos_end)
  with assms(4) chan_recv_None [OF assms(2)] show ?thesis by (auto simp: gateway_inv_def)
next
  case (queue r d')
  with assms(4) chan_send_Some [OF assms(3) queue(3)] show ?thesis by (auto simp: gateway_inv_def mt_capacity_def)
next
  case (take_mt r d')
  with assms(4) chan_recv_Some [OF assms(3) take_mt(2)] show ?thesis
    by (auto simp: gateway_inv_def all_users_mt_concurrency_def)
next
  case sender_end
  with assms(4) chan_recv_None [OF assms(3)] show ?thesis by (auto simp: gateway_inv_def)
qed (use assms(2-4) in \<open>auto simp: gateway_inv_def\<close>)

lemma gateway_run_inv:
  "gateway_run ops mops s \<Longrightarrow> chan_laws ops \<Longrightarrow> chan_laws mops \<Longrightarrow> gateway_inv ops mops s"
  by (induction rule: gateway_run.induct) (auto intro: gateway_inv_new gateway_step_inv)

section \<open>Winding down\<close>

text \<open>Work left once the outgoing channel is closed: two steps for each message in it, one for
  each send under way, and the end of the task itself.\<close>

definition work_left :: "('d, (rstr, rstr) result) chan_ops \<Rightarrow> ('c, 'd) gateway_state \<Rightarrow> nat" where
  "work_left mops s =
     2 * length (ch_items mops (gs_out s)) + length (gs_running s) + (if gs_sender_ended s then 0 else 1)"

lemma work_decreases:
  assumes "gateway_step ops mops s t" "chan_laws ops" "chan_laws mops" "gateway_inv ops mops s"
    and "gs_routing s = RoutingEnded"
  shows "work_left mops t < work_left mops s \<and> gs_routing t = RoutingEnded"
  using assms(1)
proof cases
  case (arrive u c' mo1)
  with delivered [OF assms(2) arrive(2,3)] assms(4,5) show ?thesis by (simp add: gateway_inv_def)
next
  case loop_end
  with assms(4,5) show ?thesis by (auto simp: gateway_inv_def)
next
  case (queue r d')
  with assms(4,5) chan_send_Some [OF assms(3) queue(3)] show ?thesis by (simp add: gateway_inv_def)
next
  case (take_mt r d')
  with assms(5) chan_recv_Some [OF assms(3) take_mt(2)] show ?thesis by (simp add: work_left_def)
qed (use assms(5) in \<open>simp_all add: work_left_def\<close>)

lemma closed_not_stuck:
  assumes "chan_laws mops" "gateway_inv ops mops s" "gs_routing s = RoutingEnded" "\<not> gs_sender_ended s"
  shows "\<exists>t. gateway_step ops mops s t"
proof (cases "gs_running s")
  case (Cons r rs)
  then have "gs_running s = [] @ r # rs" by simp
  from sent_mt [OF this] show ?thesis by blast
next
  case Nil
  show ?thesis
  proof (cases "ch_recv mops (gs_out s)")
    case None
    with assms Nil have "gateway_step ops mops s (s\<lparr>gs_sender_ended := True\<rparr>)"
      by (intro sender_end) (simp_all add: gateway_inv_def)
    then show ?thesis by blast
  next
    case (Some rd)
    obtain r d' where "ch_recv mops (gs_out s) = Some (r, d')" using Some by (cases rd) simp
    from take_mt [OF this] Nil show ?thesis by (auto simp: all_users_mt_concurrency_def)
  qed
qed

lemma closed_steps:
  assumes "(gateway_step ops mops ^^ n) s t" "chan_laws ops" "chan_laws mops" "gateway_inv ops mops s"
    and "gs_routing s = RoutingEnded"
  shows "n + work_left mops t \<le> work_left mops s \<and> gateway_inv ops mops t \<and> gs_routing t = RoutingEnded"
  using assms(1)
proof (induction n arbitrary: t)
  case 0
  with assms show ?case by simp
next
  case (Suc n)
  then obtain u where u: "(gateway_step ops mops ^^ n) s u" "gateway_step ops mops u t" by auto
  from Suc.IH [OF u(1)] work_decreases [OF u(2) assms(2,3)] gateway_step_inv [OF u(2) assms(2,3)]
  show ?case by force
qed

lemma closed_ends:
  assumes "chan_laws ops" "chan_laws mops" "gateway_inv ops mops s" "gs_routing s = RoutingEnded"
  shows "\<exists>t. (gateway_step ops mops)\<^sup>*\<^sup>* s t \<and> gs_sender_ended t"
  using assms(3,4)
proof (induction "work_left mops s" arbitrary: s rule: less_induct)
  case less
  show ?case
  proof (cases "gs_sender_ended s")
    case False
    with closed_not_stuck [OF assms(2) less.prems] obtain u where u: "gateway_step ops mops s u" by blast
    with less work_decreases [OF u assms(1,2)] gateway_step_inv [OF u assms(1,2)]
    obtain t where "(gateway_step ops mops)\<^sup>*\<^sup>* u t" "gs_sender_ended t" by blast
    with u show ?thesis by (meson converse_rtranclp_into_rtranclp)
  qed blast
qed

text \<open>Before that the router empties the incoming channel.\<close>

lemma drains:
  assumes "chan_laws ops" "chan_laws mops" "gateway_inv ops mops s" "gs_loop s = LoopEnded"
  shows "\<exists>t. (gateway_step ops mops)\<^sup>*\<^sup>* s t \<and> gateway_inv ops mops t \<and> gs_routing t = RoutingEnded"
  using assms(3,4)
proof (induction "length (ch_items ops (gs_in s))" arbitrary: s rule: less_induct)
  case less
  have shut_it: "\<exists>t. (gateway_step ops mops)\<^sup>*\<^sup>* u t \<and> gateway_inv ops mops t \<and> gs_routing t = RoutingEnded"
    if u: "gateway_inv ops mops u" "gs_routing u = ShuttingDown" for u
  proof -
    have st: "gateway_step ops mops u (u\<lparr>gs_routing := RoutingEnded, gs_out := ch_close mops (gs_out u)\<rparr>)"
      by (rule shut [OF u(2)])
    from st gateway_step_inv [OF st assms(1,2) u(1)] show ?thesis
      by (intro exI [of _ "u\<lparr>gs_routing := RoutingEnded, gs_out := ch_close mops (gs_out u)\<rparr>"]) auto
  qed
  show ?case
  proof (cases "gs_routing s")
    case ShuttingDown
    with shut_it less.prems show ?thesis by blast
  next
    case RoutingEnded
    with less.prems show ?thesis by blast
  next
    case RoutingMos
    show ?thesis
    proof (cases "ch_recv ops (gs_in s)")
      case None
      with RoutingMos less.prems have st: "gateway_step ops mops s (s\<lparr>gs_routing := ShuttingDown\<rparr>)"
        by (intro mos_end) (simp_all add: gateway_inv_def)
      from shut_it [OF gateway_step_inv [OF st assms(1,2) less.prems(1)]] st show ?thesis
        by (simp, meson converse_rtranclp_into_rtranclp)
    next
      case (Some mc)
      obtain mo1 c' where mc: "ch_recv ops (gs_in s) = Some (mo1, c')" using Some by (cases mc) simp
      let ?u = "s\<lparr>gs_in := c', gs_routed := gs_routed s @ [mo1]\<rparr>"
      have st: "gateway_step ops mops s ?u" by (rule route [OF RoutingMos mc])
      have "length (ch_items ops (gs_in ?u)) < length (ch_items ops (gs_in s))"
        using chan_recv_Some [OF assms(1) mc] by simp
      from less.hyps [OF this gateway_step_inv [OF st assms(1,2) less.prems(1)]] less.prems(2) st
      show ?thesis by (simp, meson converse_rtranclp_into_rtranclp)
    qed
  qed
qed

section \<open>Properties\<close>

text \<open>C10: When the sending task has ended, which is what \<open>await_termination\<close> waits for, the
  event loop has ended too, the router has taken every update the gateway accepted, in order, every
  outgoing message that was queued has been sent once, and an update that still arrives is
  answered with a retry in 15 seconds.\<close>

theorem gateway_ends_clean:
  assumes "chan_laws ops" "chan_laws mops" "gateway_run ops mops s" "gs_sender_ended s"
  shows "gs_loop s = LoopEnded \<and> gs_routed s = gs_accepted s \<and> mset (gs_done s) = mset (gs_queued s) \<and>
    (deliver_update ops u (gs_in s) = None \<or> deliver_update ops u (gs_in s) = Some (RetryAfter 15))"
  using gateway_run_inv [OF assms(3,1,2)] assms(1,4)
  by (cases u) (auto simp: gateway_inv_def deliver_update_def)

definition sample_ended :: "(telegram_mo list \<times> bool, (rstr, rstr) result list \<times> bool) gateway_state" where
  "sample_ended =
     \<lparr>gs_loop = LoopEnded, gs_in = ([], True), gs_accepted = [], gs_routed = [], gs_routing = RoutingEnded,
      gs_out = ([], True), gs_queued = [Inr ''ok''], gs_running = [], gs_done = [Inr ''ok''], gs_sender_ended = True\<rparr>"

definition sample_draining :: "(telegram_mo list \<times> bool, (rstr, rstr) result list \<times> bool) gateway_state" where
  "sample_draining =
     \<lparr>gs_loop = LoopEnded, gs_in = ([], True), gs_accepted = [], gs_routed = [], gs_routing = RoutingEnded,
      gs_out = ([Inr ''ok''], True), gs_queued = [Inr ''ok''], gs_running = [], gs_done = [], gs_sender_ended = False\<rparr>"

lemma sample_draining_run: "gateway_run list_chan list_chan sample_draining"
proof -
  let ?s0 = "gateway_new list_chan list_chan :: (telegram_mo list \<times> bool, (rstr, rstr) result list \<times> bool) gateway_state"
  let ?s1 = "?s0\<lparr>gs_out := ([Inr ''ok''], False), gs_queued := gs_queued ?s0 @ [Inr ''ok'']\<rparr>"
  let ?s2 = "?s1\<lparr>gs_loop := LoopEnded, gs_in := ch_close list_chan (gs_in ?s1)\<rparr>"
  let ?s3 = "?s2\<lparr>gs_routing := ShuttingDown\<rparr>"
  let ?s4 = "?s3\<lparr>gs_routing := RoutingEnded, gs_out := ch_close list_chan (gs_out ?s3)\<rparr>"
  have "gateway_run list_chan list_chan ?s1"
    by (rule stepped [OF started], rule queue) (simp_all add: gateway_new_def list_chan_def mt_capacity_def)
  then have "gateway_run list_chan list_chan ?s2"
    by (rule stepped, intro loop_end) (simp add: gateway_new_def)
  then have "gateway_run list_chan list_chan ?s3"
    by (rule stepped, intro mos_end) (simp_all add: gateway_new_def list_chan_def)
  then have "gateway_run list_chan list_chan ?s4"
    by (rule stepped, intro shut) simp
  then show ?thesis by (simp add: sample_draining_def gateway_new_def list_chan_def)
qed

lemma sample_ended_run: "gateway_run list_chan list_chan sample_ended"
proof -
  let ?s1 = "sample_draining\<lparr>gs_out := ([], True), gs_running := gs_running sample_draining @ [Inr ''ok'']\<rparr>"
  let ?s2 = "?s1\<lparr>gs_running := [] @ [], gs_done := gs_done ?s1 @ [Inr ''ok'']\<rparr>"
  have "gateway_run list_chan list_chan ?s1"
    by (rule stepped [OF sample_draining_run], rule take_mt)
       (simp_all add: sample_draining_def list_chan_def all_users_mt_concurrency_def)
  then have "gateway_run list_chan list_chan ?s2"
    by (rule stepped, intro sent_mt) (simp add: sample_draining_def)
  then have "gateway_run list_chan list_chan (?s2\<lparr>gs_sender_ended := True\<rparr>)"
    by (rule stepped, intro sender_end) (simp_all add: sample_draining_def list_chan_def)
  then show ?thesis by (simp add: sample_ended_def sample_draining_def)
qed

theorem gateway_ends_clean_witness:
  "deliver_update list_chan (UpdateMessage \<lparr>msg_id = 1, msg_from = None, chat_kind = PrivateChat, msg_text = None, reply_to = None\<rparr>)
     (gs_in sample_ended) = Some (RetryAfter 15)"
  using gateway_ends_clean [OF chan_laws_list_chan chan_laws_list_chan sample_ended_run,
    of "UpdateMessage \<lparr>msg_id = 1, msg_from = None, chat_kind = PrivateChat, msg_text = None, reply_to = None\<rparr>"]
  by (simp add: sample_ended_def deliver_update_def)

text \<open>C11: Once the event loop has ended, for whatever reason, the gateway can always wind down
  to the end of its sending task; and once the router has closed the outgoing channel it does so by itself:
  at most 133 more steps are possible, and where none is, the sending task has ended.\<close>

theorem gateway_winds_down:
  assumes "chan_laws ops" "chan_laws mops" "gateway_run ops mops s" "gs_loop s = LoopEnded"
  shows "(\<exists>t. (gateway_step ops mops)\<^sup>*\<^sup>* s t \<and> gs_sender_ended t) \<and>
    (gs_routing s = RoutingEnded \<longrightarrow>
      (\<forall>n t. (gateway_step ops mops ^^ n) s t \<longrightarrow> n \<le> 133 \<and> ((\<exists>u. gateway_step ops mops t u) \<or> gs_sender_ended t)))"
proof -
  have inv: "gateway_inv ops mops s" by (rule gateway_run_inv [OF assms(3,1,2)])
  from drains [OF assms(1,2) inv assms(4)] closed_ends [OF assms(1,2)]
  have "\<exists>t. (gateway_step ops mops)\<^sup>*\<^sup>* s t \<and> gs_sender_ended t" by (meson rtranclp_trans)
  moreover have "n \<le> 133 \<and> ((\<exists>u. gateway_step ops mops t u) \<or> gs_sender_ended t)"
    if closed: "gs_routing s = RoutingEnded" and n: "(gateway_step ops mops ^^ n) s t" for n t
  proof -
    have "work_left mops s \<le> 133" using inv by (simp add: gateway_inv_def work_left_def)
    with closed_steps [OF n assms(1,2) inv closed] closed_not_stuck [OF assms(2), of ops t]
    show ?thesis by auto
  qed
  ultimately show ?thesis by blast
qed

theorem gateway_winds_down_witness:
  "(\<exists>t. (gateway_step list_chan list_chan)\<^sup>*\<^sup>* sample_draining t \<and> gs_sender_ended t) \<and>
   (\<exists>u. gateway_step list_chan list_chan sample_draining u)"
proof -
  have "gs_loop sample_draining = LoopEnded" "gs_routing sample_draining = RoutingEnded" "\<not> gs_sender_ended sample_draining"
    by (simp_all add: sample_draining_def)
  with gateway_winds_down [OF chan_laws_list_chan chan_laws_list_chan sample_draining_run] show ?thesis
    by (metis relpowp_0_I)
qed

text \<open>A webhook that cannot be set up is logged, and the gateway winds down as after a stop.\<close>

lemma failed_setup_only_logged:
  assumes "run_webhook uops tops nops url secret cert key = Inl err"
  shows "event_loop_task uops tops nops dops ops (WebHook url secret cert key) (c, w) = (ch_close ops c, log_error dops err w)"
  using assms by (simp add: event_loop_task_def run_webhook_mode_def)

end
