(* ===== verification/ChannelBench.thy ===== *)
theory ChannelBench
  imports Prelude
begin

text \<open>
  The channel benchmarks, \<open>src/benches/channels.rs\<close>: a sender and a receiver on one thread, and
  a producer thread that is signalled or kept busy while the benchmark thread receives. The
  four channels are other crates' or the standard library's: the record \<open>try_chan\<close>. Every message
  is \<open>Message::default()\<close>, so a channel is what it holds, a number of messages. Criterion runs
  an iteration as often as it likes; that number is an argument. The atomics are read and
  written in one order that all threads see.
\<close>

section \<open>Channels\<close>

record 'c try_chan =
  try_send :: "'c \<Rightarrow> bool \<times> 'c"
  try_recv :: "'c \<Rightarrow> bool \<times> 'c"
  queued :: "'c \<Rightarrow> nat"

definition try_chan_laws :: "nat \<Rightarrow> 'c try_chan \<Rightarrow> bool" where
  "try_chan_laws cap ops \<longleftrightarrow>
     (\<forall>c ok c'. try_send ops c = (ok, c') \<longrightarrow>
        ok = (queued ops c < cap) \<and> queued ops c' = queued ops c + of_bool ok) \<and>
     (\<forall>c ok c'. try_recv ops c = (ok, c') \<longrightarrow>
        ok = (0 < queued ops c) \<and> queued ops c' = queued ops c - of_bool ok)"

text \<open>A channel that satisfies them is a counter.\<close>

definition counting_chan :: "nat \<Rightarrow> nat try_chan" where
  "counting_chan cap =
     \<lparr>try_send = (\<lambda>n. (n < cap, n + of_bool (n < cap))), try_recv = (\<lambda>n. (0 < n, n - of_bool (0 < n))), queued = (\<lambda>n. n)\<rparr>"

lemma counting_chan_laws: "try_chan_laws cap (counting_chan cap)"
  by (simp add: try_chan_laws_def counting_chan_def)

definition buffer_size :: nat where "buffer_size = push_bit 10 1"
definition throughput_receive_batch :: nat where "throughput_receive_batch = drop_bit 5 buffer_size"

lemma sizes: "buffer_size = 1024" "throughput_receive_batch = 32"
  by (simp_all add: buffer_size_def throughput_receive_batch_def push_bit_eq_mult drop_bit_eq_div)

section \<open>On one thread\<close>

text \<open>\<open>None\<close> is a loop that never ends.\<close>

partial_function (option) spin_until_success :: "('s \<Rightarrow> bool \<times> 's) \<Rightarrow> 's \<Rightarrow> 's option" where
  "spin_until_success operation s =
     (case operation s of (ok, s') \<Rightarrow> if ok then Some s' else spin_until_success operation s')"

fun times :: "nat \<Rightarrow> ('s \<Rightarrow> 's option) \<Rightarrow> 's \<Rightarrow> 's option" where
  "times 0 f s = Some s"
| "times (Suc n) f s = Option.bind (f s) (times n f)"

definition latency_iteration :: "'c try_chan \<Rightarrow> 'c \<Rightarrow> 'c option" where
  "latency_iteration ops c =
     Option.bind (spin_until_success (try_send ops) c) (spin_until_success (try_recv ops))"

definition throughput_iteration :: "'c try_chan \<Rightarrow> 'c \<Rightarrow> 'c option" where
  "throughput_iteration ops c =
     Option.bind (times buffer_size (spin_until_success (try_send ops)) c)
       (times buffer_size (spin_until_success (try_recv ops)))"

text \<open>A group runs its four channels, in order and by name, each for some number of iterations.\<close>

type_synonym 'c bench_channel = "rstr \<times> 'c try_chan \<times> 'c"

definition bench_channels :: "'c try_chan \<times> 'c \<Rightarrow> 'c try_chan \<times> 'c \<Rightarrow> 'c try_chan \<times> 'c \<Rightarrow> 'c try_chan \<times> 'c \<Rightarrow> 'c bench_channel list" where
  "bench_channels async_chan tokio_chan futures_chan std_chan =
     [(''async-channel bounded'', async_chan), (''Tokio MPSC channel'', tokio_chan),
      (''Futures MPSC channel'', futures_chan), (''Std sync_channel (baseline)'', std_chan)]"

definition bench_group ::
  "('c try_chan \<Rightarrow> 'c \<Rightarrow> 'c option) \<Rightarrow> (rstr \<Rightarrow> nat) \<Rightarrow> 'c bench_channel list \<Rightarrow> 'c list option" where
  "bench_group iteration runs chans = those (map (\<lambda>(name, ops, c). times (runs name) (iteration ops) c) chans)"

definition bench_same_thread_latency :: "(rstr \<Rightarrow> nat) \<Rightarrow> 'c bench_channel list \<Rightarrow> 'c list option" where
  "bench_same_thread_latency = bench_group latency_iteration"

definition bench_same_thread_throughput :: "(rstr \<Rightarrow> nat) \<Rightarrow> 'c bench_channel list \<Rightarrow> 'c list option" where
  "bench_same_thread_throughput = bench_group throughput_iteration"

section \<open>When a spin ends\<close>

lemma try_sendD:
  "try_chan_laws cap ops \<Longrightarrow> try_send ops c = (ok, c') \<Longrightarrow>
     ok = (queued ops c < cap) \<and> queued ops c' = queued ops c + of_bool ok"
  by (simp add: try_chan_laws_def)

lemma try_recvD:
  "try_chan_laws cap ops \<Longrightarrow> try_recv ops c = (ok, c') \<Longrightarrow>
     ok = (0 < queued ops c) \<and> queued ops c' = queued ops c - of_bool ok"
  by (simp add: try_chan_laws_def)

lemma spin_send:
  assumes "try_chan_laws cap ops" "queued ops c < cap"
  shows "\<exists>c'. spin_until_success (try_send ops) c = Some c' \<and> queued ops c' = Suc (queued ops c)"
proof (cases "try_send ops c")
  case (Pair ok c')
  with try_sendD [OF assms(1) Pair] assms(2) show ?thesis
    by (subst spin_until_success.simps) simp
qed

lemma spin_recv:
  assumes "try_chan_laws cap ops" "0 < queued ops c"
  shows "\<exists>c'. spin_until_success (try_recv ops) c = Some c' \<and> queued ops c' = queued ops c - 1"
proof (cases "try_recv ops c")
  case (Pair ok c')
  with try_recvD [OF assms(1) Pair] assms(2) show ?thesis
    by (subst spin_until_success.simps) simp
qed

lemma spin_never:
  assumes "spin_until_success operation s = Some r"
    and "\<And>s ok s'. P s \<Longrightarrow> operation s = (ok, s') \<Longrightarrow> \<not> ok \<and> P s'"
  shows "\<not> P s"
proof -
  have "op1 = operation \<longrightarrow> \<not> P s" if "spin_until_success op1 s = Some r" for op1 s r
  proof (rule spin_until_success.raw_induct [where P = "\<lambda>op1 s r. op1 = operation \<longrightarrow> \<not> P s", OF _ that])
    fix spin and op1 :: "'a \<Rightarrow> bool \<times> 'a" and s r
    assume IH: "\<And>op1 s r. spin op1 s = Some r \<Longrightarrow> op1 = operation \<longrightarrow> \<not> P s"
      and run: "(case op1 s of (ok, s') \<Rightarrow> if ok then Some s' else spin op1 s') = Some r"
    show "op1 = operation \<longrightarrow> \<not> P s"
      using IH [of operation "snd (operation s)" r] run assms(2) [of s] by (auto split: prod.splits if_splits)
  qed
  with assms(1) show ?thesis by blast
qed

lemma spin_send_full:
  assumes "try_chan_laws cap ops" "cap \<le> queued ops c"
  shows "spin_until_success (try_send ops) c = None"
proof (rule ccontr)
  assume "spin_until_success (try_send ops) c \<noteq> None"
  then obtain r where "spin_until_success (try_send ops) c = Some r" by blast
  from spin_never [OF this, of "\<lambda>c. cap \<le> queued ops c"] assms(2) try_sendD [OF assms(1)] show False by fastforce
qed

lemma send_times:
  assumes "try_chan_laws cap ops"
  shows "queued ops c + n \<le> cap \<Longrightarrow>
    \<exists>c'. times n (spin_until_success (try_send ops)) c = Some c' \<and> queued ops c' = queued ops c + n"
proof (induction n arbitrary: c)
  case (Suc n)
  with spin_send [OF assms, of c] obtain c1 where "spin_until_success (try_send ops) c = Some c1" "queued ops c1 = Suc (queued ops c)"
    by auto
  with Suc.IH [of c1] Suc.prems show ?case by simp
qed simp

lemma send_times_full:
  assumes "try_chan_laws cap ops"
  shows "queued ops c \<le> cap \<Longrightarrow> cap < queued ops c + n \<Longrightarrow> times n (spin_until_success (try_send ops)) c = None"
proof (induction n arbitrary: c)
  case (Suc n)
  show ?case
  proof (cases "queued ops c < cap")
    case True
    with spin_send [OF assms, of c] obtain c1 where "spin_until_success (try_send ops) c = Some c1" "queued ops c1 = Suc (queued ops c)"
      by auto
    with Suc.IH [of c1] Suc.prems True show ?thesis by simp
  next
    case False
    with spin_send_full [OF assms, of c] show ?thesis by simp
  qed
qed simp

lemma recv_times:
  assumes "try_chan_laws cap ops"
  shows "n \<le> queued ops c \<Longrightarrow>
    \<exists>c'. times n (spin_until_success (try_recv ops)) c = Some c' \<and> queued ops c' = queued ops c - n"
proof (induction n arbitrary: c)
  case (Suc n)
  with spin_recv [OF assms, of c] obtain c1 where "spin_until_success (try_recv ops) c = Some c1" "queued ops c1 = queued ops c - 1"
    by auto
  with Suc.IH [of c1] Suc.prems show ?case by auto
qed simp

lemma throughput_ends:
  assumes "try_chan_laws cap ops" "queued ops c = 0" "buffer_size \<le> cap"
  shows "\<exists>c'. throughput_iteration ops c = Some c' \<and> queued ops c' = 0"
proof -
  from send_times [OF assms(1), of c buffer_size] assms obtain c1 where
    "times buffer_size (spin_until_success (try_send ops)) c = Some c1" "queued ops c1 = buffer_size" by auto
  with recv_times [OF assms(1), of buffer_size c1] show ?thesis by (auto simp: throughput_iteration_def)
qed

lemma throughput_hangs:
  assumes "try_chan_laws cap ops" "queued ops c = 0" "cap < buffer_size"
  shows "throughput_iteration ops c = None"
  using send_times_full [OF assms(1), of c buffer_size] assms by (simp add: throughput_iteration_def)

lemma latency_ends:
  assumes "try_chan_laws cap ops" "queued ops c = 0" "0 < cap"
  shows "\<exists>c'. latency_iteration ops c = Some c' \<and> queued ops c' = 0"
proof -
  from spin_send [OF assms(1), of c] assms obtain c1 where
    "spin_until_success (try_send ops) c = Some c1" "queued ops c1 = 1" by auto
  with spin_recv [OF assms(1), of c1] show ?thesis by (auto simp: latency_iteration_def)
qed

lemma times_keeps:
  assumes "\<And>c. P c \<Longrightarrow> \<exists>c'. f c = Some c' \<and> P c'"
  shows "P c \<Longrightarrow> \<exists>c'. times k f c = Some c' \<and> P c'"
proof (induction k arbitrary: c)
  case (Suc k)
  with assms [of c] obtain c1 where "f c = Some c1" "P c1" by blast
  with Suc.IH [of c1] show ?case by simp
qed simp

text \<open>
  The bound is exact: started on an empty channel, the same-thread iterations end, and leave it
  empty, if it holds a whole buffer, and the throughput iteration spins forever on a smaller one.
\<close>

theorem same_thread_iterations:
  assumes "try_chan_laws cap ops" "queued ops c = 0"
  shows "(0 < k \<longrightarrow> times k (throughput_iteration ops) c \<noteq> None \<longleftrightarrow> buffer_size \<le> cap) \<and>
    (buffer_size \<le> cap \<longrightarrow>
      (\<exists>c'. times k (throughput_iteration ops) c = Some c' \<and> queued ops c' = 0) \<and>
      (\<exists>c'. times k (latency_iteration ops) c = Some c' \<and> queued ops c' = 0))"
proof -
  have all: "\<exists>c'. times k (throughput_iteration ops) c = Some c' \<and> queued ops c' = 0" if "buffer_size \<le> cap"
    by (rule times_keeps [where P = "\<lambda>c. queued ops c = 0", OF _ assms(2)]) (rule throughput_ends [OF assms(1) _ that])
  moreover have "\<exists>c'. times k (latency_iteration ops) c = Some c' \<and> queued ops c' = 0" if "buffer_size \<le> cap"
    by (rule times_keeps [where P = "\<lambda>c. queued ops c = 0", OF _ assms(2)])
       (rule latency_ends [OF assms(1)], use that in \<open>simp_all add: sizes\<close>)
  moreover have "times k (throughput_iteration ops) c = None" if "0 < k" "cap < buffer_size"
    using throughput_hangs [OF assms that(2)] that(1) by (cases k) simp_all
  ultimately show ?thesis by (metis leI option.distinct(1))
qed

end
