(* ===== verification/ChannelThreads.thy ===== *)
theory ChannelThreads
  imports ChannelBench
begin

text \<open>
  The inter-thread cases of \<open>src/benches/channels.rs\<close> as step relations: what the producer thread
  and the benchmark thread do between two accesses to what they share, in any interleaving.
  \<open>runs\<close> is the number of iterations Criterion asks for.
\<close>

section \<open>The signal alone\<close>

datatype counter_pc = CounterCheck | CounterAdd | CounterExited

datatype watch_pc = WatchNext nat | Watching nat u64 | WatchJoin | WatchJoined

record baseline =
  bl_keep_running :: bool
  bl_counter :: u64
  bl_producer :: counter_pc
  bl_bench :: watch_pc

definition baseline_start :: "nat \<Rightarrow> baseline" where
  "baseline_start runs = \<lparr>bl_keep_running = True, bl_counter = 0, bl_producer = CounterCheck, bl_bench = WatchNext runs\<rparr>"

text \<open>\<open>fetch_add\<close> wraps around.\<close>

inductive baseline_step :: "baseline \<Rightarrow> baseline \<Rightarrow> bool" where
  go_on: "bl_producer s = CounterCheck \<Longrightarrow> bl_keep_running s \<Longrightarrow> baseline_step s (s\<lparr>bl_producer := CounterAdd\<rparr>)"
| exit: "bl_producer s = CounterCheck \<Longrightarrow> \<not> bl_keep_running s \<Longrightarrow> baseline_step s (s\<lparr>bl_producer := CounterExited\<rparr>)"
| fetch_add: "bl_producer s = CounterAdd \<Longrightarrow>
     baseline_step s (s\<lparr>bl_counter := bl_counter s + 1, bl_producer := CounterCheck\<rparr>)"
| last_count: "bl_bench s = WatchNext (Suc n) \<Longrightarrow> baseline_step s (s\<lparr>bl_bench := Watching n (bl_counter s)\<rparr>)"
| changed: "bl_bench s = Watching n seen \<Longrightarrow> bl_counter s \<noteq> seen \<Longrightarrow> baseline_step s (s\<lparr>bl_bench := WatchNext n\<rparr>)"
| unchanged: "bl_bench s = Watching n seen \<Longrightarrow> bl_counter s = seen \<Longrightarrow> baseline_step s s"
| stop: "bl_bench s = WatchNext 0 \<Longrightarrow> baseline_step s (s\<lparr>bl_keep_running := False, bl_bench := WatchJoin\<rparr>)"
| join: "bl_bench s = WatchJoin \<Longrightarrow> bl_producer s = CounterExited \<Longrightarrow> baseline_step s (s\<lparr>bl_bench := WatchJoined\<rparr>)"

definition baseline_inv :: "baseline \<Rightarrow> bool" where
  "baseline_inv s \<longleftrightarrow>
     (bl_keep_running s \<longleftrightarrow> bl_bench s \<notin> {WatchJoin, WatchJoined}) \<and>
     (bl_producer s = CounterExited \<longrightarrow> \<not> bl_keep_running s)"

lemma baseline_step_inv: "baseline_step s t \<Longrightarrow> baseline_inv s \<Longrightarrow> baseline_inv t"
  by (induction rule: baseline_step.induct) (auto simp: baseline_inv_def)

fun baseline_distance :: "baseline \<Rightarrow> nat" where
  "baseline_distance s =
     (case bl_bench s of
        WatchNext n \<Rightarrow> 10 * n + 8
      | Watching n seen \<Rightarrow> 10 * n + 10 + (if bl_counter s \<noteq> seen then 0 else if bl_producer s = CounterAdd then 1 else 2)
      | WatchJoin \<Rightarrow> (case bl_producer s of CounterExited \<Rightarrow> 1 | CounterCheck \<Rightarrow> 2 | CounterAdd \<Rightarrow> 3)
      | WatchJoined \<Rightarrow> 0)"

lemma baseline_nearer:
  assumes "baseline_inv s" "bl_bench s \<noteq> WatchJoined"
  shows "\<exists>t. baseline_step s t \<and> baseline_inv t \<and> baseline_distance t < baseline_distance s"
proof -
  have "\<exists>t. baseline_step s t \<and> baseline_distance t < baseline_distance s"
  proof (cases "bl_bench s")
    case (WatchNext n)
    then show ?thesis
      by (cases n) (fastforce intro: stop last_count split: counter_pc.splits)+
  next
    case (Watching n seen)
    show ?thesis
    proof (cases "bl_counter s = seen")
      case True
      with Watching assms(1) show ?thesis
        by (cases "bl_producer s") (fastforce simp: baseline_inv_def intro: go_on fetch_add)+
    next
      case False
      with Watching show ?thesis by (fastforce intro: changed)
    qed
  next
    case WatchJoin
    with assms(1) show ?thesis
      by (cases "bl_producer s") (fastforce simp: baseline_inv_def intro: exit fetch_add join)+
  qed (use assms in simp)
  with assms(1) baseline_step_inv show ?thesis by blast
qed

interpretation bl: homing baseline_step baseline_inv "\<lambda>s. bl_bench s = WatchJoined" baseline_distance
  by unfold_locales (rule baseline_nearer)

section \<open>One message per signal\<close>

datatype producer_pc = OuterCheck | Swap | InnerCheck | Sending | Exited

datatype bench_pc = Next nat | Receiving nat | StopSend | Joining | Joined

text \<open>\<open>lc_sent\<close> and \<open>lc_received\<close> count the messages.\<close>

record 'c latency_case =
  lc_keep_running :: bool
  lc_send :: bool
  lc_chan :: 'c
  lc_producer :: producer_pc
  lc_bench :: bench_pc
  lc_sent :: nat
  lc_received :: nat

definition latency_start :: "nat \<Rightarrow> 'c \<Rightarrow> 'c latency_case" where
  "latency_start runs c =
     \<lparr>lc_keep_running = True, lc_send = False, lc_chan = c, lc_producer = OuterCheck, lc_bench = Next runs,
      lc_sent = 0, lc_received = 0\<rparr>"

inductive latency_step :: "'c try_chan \<Rightarrow> 'c latency_case \<Rightarrow> 'c latency_case \<Rightarrow> bool" for ops where
  enter: "lc_producer s = OuterCheck \<Longrightarrow> lc_keep_running s \<Longrightarrow> latency_step ops s (s\<lparr>lc_producer := Swap\<rparr>)"
| leave: "lc_producer s = OuterCheck \<Longrightarrow> \<not> lc_keep_running s \<Longrightarrow> latency_step ops s (s\<lparr>lc_producer := Exited\<rparr>)"
| swapped: "lc_producer s = Swap \<Longrightarrow> lc_send s \<Longrightarrow>
     latency_step ops s (s\<lparr>lc_send := False, lc_producer := Sending\<rparr>)"
| no_signal: "lc_producer s = Swap \<Longrightarrow> \<not> lc_send s \<Longrightarrow> latency_step ops s (s\<lparr>lc_producer := InnerCheck\<rparr>)"
| spin: "lc_producer s = InnerCheck \<Longrightarrow> lc_keep_running s \<Longrightarrow> latency_step ops s (s\<lparr>lc_producer := Swap\<rparr>)"
| return_early: "lc_producer s = InnerCheck \<Longrightarrow> \<not> lc_keep_running s \<Longrightarrow> latency_step ops s (s\<lparr>lc_producer := Exited\<rparr>)"
| sent: "lc_producer s = Sending \<Longrightarrow> try_send ops (lc_chan s) = (True, c') \<Longrightarrow>
     latency_step ops s (s\<lparr>lc_chan := c', lc_producer := OuterCheck, lc_sent := Suc (lc_sent s)\<rparr>)"
| send_again: "lc_producer s = Sending \<Longrightarrow> try_send ops (lc_chan s) = (False, c') \<Longrightarrow>
     latency_step ops s (s\<lparr>lc_chan := c'\<rparr>)"
| signal: "lc_bench s = Next (Suc n) \<Longrightarrow> latency_step ops s (s\<lparr>lc_send := True, lc_bench := Receiving n\<rparr>)"
| received: "lc_bench s = Receiving n \<Longrightarrow> try_recv ops (lc_chan s) = (True, c') \<Longrightarrow>
     latency_step ops s (s\<lparr>lc_chan := c', lc_bench := Next n, lc_received := Suc (lc_received s)\<rparr>)"
| receive_again: "lc_bench s = Receiving n \<Longrightarrow> try_recv ops (lc_chan s) = (False, c') \<Longrightarrow>
     latency_step ops s (s\<lparr>lc_chan := c'\<rparr>)"
| stop_running: "lc_bench s = Next 0 \<Longrightarrow> latency_step ops s (s\<lparr>lc_keep_running := False, lc_bench := StopSend\<rparr>)"
| stop_send: "lc_bench s = StopSend \<Longrightarrow> latency_step ops s (s\<lparr>lc_send := True, lc_bench := Joining\<rparr>)"
| joined: "lc_bench s = Joining \<Longrightarrow> lc_producer s = Exited \<Longrightarrow> latency_step ops s (s\<lparr>lc_bench := Joined\<rparr>)"

text \<open>Messages on their way: asked for, about to be sent, or in the channel.\<close>

definition on_their_way :: "'c try_chan \<Rightarrow> 'c latency_case \<Rightarrow> nat" where
  "on_their_way ops s =
     of_bool (lc_send s) + of_bool (lc_producer s = Sending) + queued ops (lc_chan s)"

fun still_to_run :: "bench_pc \<Rightarrow> nat" where
  "still_to_run (Next n) = n"
| "still_to_run (Receiving n) = Suc n"
| "still_to_run _ = 0"

definition latency_inv :: "nat \<Rightarrow> nat \<Rightarrow> 'c try_chan \<Rightarrow> 'c latency_case \<Rightarrow> bool" where
  "latency_inv cap runs ops s \<longleftrightarrow>
     try_chan_laws cap ops \<and> 0 < cap \<and>
     lc_received s + still_to_run (lc_bench s) = runs \<and>
     lc_sent s = lc_received s + queued ops (lc_chan s) \<and>
     (lc_producer s = Exited \<longrightarrow> \<not> lc_keep_running s) \<and>
     (lc_keep_running s \<longleftrightarrow> lc_bench s \<notin> {StopSend, Joining, Joined}) \<and>
     (case lc_bench s of
        Next _ \<Rightarrow> on_their_way ops s = 0
      | Receiving _ \<Rightarrow> on_their_way ops s = 1
      | StopSend \<Rightarrow> on_their_way ops s = 0
      | Joining \<Rightarrow> on_their_way ops s \<le> 1
      | Joined \<Rightarrow> on_their_way ops s \<le> 1)"

lemma latency_inv_start:
  "try_chan_laws cap ops \<Longrightarrow> 0 < cap \<Longrightarrow> queued ops c = 0 \<Longrightarrow> latency_inv cap runs ops (latency_start runs c)"
  by (simp add: latency_inv_def latency_start_def on_their_way_def)

lemma latency_step_inv:
  assumes "latency_step ops s t" "latency_inv cap runs ops s"
  shows "latency_inv cap runs ops t"
proof -
  from assms(2) have laws: "try_chan_laws cap ops" by (simp add: latency_inv_def)
  from assms(1) show ?thesis
  proof cases
    case (sent c')
    with try_sendD [OF laws sent(3)] assms(2) show ?thesis
      by (auto simp: latency_inv_def on_their_way_def split: bench_pc.splits)
  next
    case (send_again c')
    with try_sendD [OF laws send_again(3)] assms(2) show ?thesis
      by (auto simp: latency_inv_def on_their_way_def split: bench_pc.splits)
  next
    case (received n c')
    with try_recvD [OF laws received(3)] assms(2) show ?thesis
      by (auto simp: latency_inv_def on_their_way_def of_bool_def split: if_splits)
  next
    case (receive_again n c')
    with try_recvD [OF laws receive_again(3)] assms(2) show ?thesis
      by (auto simp: latency_inv_def on_their_way_def)
  qed (use assms(2) in \<open>auto simp: latency_inv_def on_their_way_def split: bench_pc.splits\<close>)
qed

fun latency_distance :: "'c try_chan \<Rightarrow> 'c latency_case \<Rightarrow> nat" where
  "latency_distance ops s =
     (case lc_bench s of
        Next n \<Rightarrow> 20 * n + 18
      | Receiving n \<Rightarrow> 20 * n + 20 +
          (if 0 < queued ops (lc_chan s) then 0
           else case lc_producer s of Sending \<Rightarrow> 1 | Swap \<Rightarrow> 2 | Exited \<Rightarrow> 0 | _ \<Rightarrow> 3)
      | StopSend \<Rightarrow> 10
      | Joining \<Rightarrow> (case lc_producer s of Exited \<Rightarrow> 1 | Sending \<Rightarrow> 3 | Swap \<Rightarrow> 4 | _ \<Rightarrow> 2)
      | Joined \<Rightarrow> 0)"

lemma latency_nearI:
  "latency_step ops s t \<Longrightarrow> latency_distance ops t < latency_distance ops s \<Longrightarrow>
     \<exists>t. latency_step ops s t \<and> latency_distance ops t < latency_distance ops s"
  by blast

lemma producer_sends:
  assumes "latency_inv cap runs ops s" "lc_producer s = Sending" "queued ops (lc_chan s) = 0"
  obtains c' where "try_send ops (lc_chan s) = (True, c')" "queued ops c' = 1"
proof -
  from assms(1) have laws: "try_chan_laws cap ops" "0 < cap" by (simp_all add: latency_inv_def)
  obtain ok c' where c: "try_send ops (lc_chan s) = (ok, c')" by (cases "try_send ops (lc_chan s)")
  with try_sendD [OF laws(1) c] laws(2) assms(3) that show ?thesis by simp
qed

lemma latency_nearer_receiving:
  assumes inv: "latency_inv cap runs ops s" and b: "lc_bench s = Receiving n"
  shows "\<exists>t. latency_step ops s t \<and> latency_distance ops t < latency_distance ops s"
proof (cases "0 < queued ops (lc_chan s)")
  case True
  obtain ok c' where c: "try_recv ops (lc_chan s) = (ok, c')" by (cases "try_recv ops (lc_chan s)")
  moreover from inv have "try_chan_laws cap ops" by (simp add: latency_inv_def)
  ultimately have "latency_step ops s (s\<lparr>lc_chan := c', lc_bench := Next n, lc_received := Suc (lc_received s)\<rparr>)"
    using try_recvD [of cap ops] True by (intro received [OF b]) auto
  then show ?thesis by (rule latency_nearI) (use b True in simp)
next
  case empty: False
  show ?thesis
  proof (cases "lc_producer s")
    case OuterCheck
    with inv b empty show ?thesis by (intro exI [of _ "s\<lparr>lc_producer := Swap\<rparr>"]) (auto simp: latency_inv_def intro: enter)
  next
    case Swap
    with inv b empty have "lc_send s" by (simp add: latency_inv_def on_their_way_def of_bool_def split: if_splits)
    with Swap b empty show ?thesis
      by (intro exI [of _ "s\<lparr>lc_send := False, lc_producer := Sending\<rparr>"]) (auto intro: swapped)
  next
    case InnerCheck
    then show ?thesis using inv b empty
      by (intro exI [of _ "s\<lparr>lc_producer := Swap\<rparr>"]) (auto simp: latency_inv_def intro: latency_step.spin)
  next
    case Sending
    from inv Sending empty obtain c' where "try_send ops (lc_chan s) = (True, c')" "queued ops c' = 1"
      using producer_sends by blast
    with Sending b empty show ?thesis
      by (intro exI [of _ "s\<lparr>lc_chan := c', lc_producer := OuterCheck, lc_sent := Suc (lc_sent s)\<rparr>"]) (auto intro: sent)
  next
    case Exited
    with inv b have False by (auto simp: latency_inv_def)
    then show ?thesis ..
  qed
qed

lemma latency_nearer_joining:
  assumes inv: "latency_inv cap runs ops s" and b: "lc_bench s = Joining"
  shows "\<exists>t. latency_step ops s t \<and> latency_distance ops t < latency_distance ops s"
proof (cases "lc_producer s")
  case OuterCheck
  with inv b show ?thesis by (intro exI [of _ "s\<lparr>lc_producer := Exited\<rparr>"]) (auto simp: latency_inv_def intro: leave)
next
  case Swap
  show ?thesis
  proof (cases "lc_send s")
    case True
    with Swap b show ?thesis by (intro latency_nearI [OF swapped]) simp_all
  next
    case False
    with Swap b show ?thesis by (intro latency_nearI [OF no_signal]) simp_all
  qed
next
  case InnerCheck
  with inv b show ?thesis
    by (intro exI [of _ "s\<lparr>lc_producer := Exited\<rparr>"]) (auto simp: latency_inv_def intro: return_early)
next
  case Sending
  with inv b have "queued ops (lc_chan s) = 0" by (simp add: latency_inv_def on_their_way_def)
  from producer_sends [OF inv Sending this] obtain c' where "try_send ops (lc_chan s) = (True, c')" by blast
  with Sending b show ?thesis
    by (intro exI [of _ "s\<lparr>lc_chan := c', lc_producer := OuterCheck, lc_sent := Suc (lc_sent s)\<rparr>"]) (auto intro: sent)
next
  case Exited
  with b show ?thesis by (intro exI [of _ "s\<lparr>lc_bench := Joined\<rparr>"]) (auto intro: joined)
qed

lemma latency_nearer:
  assumes "latency_inv cap runs ops s" "lc_bench s \<noteq> Joined"
  shows "\<exists>t. latency_step ops s t \<and> latency_inv cap runs ops t \<and> latency_distance ops t < latency_distance ops s"
proof -
  have "\<exists>t. latency_step ops s t \<and> latency_distance ops t < latency_distance ops s"
  proof (cases "lc_bench s")
    case (Next n)
    then show ?thesis
    proof (cases n)
      case 0
      with Next show ?thesis
        by (intro exI [of _ "s\<lparr>lc_keep_running := False, lc_bench := StopSend\<rparr>"]) (auto intro: stop_running)
    next
      case (Suc m)
      with Next show ?thesis
        by (intro exI [of _ "s\<lparr>lc_send := True, lc_bench := Receiving m\<rparr>"])
           (auto intro: signal split: producer_pc.splits)
    qed
  next
    case StopSend
    then show ?thesis
      by (intro exI [of _ "s\<lparr>lc_send := True, lc_bench := Joining\<rparr>"]) (auto intro: stop_send split: producer_pc.splits)
  qed (use assms latency_nearer_receiving latency_nearer_joining in blast)+
  with latency_step_inv assms(1) show ?thesis by blast
qed

interpretation lc: homing "latency_step ops" "latency_inv cap runs ops" "\<lambda>s. lc_bench s = Joined" "latency_distance ops"
  for ops cap runs
  by unfold_locales (rule latency_nearer)

lemma latency_run_inv:
  assumes "(latency_step ops)\<^sup>*\<^sup>* (latency_start runs c) s" "try_chan_laws cap ops" "0 < cap" "queued ops c = 0"
  shows "latency_inv cap runs ops s"
  using assms(1) by (induction rule: rtranclp_induct) (auto intro: latency_inv_start assms latency_step_inv)

text \<open>After the last iteration the producer may still see the signal that only wakes it up to exit,
  and then sends a message nobody receives.\<close>

definition after_stop :: "nat latency_case" where
  "after_stop =
     \<lparr>lc_keep_running = False, lc_send = True, lc_chan = 0, lc_producer = Swap, lc_bench = Joining, lc_sent = 0, lc_received = 0\<rparr>"

lemma stray_message:
  "(latency_step (counting_chan 1))\<^sup>*\<^sup>* (latency_start 0 0) after_stop"
  "(latency_step (counting_chan 1))\<^sup>*\<^sup>* after_stop
     (after_stop\<lparr>lc_send := False, lc_chan := 1, lc_producer := Exited, lc_bench := Joined, lc_sent := 1\<rparr>)"
proof -
  let ?ops = "counting_chan 1"
  let ?s1 = "latency_start 0 0 \<lparr>lc_producer := Swap\<rparr> :: nat latency_case"
  let ?s2 = "?s1\<lparr>lc_keep_running := False, lc_bench := StopSend\<rparr>"
  have "latency_step ?ops (latency_start 0 0) ?s1" by (rule enter) (simp_all add: latency_start_def)
  moreover have "latency_step ?ops ?s1 ?s2" by (rule stop_running) (simp add: latency_start_def)
  moreover have "latency_step ?ops ?s2 (?s2\<lparr>lc_send := True, lc_bench := Joining\<rparr>)" by (rule stop_send) simp
  ultimately show "(latency_step ?ops)\<^sup>*\<^sup>* (latency_start 0 0) after_stop"
    by (simp add: after_stop_def latency_start_def)
  let ?t1 = "after_stop\<lparr>lc_send := False, lc_producer := Sending\<rparr>"
  let ?t2 = "?t1\<lparr>lc_chan := 1, lc_producer := OuterCheck, lc_sent := Suc (lc_sent ?t1)\<rparr>"
  let ?t3 = "?t2\<lparr>lc_producer := Exited\<rparr>"
  have "latency_step ?ops after_stop ?t1" by (rule swapped) (simp_all add: after_stop_def)
  moreover have "latency_step ?ops ?t1 ?t2" by (rule sent) (simp_all add: counting_chan_def after_stop_def)
  moreover have "latency_step ?ops ?t2 ?t3" by (rule leave) (simp_all add: after_stop_def)
  moreover have "latency_step ?ops ?t3 (?t3\<lparr>lc_bench := Joined\<rparr>)" by (rule joined) (simp_all add: after_stop_def)
  ultimately show "(latency_step ?ops)\<^sup>*\<^sup>* after_stop
      (after_stop\<lparr>lc_send := False, lc_chan := 1, lc_producer := Exited, lc_bench := Joined, lc_sent := 1\<rparr>)"
    by (simp add: after_stop_def)
qed

text \<open>C40: However the two threads of a latency case interleave, no signal is lost and none is
  served twice: while an iteration waits exactly one message is asked for, being sent, or in the channel, and
  between iterations none is; the case can always be brought to its end, and then the benchmark thread has
  received one message per iteration and at most one more was sent.\<close>

theorem latency_case_hands_over:
  assumes "try_chan_laws cap ops" "0 < cap" "queued ops c = 0"
    and "(latency_step ops)\<^sup>*\<^sup>* (latency_start runs c) s"
  shows "(case lc_bench s of
        Next _ \<Rightarrow> on_their_way ops s = 0
      | Receiving _ \<Rightarrow> on_their_way ops s = 1
      | Joined \<Rightarrow> lc_received s = runs \<and> lc_sent s \<le> Suc runs
      | _ \<Rightarrow> on_their_way ops s \<le> 1) \<and>
    lc_sent s = lc_received s + queued ops (lc_chan s) \<and>
    (\<exists>t. (latency_step ops)\<^sup>*\<^sup>* s t \<and> lc_bench t = Joined)"
proof -
  have inv: "latency_inv cap runs ops s" by (rule latency_run_inv [OF assms(4,1-3)])
  from lc.goal_reachable [OF inv] have "\<exists>t. (latency_step ops)\<^sup>*\<^sup>* s t \<and> lc_bench t = Joined" .
  with inv show ?thesis by (auto simp: latency_inv_def on_their_way_def split: bench_pc.splits)
qed

theorem latency_case_hands_over_witness:
  "\<exists>t. (latency_step (counting_chan 1))\<^sup>*\<^sup>* after_stop t \<and> lc_bench t = Joined"
  using latency_case_hands_over [OF counting_chan_laws _ _ stray_message(1)] by (simp add: counting_chan_def)

section \<open>A saturated channel\<close>

datatype sender_pc = SendCheck | Attempts nat | SenderExited

datatype drain_pc = NextBatch nat | Draining nat nat | DrainJoin | DrainJoined

record 'c throughput_case =
  tc_keep_running :: bool
  tc_chan :: 'c
  tc_producer :: sender_pc
  tc_bench :: drain_pc
  tc_sent :: nat
  tc_received :: nat

definition throughput_start :: "nat \<Rightarrow> 'c \<Rightarrow> 'c throughput_case" where
  "throughput_start runs c =
     \<lparr>tc_keep_running = True, tc_chan = c, tc_producer = SendCheck, tc_bench = NextBatch runs, tc_sent = 0, tc_received = 0\<rparr>"

text \<open>A send that fails only pauses.\<close>

inductive throughput_step :: "'c try_chan \<Rightarrow> 'c throughput_case \<Rightarrow> 'c throughput_case \<Rightarrow> bool" for ops where
  batch: "tc_producer s = SendCheck \<Longrightarrow> tc_keep_running s \<Longrightarrow>
     throughput_step ops s (s\<lparr>tc_producer := Attempts buffer_size\<rparr>)"
| sender_exit: "tc_producer s = SendCheck \<Longrightarrow> \<not> tc_keep_running s \<Longrightarrow>
     throughput_step ops s (s\<lparr>tc_producer := SenderExited\<rparr>)"
| attempt: "tc_producer s = Attempts (Suc i) \<Longrightarrow> try_send ops (tc_chan s) = (ok, c') \<Longrightarrow>
     throughput_step ops s (s\<lparr>tc_chan := c', tc_producer := Attempts i, tc_sent := tc_sent s + of_bool ok\<rparr>)"
| batch_done: "tc_producer s = Attempts 0 \<Longrightarrow> throughput_step ops s (s\<lparr>tc_producer := SendCheck\<rparr>)"
| drain: "tc_bench s = NextBatch (Suc n) \<Longrightarrow>
     throughput_step ops s (s\<lparr>tc_bench := Draining n throughput_receive_batch\<rparr>)"
| drained: "tc_bench s = Draining n (Suc r) \<Longrightarrow> try_recv ops (tc_chan s) = (True, c') \<Longrightarrow>
     throughput_step ops s (s\<lparr>tc_chan := c', tc_bench := Draining n r, tc_received := Suc (tc_received s)\<rparr>)"
| drain_again: "tc_bench s = Draining n (Suc r) \<Longrightarrow> try_recv ops (tc_chan s) = (False, c') \<Longrightarrow>
     throughput_step ops s (s\<lparr>tc_chan := c'\<rparr>)"
| drain_done: "tc_bench s = Draining n 0 \<Longrightarrow> throughput_step ops s (s\<lparr>tc_bench := NextBatch n\<rparr>)"
| drain_stop: "tc_bench s = NextBatch 0 \<Longrightarrow> throughput_step ops s (s\<lparr>tc_keep_running := False, tc_bench := DrainJoin\<rparr>)"
| drain_join: "tc_bench s = DrainJoin \<Longrightarrow> tc_producer s = SenderExited \<Longrightarrow>
     throughput_step ops s (s\<lparr>tc_bench := DrainJoined\<rparr>)"

fun still_to_drain :: "drain_pc \<Rightarrow> nat" where
  "still_to_drain (NextBatch n) = 32 * n"
| "still_to_drain (Draining n r) = 32 * n + r"
| "still_to_drain _ = 0"

definition throughput_inv :: "nat \<Rightarrow> nat \<Rightarrow> 'c try_chan \<Rightarrow> 'c throughput_case \<Rightarrow> bool" where
  "throughput_inv cap runs ops s \<longleftrightarrow>
     try_chan_laws cap ops \<and> 0 < cap \<and>
     tc_sent s = tc_received s + queued ops (tc_chan s) \<and> queued ops (tc_chan s) \<le> cap \<and>
     tc_received s + still_to_drain (tc_bench s) = 32 * runs \<and>
     (case tc_producer s of Attempts i \<Rightarrow> i \<le> buffer_size | SenderExited \<Rightarrow> \<not> tc_keep_running s | SendCheck \<Rightarrow> True) \<and>
     (tc_keep_running s \<longleftrightarrow> tc_bench s \<notin> {DrainJoin, DrainJoined})"

lemma throughput_inv_start:
  "try_chan_laws cap ops \<Longrightarrow> 0 < cap \<Longrightarrow> queued ops c = 0 \<Longrightarrow> throughput_inv cap runs ops (throughput_start runs c)"
  by (simp add: throughput_inv_def throughput_start_def)

lemma throughput_step_inv:
  assumes "throughput_step ops s t" "throughput_inv cap runs ops s"
  shows "throughput_inv cap runs ops t"
proof -
  from assms(2) have laws: "try_chan_laws cap ops" by (simp add: throughput_inv_def)
  from assms(1) show ?thesis
  proof cases
    case (attempt i ok c')
    with try_sendD [OF laws attempt(3)] assms(2) show ?thesis by (auto simp: throughput_inv_def of_bool_def)
  next
    case (drained n r c')
    with try_recvD [OF laws drained(3)] assms(2) show ?thesis by (auto simp: throughput_inv_def split: sender_pc.splits)
  next
    case (drain_again n r c')
    with try_recvD [OF laws drain_again(3)] assms(2) show ?thesis by (auto simp: throughput_inv_def split: sender_pc.splits)
  qed (use assms(2) in \<open>auto simp: throughput_inv_def sizes split: sender_pc.splits\<close>)
qed

fun refill_wait :: "sender_pc \<Rightarrow> nat" where
  "refill_wait (Attempts (Suc i)) = 1"
| "refill_wait SendCheck = 2"
| "refill_wait (Attempts 0) = 3"
| "refill_wait SenderExited = 0"

fun exit_wait :: "sender_pc \<Rightarrow> nat" where
  "exit_wait SenderExited = 1"
| "exit_wait SendCheck = 2"
| "exit_wait (Attempts i) = i + 3"

fun throughput_distance :: "'c try_chan \<Rightarrow> 'c throughput_case \<Rightarrow> nat" where
  "throughput_distance ops s =
     (case tc_bench s of
        NextBatch n \<Rightarrow> 1100 + 340 * n
      | Draining n r \<Rightarrow> 1105 + 340 * n + 10 * r + (if 0 < queued ops (tc_chan s) then 0 else refill_wait (tc_producer s))
      | DrainJoin \<Rightarrow> exit_wait (tc_producer s)
      | DrainJoined \<Rightarrow> 0)"

lemma refill_wait_le: "refill_wait p \<le> 3"
  by (cases p rule: refill_wait.cases) simp_all

lemma throughput_nearI:
  "throughput_step ops s t \<Longrightarrow> throughput_distance ops t < throughput_distance ops s \<Longrightarrow>
     \<exists>t. throughput_step ops s t \<and> throughput_distance ops t < throughput_distance ops s"
  by blast

lemma throughput_nearer_draining:
  assumes inv: "throughput_inv cap runs ops s" and b: "tc_bench s = Draining n (Suc r)"
  shows "\<exists>t. throughput_step ops s t \<and> throughput_distance ops t < throughput_distance ops s"
proof -
  from inv have laws: "try_chan_laws cap ops" "0 < cap" by (simp_all add: throughput_inv_def)
  show ?thesis
  proof (cases "0 < queued ops (tc_chan s)")
    case True
    obtain ok c' where c: "try_recv ops (tc_chan s) = (ok, c')" by (cases "try_recv ops (tc_chan s)")
    with try_recvD [OF laws(1) c] True have "try_recv ops (tc_chan s) = (True, c')" by simp
    from drained [OF b this] show ?thesis
      by (rule throughput_nearI) (use b True refill_wait_le [of "tc_producer s"] in simp)
  next
    case empty: False
    show ?thesis
    proof (cases "tc_producer s" rule: refill_wait.cases)
      case (1 i)
      obtain ok c' where c: "try_send ops (tc_chan s) = (ok, c')" by (cases "try_send ops (tc_chan s)")
      from attempt [OF 1 c] show ?thesis
        by (rule throughput_nearI) (use b 1 empty try_sendD [OF laws(1) c] laws(2) in simp)
    next
      case 2
      with inv b have "tc_keep_running s" by (simp add: throughput_inv_def)
      from batch [OF 2 this] show ?thesis
        by (rule throughput_nearI) (use b 2 empty in \<open>simp add: sizes numeral_eq_Suc\<close>)
    next
      case 3
      from batch_done [OF 3] show ?thesis by (rule throughput_nearI) (use b 3 empty in simp)
    next
      case 4
      with inv b have False by (auto simp: throughput_inv_def)
      then show ?thesis ..
    qed
  qed
qed

lemma throughput_nearer_joining:
  assumes inv: "throughput_inv cap runs ops s" and b: "tc_bench s = DrainJoin"
  shows "\<exists>t. throughput_step ops s t \<and> throughput_distance ops t < throughput_distance ops s"
proof (cases "tc_producer s")
  case SendCheck
  with inv b have "\<not> tc_keep_running s" by (simp add: throughput_inv_def)
  from sender_exit [OF SendCheck this] show ?thesis by (rule throughput_nearI) (use b SendCheck in simp)
next
  case (Attempts i)
  show ?thesis
  proof (cases i)
    case 0
    with Attempts have p: "tc_producer s = Attempts 0" by simp
    from batch_done [OF p] show ?thesis by (rule throughput_nearI) (use b p in simp)
  next
    case (Suc j)
    with Attempts have p: "tc_producer s = Attempts (Suc j)" by simp
    obtain ok c' where c: "try_send ops (tc_chan s) = (ok, c')" by (cases "try_send ops (tc_chan s)")
    from attempt [OF p c] show ?thesis by (rule throughput_nearI) (use b p in simp)
  qed
next
  case SenderExited
  from drain_join [OF b this] show ?thesis by (rule throughput_nearI) (use b SenderExited in simp)
qed

lemma exit_wait_le: "throughput_inv cap runs ops s \<Longrightarrow> exit_wait (tc_producer s) \<le> 1027"
  by (cases "tc_producer s") (simp_all add: throughput_inv_def sizes)

lemma throughput_nearer:
  assumes inv: "throughput_inv cap runs ops s" and "tc_bench s \<noteq> DrainJoined"
  shows "\<exists>t. throughput_step ops s t \<and> throughput_inv cap runs ops t \<and> throughput_distance ops t < throughput_distance ops s"
proof -
  have "\<exists>t. throughput_step ops s t \<and> throughput_distance ops t < throughput_distance ops s"
  proof (cases "tc_bench s")
    case (NextBatch n)
    show ?thesis
    proof (cases n)
      case 0
      with NextBatch have b: "tc_bench s = NextBatch 0" by simp
      from drain_stop [OF b] show ?thesis by (rule throughput_nearI) (use b exit_wait_le [OF inv] in simp)
    next
      case (Suc m)
      with NextBatch have b: "tc_bench s = NextBatch (Suc m)" by simp
      from drain [OF b] show ?thesis
        by (rule throughput_nearI) (use b refill_wait_le [of "tc_producer s"] in \<open>simp add: sizes\<close>)
    qed
  next
    case (Draining n r)
    show ?thesis
    proof (cases r)
      case 0
      with Draining have b: "tc_bench s = Draining n 0" by simp
      from drain_done [OF b] show ?thesis by (rule throughput_nearI) (use b in simp)
    next
      case (Suc q)
      with Draining inv throughput_nearer_draining show ?thesis by blast
    qed
  qed (use assms throughput_nearer_joining in blast)+
  with throughput_step_inv inv show ?thesis by blast
qed

interpretation tc: homing "throughput_step ops" "throughput_inv cap runs ops" "\<lambda>s. tc_bench s = DrainJoined" "throughput_distance ops"
  for ops cap runs
  by unfold_locales (rule throughput_nearer)

lemma throughput_run_inv:
  assumes "(throughput_step ops)\<^sup>*\<^sup>* (throughput_start runs c) s" "try_chan_laws cap ops" "0 < cap" "queued ops c = 0"
  shows "throughput_inv cap runs ops s"
  using assms(1) by (induction rule: rtranclp_induct) (auto intro: throughput_inv_start assms throughput_step_inv)

text \<open>A saturated channel never holds more than its capacity and loses nothing; the case can always be
  brought to its end, and by then every iteration has drained its 32 messages.\<close>

theorem throughput_case_drains:
  assumes "try_chan_laws cap ops" "0 < cap" "queued ops c = 0"
    and "(throughput_step ops)\<^sup>*\<^sup>* (throughput_start runs c) s"
  shows "queued ops (tc_chan s) \<le> cap \<and> tc_sent s = tc_received s + queued ops (tc_chan s) \<and>
    (tc_bench s = DrainJoined \<longrightarrow> tc_received s = throughput_receive_batch * runs) \<and>
    (\<exists>t. (throughput_step ops)\<^sup>*\<^sup>* s t \<and> tc_bench t = DrainJoined)"
proof -
  have inv: "throughput_inv cap runs ops s" by (rule throughput_run_inv [OF assms(4,1-3)])
  from tc.goal_reachable [OF inv] have "\<exists>t. (throughput_step ops)\<^sup>*\<^sup>* s t \<and> tc_bench t = DrainJoined" .
  with inv show ?thesis by (auto simp: throughput_inv_def sizes)
qed

section \<open>The groups\<close>

text \<open>A group has run when each of its cases, one per channel and in order, has come to its end.\<close>

definition bench_inter_thread_latency ::
  "(rstr \<Rightarrow> nat) \<Rightarrow> 'c bench_channel list \<Rightarrow> baseline \<Rightarrow> 'c latency_case list \<Rightarrow> bool" where
  "bench_inter_thread_latency runs chans b ss \<longleftrightarrow>
     (baseline_step\<^sup>*\<^sup>* (baseline_start (runs ''Thread signal only (baseline)'')) b \<and> bl_bench b = WatchJoined) \<and>
     list_all2 (\<lambda>(name, ops, c) s. (latency_step ops)\<^sup>*\<^sup>* (latency_start (runs name) c) s \<and> lc_bench s = Joined) chans ss"

definition bench_inter_thread_throughput ::
  "(rstr \<Rightarrow> nat) \<Rightarrow> 'c bench_channel list \<Rightarrow> 'c throughput_case list \<Rightarrow> bool" where
  "bench_inter_thread_throughput runs chans ss \<longleftrightarrow>
     list_all2 (\<lambda>(name, ops, c) s. (throughput_step ops)\<^sup>*\<^sup>* (throughput_start (runs name) c) s \<and> tc_bench s = DrainJoined) chans ss"

lemma list_all2_ex: "(\<And>x. x \<in> set xs \<Longrightarrow> \<exists>y. R x y) \<Longrightarrow> \<exists>ys. list_all2 R xs ys"
  by (induction xs) (auto simp: list_all2_Cons1)

lemma groups_end:
  assumes "\<And>name ops c. (name, ops, c) \<in> set chans \<Longrightarrow> try_chan_laws cap ops \<and> queued ops c = 0" and "0 < cap"
  shows "\<exists>b ss. bench_inter_thread_latency runs chans b ss" "\<exists>ss. bench_inter_thread_throughput runs chans ss"
proof -
  have "\<exists>s. (latency_step ops)\<^sup>*\<^sup>* (latency_start (runs name) c) s \<and> lc_bench s = Joined"
    "\<exists>s. (throughput_step ops)\<^sup>*\<^sup>* (throughput_start (runs name) c) s \<and> tc_bench s = DrainJoined"
    if "(name, ops, c) \<in> set chans" for name ops c
    using assms(1) [OF that] assms(2)
    by (auto intro!: lc.goal_reachable [of cap "runs name"] tc.goal_reachable [of cap "runs name"] latency_inv_start throughput_inv_start)
  then have "\<exists>ss. list_all2 (\<lambda>(name, ops, c) s. (latency_step ops)\<^sup>*\<^sup>* (latency_start (runs name) c) s \<and> lc_bench s = Joined) chans ss"
    and "\<exists>ss. list_all2 (\<lambda>(name, ops, c) s. (throughput_step ops)\<^sup>*\<^sup>* (throughput_start (runs name) c) s \<and> tc_bench s = DrainJoined) chans ss"
    by (intro list_all2_ex; force)+
  moreover have "\<exists>b. baseline_step\<^sup>*\<^sup>* (baseline_start (runs ''Thread signal only (baseline)'')) b \<and> bl_bench b = WatchJoined"
    by (rule bl.goal_reachable) (simp add: baseline_inv_def baseline_start_def)
  ultimately show "\<exists>b ss. bench_inter_thread_latency runs chans b ss" "\<exists>ss. bench_inter_thread_throughput runs chans ss"
    by (auto simp: bench_inter_thread_latency_def bench_inter_thread_throughput_def)
qed

end
