(* ===== verification/DatabaseBench.thy ===== *)
theory DatabaseBench
  imports Benchmarks
begin

text \<open>
  The Criterion benchmark of the databases, \<open>src/benches/databases.rs\<close>: an iteration runs the
  benchmark of \<open>Benchmarks\<close> on a fresh database with reports that go nowhere, and asserts what came
  out. \<open>expect\<close> and \<open>assert\<close> panic; a panic is the error of the job. The database is made in a
  new temporary directory, \<open>tempdir\<close>.
\<close>

definition records_per_iteration :: nat where
  "records_per_iteration = 16 * 1024"

definition silent_report :: "progress \<Rightarrow> (rstr, 'r, unit) job" where
  "silent_report p = job_return ()"

definition expected_sample_count :: "nat \<Rightarrow> nat \<Rightarrow> nat" where
  "expected_sample_count records step = (if records = 0 then 0 else (records - 1) div max step 1 + 1)"

datatype bench_panic = NoTempDir rstr | ExpectFailed bench_error | AssertFailed

definition assert_all :: "bool list \<Rightarrow> (bench_panic, 's, unit) job" where
  "assert_all bs = (if list_all id bs then job_return () else job_fail AssertFailed)"

definition in_temp_dir :: "(rstr, unit) result \<Rightarrow> (bench_error, 's, 'a) job \<Rightarrow> (bench_panic, 's, 'a) job" where
  "in_temp_dir tempdir run = job_bind (job_lift (map_err NoTempDir tempdir)) (\<lambda>_. job_map_err ExpectFailed run)"

section \<open>One iteration of each database\<close>

definition sqlite_iteration_config :: sqlite_config where
  "sqlite_iteration_config =
     \<lparr>sc_expected_records = records_per_iteration, sc_progress_every = None, sc_point_query = True,
      sc_range_query = False, sc_wal_maintenance = False\<rparr>"

definition sqlite_iteration ::
  "(rstr, unit) result \<Rightarrow> ('e, 'r) bench_ops \<Rightarrow> ('e, 't, sqlite_event, 'c) engine_ops \<Rightarrow> (bench_error, 128 word) result \<Rightarrow>
   (nat \<Rightarrow> duration) \<Rightarrow> (bench_panic, 'e \<times> 'r, unit) job" where
  "sqlite_iteration tempdir ops eng clock elapsed =
     job_bind (in_temp_dir tempdir
         (sqlite_run_benchmark (ops\<lparr>bo_report := silent_report\<rparr>) eng sqlite_iteration_config clock elapsed)) (\<lambda>r.
     assert_all [sr_inserted r = records_per_iteration, sr_point_query r \<noteq> None, sr_range_query r = None])"

definition redb_iteration_config :: redb_config where
  "redb_iteration_config =
     \<lparr>rc_expected_records = records_per_iteration, rc_point_query_step = 1024, rc_progress_every = None\<rparr>"

definition redb_iteration ::
  "(rstr, unit) result \<Rightarrow> ('e, 'r) bench_ops \<Rightarrow> ('e, 't, u64 \<times> event, 'c) engine_ops \<Rightarrow> (bench_error, 128 word) result \<Rightarrow>
   (nat \<Rightarrow> duration) \<Rightarrow> (bench_panic, 'e \<times> 'r, unit) job" where
  "redb_iteration tempdir ops eng clock elapsed =
     (let expected_queries = expected_sample_count (rc_expected_records redb_iteration_config) (rc_point_query_step redb_iteration_config) in
      job_bind (in_temp_dir tempdir
         (redb_run_benchmark (ops\<lparr>bo_report := silent_report\<rparr>) eng redb_iteration_config clock elapsed)) (\<lambda>r.
      assert_all [br_inserted r = records_per_iteration, matched_rows (br_query r) = expected_queries]))"

definition heed_iteration_config :: heed_config where
  "heed_iteration_config =
     \<lparr>hc_expected_records = records_per_iteration, hc_point_query_step = 1024, hc_progress_every = None,
      hc_force_sync = False\<rparr>"

definition heed_iteration ::
  "(rstr, unit) result \<Rightarrow> ('e, 'r) bench_ops \<Rightarrow> ('e, 't, u64 \<times> event, 'c) engine_ops \<Rightarrow> (bench_error, 128 word) result \<Rightarrow>
   (nat \<Rightarrow> duration) \<Rightarrow> (bench_panic, 'e \<times> 'r, unit) job" where
  "heed_iteration tempdir ops eng clock elapsed =
     (let expected_queries = expected_sample_count (hc_expected_records heed_iteration_config) (hc_point_query_step heed_iteration_config) in
      job_bind (in_temp_dir tempdir
         (heed_run_benchmark (ops\<lparr>bo_report := silent_report\<rparr>) eng heed_iteration_config clock elapsed)) (\<lambda>r.
      assert_all [br_inserted r = records_per_iteration, matched_rows (br_query r) = expected_queries]))"

section \<open>The assertions hold\<close>

lemma expected_sample_count_eq: "expected_sample_count n step = (n + max step 1 - 1) div max step 1"
proof (cases "n = 0")
  case False
  then have "(n + max step 1 - 1) div max step 1 = ((n - 1) + max step 1) div max step 1" by simp
  also have "\<dots> = (n - 1) div max step 1 + 1" by (subst div_add_self2) simp_all
  finally show ?thesis using False by (simp add: expected_sample_count_def)
qed (simp add: expected_sample_count_def)

text \<open>How an iteration ends if no assertion fails: as its benchmark does.\<close>

definition outcome :: "(rstr, unit) result \<Rightarrow> (bench_error, 'a) result \<Rightarrow> (bench_panic, unit) result" where
  "outcome tempdir r =
     bind_res (map_err NoTempDir tempdir) (\<lambda>_. map_err ExpectFailed (bind_res r (\<lambda>_. Inr ())))"

lemma iteration_outcome:
  assumes "triple (\<lambda>_. True) run E Q" "\<And>r w. Q r w \<Longrightarrow> list_all id (checks r)"
  shows "fst (job_bind (in_temp_dir tempdir run) (\<lambda>r. assert_all (checks r)) w) = outcome tempdir (fst (run w))"
proof (cases tempdir)
  case (Inr u)
  obtain r w' where run: "run w = (r, w')" by (cases "run w")
  show ?thesis
  proof (cases r)
    case (Inr x)
    with assms run have "list_all id (checks x)" by (auto dest: tripleD_Inr)
    with run Inr \<open>tempdir = Inr u\<close> show ?thesis
      by (simp add: in_temp_dir_def outcome_def job_bind_def job_lift_def job_map_err_def assert_all_def job_return_def)
  qed (use run Inr in \<open>simp add: in_temp_dir_def outcome_def job_bind_def job_lift_def job_map_err_def\<close>)
qed (simp add: in_temp_dir_def outcome_def job_bind_def job_lift_def job_fail_def)

lemma store_laws_silent: "store_laws ops eng \<Longrightarrow> store_laws (ops\<lparr>bo_report := f\<rparr>) eng"
  by (simp add: store_laws_def)

lemma rows_laws_silent: "rows_laws ops eng \<Longrightarrow> rows_laws (ops\<lparr>bo_report := f\<rparr>) eng"
  by (simp add: rows_laws_def)

lemma sqlite_run_asserted:
  assumes "rows_laws ops eng"
  shows "\<exists>k. triple (\<lambda>_. True) (sqlite_run_benchmark ops eng config (Inr run_id) elapsed) (\<lambda>_. True)
    (\<lambda>r _. sqlite_done config (sr_inserted r) k (sr_point_query r) (sr_range_query r))"
  using triple_sqlite_run [OF assms, where
      k = "length (filter high_score (committed eng (projr (bo_create_table ops (projr (bo_open ops))))))"] by fastforce

section \<open>Properties\<close>

text \<open>C25: The Criterion iterations can be trusted to measure: over databases that keep their
  contract none of their assertions ever fails, so an iteration of SQLite, ReDB or Heed panics exactly when its
  temporary directory cannot be made or the benchmark itself reports an error.\<close>

theorem iterations_end_as_benchmarks:
  assumes "rows_laws sql_ops sql" "store_laws redb_ops redb" "store_laws heed_ops heed"
  shows "fst (sqlite_iteration tempdir sql_ops sql (Inr run_id) elapsed w1) =
      outcome tempdir (fst (sqlite_run_benchmark (sql_ops\<lparr>bo_report := silent_report\<rparr>) sql sqlite_iteration_config (Inr run_id) elapsed w1)) \<and>
    fst (redb_iteration tempdir redb_ops redb (Inr run_id) elapsed w2) =
      outcome tempdir (fst (redb_run_benchmark (redb_ops\<lparr>bo_report := silent_report\<rparr>) redb redb_iteration_config (Inr run_id) elapsed w2)) \<and>
    fst (heed_iteration tempdir heed_ops heed (Inr run_id) elapsed w3) =
      outcome tempdir (fst (heed_run_benchmark (heed_ops\<lparr>bo_report := silent_report\<rparr>) heed heed_iteration_config (Inr run_id) elapsed w3))"
proof (intro conjI)
  obtain k where "triple (\<lambda>_. True) (sqlite_run_benchmark (sql_ops\<lparr>bo_report := silent_report\<rparr>) sql sqlite_iteration_config (Inr run_id) elapsed)
      (\<lambda>_. True) (\<lambda>r _. sqlite_done sqlite_iteration_config (sr_inserted r) k (sr_point_query r) (sr_range_query r))"
    using sqlite_run_asserted [OF rows_laws_silent [OF assms(1)]] by blast
  then show "fst (sqlite_iteration tempdir sql_ops sql (Inr run_id) elapsed w1) =
      outcome tempdir (fst (sqlite_run_benchmark (sql_ops\<lparr>bo_report := silent_report\<rparr>) sql sqlite_iteration_config (Inr run_id) elapsed w1))"
    unfolding sqlite_iteration_def
    by (rule iteration_outcome) (auto simp: sqlite_done_def sqlite_iteration_config_def)
  show "fst (redb_iteration tempdir redb_ops redb (Inr run_id) elapsed w2) =
      outcome tempdir (fst (redb_run_benchmark (redb_ops\<lparr>bo_report := silent_report\<rparr>) redb redb_iteration_config (Inr run_id) elapsed w2))"
    unfolding redb_iteration_def Let_def expected_sample_count_eq
    by (rule iteration_outcome [OF triple_redb_run [OF store_laws_silent [OF assms(2)] refl]])
       (simp_all add: redb_iteration_config_def records_per_iteration_def)
  show "fst (heed_iteration tempdir heed_ops heed (Inr run_id) elapsed w3) =
      outcome tempdir (fst (heed_run_benchmark (heed_ops\<lparr>bo_report := silent_report\<rparr>) heed heed_iteration_config (Inr run_id) elapsed w3))"
    unfolding heed_iteration_def Let_def expected_sample_count_eq
    by (rule iteration_outcome [OF triple_heed_run [OF store_laws_silent [OF assms(3)] refl]])
       (simp_all add: heed_iteration_config_def records_per_iteration_def)
qed

lemma outcome_no_assert: "outcome tempdir r \<noteq> Inl AssertFailed"
  by (cases tempdir; cases r) (simp_all add: outcome_def)

theorem iterations_end_as_benchmarks_witness:
  "fst (sqlite_iteration (Inr ()) rows_bench rows_engine (Inr 77) (\<lambda>_. 1) ([], ())) \<noteq> Inl AssertFailed \<and>
   fst (heed_iteration (Inr ()) map_bench map_engine (Inr 77) (\<lambda>_. 1) (Map.empty, [])) \<noteq> Inl AssertFailed"
  using iterations_end_as_benchmarks [OF rows_laws_rows store_laws_map store_laws_map, of "Inr ()" 77 "\<lambda>_. 1"]
    outcome_no_assert by metis

end
