(* ===== verification/Timings.thy ===== *)
theory Timings
  imports Jobs Float64 Config
begin

text \<open>
  The chart timings, \<open>src/src/plot/timing.rs\<close>: named durations collected in order, and their print-out as the
  lines given to \<open>log::info!\<close>. \<open>now\<close> reads the clock (nanoseconds); what is measured is a job
  over the same world.
\<close>

section \<open>Collecting\<close>

type_synonym timings = "(rstr \<times> duration) list"

definition push_timing :: "rstr \<Rightarrow> duration \<Rightarrow> timings \<Rightarrow> timings" where
  "push_timing name d rows = rows @ [(name, d)]"

text \<open>\<open>start.elapsed()\<close> is zero when the clock went backwards. \<open>measure_async\<close> awaits instead of calling.\<close>

definition measure_job ::
  "('w \<Rightarrow> nat) \<Rightarrow> rstr \<Rightarrow> ('e, 'w, 'a) job \<Rightarrow> timings \<times> 'w \<Rightarrow> ('e, 'a) result \<times> timings \<times> 'w" where
  "measure_job now name f s =
     (case s of (rows, w) \<Rightarrow>
        (let start = now w in
         case f w of (out, w') \<Rightarrow> (out, (push_timing name (now w' - start) rows, w'))))"

definition measure_async ::
  "('w \<Rightarrow> nat) \<Rightarrow> rstr \<Rightarrow> ('e, 'w, 'a) job \<Rightarrow> timings \<times> 'w \<Rightarrow> ('e, 'a) result \<times> timings \<times> 'w" where
  "measure_async now name f s =
     (case s of (rows, w) \<Rightarrow>
        (let start = now w in
         case f w of (out, w') \<Rightarrow> (out, (push_timing name (now w' - start) rows, w'))))"

section \<open>Printing\<close>

text \<open>\<open>{:<24}\<close> counts characters; \<open>{:>9.3}\<close> pads the number printed with three decimals.\<close>

definition pad_right :: "nat \<Rightarrow> rstr \<Rightarrow> rstr" where
  "pad_right w s = s @ replicate (w - chars_count s) CHR '' ''"

definition duration_max :: duration where
  "duration_max = 2 ^ 64 * 10 ^ 9 - 1"

text \<open>\<open>Sum for Duration\<close> panics when the total does not fit.\<close>

fun sum_durations :: "duration list \<Rightarrow> duration \<Rightarrow> duration option" where
  "sum_durations [] acc = Some acc"
| "sum_durations (d # ds) acc = (if acc + d \<le> duration_max then sum_durations ds (acc + d) else None)"

definition as_secs :: "duration \<Rightarrow> f64" where
  "as_secs d =
     f_add (of_int_f64 (int (d div 10 ^ 9))) (f_div (of_int_f64 (int (d mod 10 ^ 9))) (of_int_f64 (10 ^ 9)))"

definition timing_line :: "rstr \<Rightarrow> duration \<Rightarrow> rstr" where
  "timing_line name d =
     ''  '' @ pad_right 24 name @ '' '' @ pad_left CHR '' '' 9 (fmt_dec 3 (f_mul (as_secs d) (of_int_f64 1000))) @ '' ms''"

definition print_with_wall :: "duration \<Rightarrow> timings \<Rightarrow> rstr list option" where
  "print_with_wall wall rows =
     (case sum_durations (map snd rows) 0 of
        None \<Rightarrow> None
      | Some measured \<Rightarrow>
          Some (''timings:'' # map (\<lambda>(name, d). timing_line name d) rows @
            [timing_line ''measured sum'' measured, timing_line ''wall total'' wall]))"

section \<open>What the rows say\<close>

lemma sum_durations_fits: "acc + sum_list ds \<le> duration_max \<Longrightarrow> sum_durations ds acc = Some (acc + sum_list ds)"
  by (induction ds arbitrary: acc) (simp_all add: add.assoc)

text \<open>Steps measured one after the other, up to the first that fails.\<close>

fun measure_each ::
  "('w \<Rightarrow> nat) \<Rightarrow> (rstr \<times> ('e, 'w, 'a) job) list \<Rightarrow> timings \<times> 'w \<Rightarrow> ('e, unit) result \<times> timings \<times> 'w" where
  "measure_each now [] s = (Inr (), s)"
| "measure_each now ((name, f) # fs) s =
     (case measure_job now name f s of
        (Inl e, s') \<Rightarrow> (Inl e, s')
      | (Inr _, s') \<Rightarrow> measure_each now fs s')"

definition clock_goes_on :: "('w \<Rightarrow> nat) \<Rightarrow> (rstr \<times> ('e, 'w, 'a) job) list \<Rightarrow> bool" where
  "clock_goes_on now fs \<longleftrightarrow> (\<forall>f \<in> snd ` set fs. \<forall>w. now w \<le> now (snd (f w)))"

text \<open>
  They leave one row each, the failed one included, in order; and when the clock does not go
  backwards what they add to the measured sum is exactly the time that went by.
\<close>

lemma measured_rows:
  assumes "clock_goes_on now fs"
    and "measure_each now fs (rows, w) = (r, rows', w')"
  shows "\<exists>new. rows' = rows @ new \<and> prefix (map fst new) (map fst fs) \<and>
    (is_ok r \<longrightarrow> map fst new = map fst fs) \<and> now w + sum_list (map snd new) = now w'"
  using assms
proof (induction fs arbitrary: rows w)
  case (Cons nf fs)
  obtain name f where nf: "nf = (name, f)" by (cases nf)
  obtain out w1 where f: "f w = (out, w1)" by (cases "f w")
  from Cons.prems(1) nf have "now w \<le> now (snd (f w))" and rest: "clock_goes_on now fs"
    by (auto simp: clock_goes_on_def)
  with f have le: "now w \<le> now w1" by simp
  show ?case
  proof (cases out)
    case (Inl e)
    with Cons.prems(2) nf f le show ?thesis
      by (intro exI [of _ "[(name, now w1 - now w)]"]) (auto simp: measure_job_def push_timing_def)
  next
    case (Inr x)
    with Cons.prems(2) nf f have run: "measure_each now fs (rows @ [(name, now w1 - now w)], w1) = (r, rows', w')"
      by (simp add: measure_job_def push_timing_def)
    from Cons.IH [OF rest run] obtain new where
      new: "rows' = (rows @ [(name, now w1 - now w)]) @ new" "prefix (map fst new) (map fst fs)"
        "is_ok r \<longrightarrow> map fst new = map fst fs" "now w1 + sum_list (map snd new) = now w'"
      by auto
    then show ?thesis
      using le nf by (intro exI [of _ "(name, now w1 - now w) # new"]) auto
  qed
qed auto

text \<open>So the print-out of such rows neither panics nor claims more than the wall time.\<close>

lemma measured_sum_within_wall:
  assumes "clock_goes_on now fs"
    and "measure_each now fs ([], w) = (r, rows, w')" and "now w' - now w \<le> duration_max"
  shows "print_with_wall (now w' - now w) rows =
    Some (''timings:'' # map (\<lambda>(name, d). timing_line name d) rows @
      [timing_line ''measured sum'' (now w' - now w), timing_line ''wall total'' (now w' - now w)])"
proof -
  from measured_rows [OF assms(1,2)] have total: "sum_list (map snd rows) = now w' - now w" by auto
  with assms(3) have "sum_durations (map snd rows) 0 = Some (now w' - now w)"
    using sum_durations_fits [of 0 "map snd rows"] by simp
  then show ?thesis by (simp add: print_with_wall_def)
qed

end
