(* ===== verification/Repository.thy ===== *)
theory Repository
  imports Prelude
begin

text \<open>
  The stored models of \<open>src/src/repository/models\<close>, and their errors. \<open>Cow<str>\<close> is a string and
  \<open>Cow<[u8]>\<close> its bytes; the derived comparisons are equality. The causes of an error
  are the \<open>redb\<close> crate's. The repositories themselves (\<open>contracts\<close>) are interfaces that nothing
  implements or calls.
\<close>

section \<open>Users\<close>

datatype user_realm = TelegramRealm | WhatsappRealm

datatype user = TelegramUserId u64 | WhatsappUserId u64

fun user_id :: "user \<Rightarrow> u64" where
  "user_id (TelegramUserId i) = i"
| "user_id (WhatsappUserId i) = i"

text \<open>The realm, which the constructor carries and \<open>user_id\<close> discards.\<close>

fun realm_of :: "user \<Rightarrow> user_realm" where
  "realm_of (TelegramUserId _) = TelegramRealm"
| "realm_of (WhatsappUserId _) = WhatsappRealm"

lemma user_id_inj_in_realm: "realm_of u = realm_of v \<Longrightarrow> user_id u = user_id v \<longleftrightarrow> u = v"
  by (cases u; cases v) auto

lemma user_id_forgets_realm: "\<exists>v. user_id v = user_id u \<and> v \<noteq> u"
  by (cases u) (metis user_id.simps user.distinct(1))+

section \<open>Telegram\<close>

record stored_telegram_user =
  st_user_id :: u64
  st_user_name :: rstr
  st_first_name :: rstr
  st_last_name :: rstr
  st_language_code :: rstr
  st_is_bot :: bool

datatype telegram_user_chat = PrivateUserChat (pc_chat_id: u64) (pc_user_id: u64)

record telegram_file =
  tf_content_type :: rstr
  tf_file_name :: rstr
  tf_contents :: "8 word list"
  tf_caption :: rstr

datatype telegram_content =
    PlainText rstr
  | RichText rstr
  | InlinedImage telegram_file
  | InlinedVideo telegram_file
  | InlinedAudio telegram_file
  | Sticker telegram_file
  | DocumentFile telegram_file
  | Location rstr
  | Contact rstr

datatype telegram_message =
    MobileOriginated (tm_chat_id: u64) (tm_message: telegram_content)
  | MobileTerminated (tm_chat_id: u64) (tm_message: telegram_content)

fun chat_user_id :: "telegram_user_chat \<Rightarrow> u64" where
  "chat_user_id (PrivateUserChat _ user) = user"

fun chat_chat_id :: "telegram_user_chat \<Rightarrow> u64" where
  "chat_chat_id (PrivateUserChat chat _) = chat"

lemma chat_is_its_ids: "c = PrivateUserChat (chat_chat_id c) (chat_user_id c)"
  by (cases c) simp

section \<open>Errors\<close>

datatype ('t, 's, 'c) repository_error =
    MissingWriteTransaction rstr
  | ReDbTable rstr 't
  | ReDbStorage rstr 's
  | ReDbCommit rstr 'c

text \<open>\<open>Display\<close> prints what the derived \<open>Debug\<close> prints.\<close>

definition display_error :: "(('t, 's, 'c) repository_error \<Rightarrow> rstr) \<Rightarrow> ('t, 's, 'c) repository_error \<Rightarrow> rstr" where
  "display_error debug err = debug err"

end
