(* ===== verification/WhatsappConsole.thy ===== *)
theory WhatsappConsole
  imports WhatsappWebhook
begin

text \<open>
  What the WhatsApp example prints, \<open>src/examples/whatsapp_demoscene.rs\<close>: the lines of \<open>println!\<close> and
  \<open>eprintln!\<close>, in order. Where the crate's own types are printed with \<open>{:?}\<close> the text they print is an
  argument. In \<open>{:?}\<close> of a string the escapes of ASCII are spelt out; what becomes of a run of other
  characters depends on the Unicode tables of the standard library and is the argument \<open>unicode\<close>.
\<close>

datatype console_line = Stdout rstr | Stderr rstr

section \<open>Debug of strings and options\<close>

definition debug_ascii :: "char \<Rightarrow> rstr" where
  "debug_ascii c =
     (let n = code c; esc = (\<lambda>s. CHR 0x5c # s) in
      if n = 0 then esc ''0''
      else if n = 9 then esc ''t''
      else if n = 13 then esc ''r''
      else if n = 10 then esc ''n''
      else if n = 34 \<or> n = 92 then esc [c]
      else if n < 32 \<or> n = 127 then esc (''u{'' @ to_base 16 n @ ''}'')
      else [c])"

function debug_chars :: "(rstr \<Rightarrow> rstr) \<Rightarrow> rstr \<Rightarrow> rstr" where
  "debug_chars unicode s =
     (case s of
        [] \<Rightarrow> []
      | c # cs \<Rightarrow>
          if code c < 128 then debug_ascii c @ debug_chars unicode cs
          else unicode (takeWhile (\<lambda>c. 128 \<le> code c) s) @ debug_chars unicode (dropWhile (\<lambda>c. 128 \<le> code c) cs))"
  by pat_completeness auto
termination
  by (relation "measure (length \<circ> snd)") (auto intro: le_imp_less_Suc length_dropWhile_le)

declare debug_chars.simps [simp del]

definition debug_str :: "(rstr \<Rightarrow> rstr) \<Rightarrow> rstr \<Rightarrow> rstr" where
  "debug_str unicode s = [CHR 0x22] @ debug_chars unicode s @ [CHR 0x22]"

definition debug_option :: "('a \<Rightarrow> rstr) \<Rightarrow> 'a option \<Rightarrow> rstr" where
  "debug_option debug x = (case x of None \<Rightarrow> ''None'' | Some v \<Rightarrow> ''Some('' @ debug v @ '')'')"

section \<open>Delivery statuses\<close>

definition error_detail :: "status_error \<Rightarrow> rstr" where
  "error_detail e =
     (case se_title e of
        Some t \<Rightarrow> t
      | None \<Rightarrow> (case se_message e of Some m \<Rightarrow> m | None \<Rightarrow> ''<no error description>''))"

definition error_line :: "rstr \<Rightarrow> status_error \<Rightarrow> console_line" where
  "error_line update_id e =
     Stderr (''WhatsApp demoscene: Meta status error for '' @ update_id @ '': code='' @
       (case se_code e of None \<Rightarrow> ''unknown'' | Some k \<Rightarrow> show_nat k) @ '' '' @ error_detail e)"

definition status_lines :: "(rstr \<Rightarrow> rstr) \<Rightarrow> status_update \<Rightarrow> console_line list" where
  "status_lines unicode u =
     Stdout (''MT status id='' @ su_id u @ '' status='' @ su_status u @ '' callback='' @
       debug_option (debug_str unicode) (su_callback u)) # map (error_line (su_id u)) (su_errors u)"

definition log_status_updates :: "(rstr \<Rightarrow> rstr) \<Rightarrow> status_update list \<Rightarrow> console_line list" where
  "log_status_updates unicode updates = concat (map (status_lines unicode) updates)"

section \<open>The webhook with its log\<close>

text \<open>\<open>status_text\<close> prints a status code with its reason (\<open>200 OK\<close>).\<close>

definition request_line :: "mac_ops \<Rightarrow> http_request \<Rightarrow> console_line" where
  "request_line ops req =
     Stdout (''WEBHOOK HTTP <- method='' @ rq_method req @ '' path='' @ rq_path req @ '' content_length='' @
       (case Option.bind (map_of (rq_headers req) ''content-length'') (hdr_str ops) of Some l \<Rightarrow> l | None \<Rightarrow> ''unknown'') @
       '' x_hub_signature_256_present='' @
       (if map_of (rq_headers req) signature_header \<noteq> None then ''true'' else ''false''))"

definition response_line :: "(nat \<Rightarrow> rstr) \<Rightarrow> http_request \<Rightarrow> http_response \<Rightarrow> console_line" where
  "response_line status_text req resp =
     Stdout (''WEBHOOK HTTP -> method='' @ rq_method req @ '' path='' @ rq_path req @ '' status='' @ status_text (rs_status resp))"

definition wa_stderr :: "rstr \<Rightarrow> console_line" where
  "wa_stderr what = Stderr (''WhatsApp demoscene: '' @ what)"

text \<open>\<open>handle_signed_webhook\<close> again, with what it prints; what the service prints is its own.\<close>

definition handle_signed_webhook_logged ::
  "webhook_crates \<Rightarrow> (nat \<Rightarrow> rstr) \<Rightarrow> (rstr \<Rightarrow> rstr) \<Rightarrow> rstr \<Rightarrow> 's service \<Rightarrow>
   http_request \<Rightarrow> 's \<Rightarrow> console_line list \<times> http_response \<times> 's" where
  "handle_signed_webhook_logged crates status_text unicode secret serve req s =
     (let answer = (\<lambda>lines resp s'. (request_line (wc_mac crates) req # lines @ [response_line status_text req resp], resp, s')) in
      case to_bytes (rq_body req) max_webhook_body_bytes of
        Inl err \<Rightarrow>
          answer [wa_stderr (''webhook body rejected: '' @ err)]
            (respond 413 ''Webhook body is unreadable or exceeds 1 MiB'') s
      | Inr body \<Rightarrow>
          (case verify_meta_signature (wc_mac crates) secret (rq_headers req) body of
             Inl reason \<Rightarrow>
               answer [wa_stderr (''webhook signature verification failed: '' @ reason)]
                 (respond 401 ''Webhook signature verification failed'') s
           | Inr _ \<Rightarrow>
               (case status_updates_if_only (wc_envelope crates) body of
                  Some updates \<Rightarrow> answer (log_status_updates unicode updates) (respond 200 []) s
                | None \<Rightarrow>
                    (case normalize_template_quick_reply_callbacks (wc_json crates) body of
                       Inr (Some normalized) \<Rightarrow>
                         (case serve (req\<lparr>rq_headers := remove_header ''content-length'' (rq_headers req),
                                  rq_body := Readable normalized\<rparr>) s of
                            (resp, s') \<Rightarrow>
                              answer [Stdout ''WhatsApp demoscene: adapted signed template quick-reply callback for whatsapp-business-rs 0.5.0''] resp s')
                     | Inr None \<Rightarrow> (case serve (req\<lparr>rq_body := Readable body\<rparr>) s of (resp, s') \<Rightarrow> answer [] resp s')
                     | Inl err \<Rightarrow>
                         answer [wa_stderr (''invalid template quick-reply callback: '' @ err)]
                           (respond 400 ''Invalid template quick-reply callback'') s))))"

definition handle_unmatched_logged :: "http_request \<Rightarrow> console_line list \<times> http_response" where
  "handle_unmatched_logged req =
     ([Stdout (''WEBHOOK HTTP <- method='' @ rq_method req @ '' path='' @ rq_path req @ '' route=unmatched'')],
      respond 404 ''No WhatsApp webhook route matches this path'')"

text \<open>The log changes nothing, and it tells the truth: it opens with the request and closes with the
  status that was answered, and what is in between names every status and every error of a delivery that
  holds nothing else.\<close>

lemma log_is_faithful:
  assumes "handle_signed_webhook_logged crates status_text unicode secret serve req s = (lines, resp, s')"
  shows "handle_signed_webhook crates secret serve req s = (resp, s') \<and>
    (\<exists>between. lines = request_line (wc_mac crates) req # between @ [response_line status_text req resp])"
  using assms
  by (auto simp: handle_signed_webhook_logged_def handle_signed_webhook_def Let_def split: sum.splits option.splits prod.splits)

lemma log_status_updates_complete:
  "length (log_status_updates unicode us) = sum_list (map (\<lambda>u. Suc (length (su_errors u))) us)"
  by (induction us) (simp_all add: log_status_updates_def status_lines_def)

section \<open>The other handlers\<close>

text \<open>\<open>handle_message_update\<close>, \<open>handle_waba_event\<close>, \<open>handle_error\<close>, and the lines around an incoming message.\<close>

definition message_update_lines :: "(rstr \<Rightarrow> rstr) \<Rightarrow> rstr \<Rightarrow> rstr \<Rightarrow> rstr option \<Rightarrow> rstr list \<Rightarrow> console_line list" where
  "message_update_lines unicode message_id status_debug callback errors =
     Stdout (''MT status id='' @ message_id @ '' status='' @ status_debug @ '' callback='' @
       debug_option (debug_str unicode) callback) #
     map (\<lambda>e. wa_stderr (''Meta status error for '' @ message_id @ '': '' @ e)) errors"

definition waba_event_line :: "rstr \<Rightarrow> console_line" where
  "waba_event_line event_debug = Stdout (''WABA event: '' @ event_debug)"

definition handler_error_line :: "rstr \<Rightarrow> console_line" where
  "handler_error_line err = wa_stderr (''webhook processing error: '' @ err)"

definition sent_line :: "rstr \<Rightarrow> rstr \<Rightarrow> rstr \<Rightarrow> console_line" where
  "sent_line what message_id status_debug = Stdout (what @ '': sent id='' @ message_id @ '' status='' @ status_debug)"

definition usage_line :: console_line where
  "usage_line =
     Stdout ''Usage: cargo run --example whatsapp_demoscene -- <send|send-template|send-batch|serve|register-webhook|serve-and-register>''"

section \<open>A callback cannot write lines of its own\<close>

lemma to_base_graphic: "2 \<le> b \<Longrightarrow> b \<le> 16 \<Longrightarrow> c \<in> set (to_base b n) \<Longrightarrow> 32 \<le> code c \<and> code c < 127"
proof (induction b n rule: to_base.induct)
  case (1 b n)
  have digit: "32 \<le> code (digit_char d) \<and> code (digit_char d) < 127" if "d < 16" for d
    using that by (auto simp: digit_char_def code_def)
  show ?case
  proof (cases "n < b \<or> b < 2")
    case True
    with 1 digit [of n] show ?thesis by (auto simp: to_base.simps)
  next
    case False
    with 1(2,3) have "n mod b < 16" by (intro less_le_trans [OF mod_less_divisor]) simp_all
    with 1 digit [of "n mod b"] False show ?thesis
      by (subst (asm) (2) to_base.simps) auto
  qed
qed

lemma debug_ascii_graphic: "code c < 128 \<Longrightarrow> d \<in> set (debug_ascii c) \<Longrightarrow> 32 \<le> code d \<and> code d < 127"
  using to_base_graphic [of 16 d "code c"]
  by (auto simp: debug_ascii_def Let_def code_def split: if_splits)

text \<open>Every byte of a printed callback is a graphic one or comes from \<open>unicode\<close>: no line break and no
  control character gets through.\<close>

lemma debug_chars_graphic:
  assumes "\<And>run d. d \<in> set (unicode run) \<Longrightarrow> 32 \<le> code d \<and> code d \<noteq> 127"
  shows "d \<in> set (debug_chars unicode s) \<Longrightarrow> 32 \<le> code d \<and> code d \<noteq> 127"
proof (induction "length s" arbitrary: s rule: less_induct)
  case less
  show ?case
  proof (cases s)
    case (Cons c cs)
    have rest: "32 \<le> code d \<and> code d \<noteq> 127" if "d \<in> set (debug_chars unicode t)" "length t \<le> length cs" for t
      using less.hyps [of t] that Cons by simp
    from less.prems Cons show ?thesis
      by (subst (asm) debug_chars.simps)
         (auto split: if_splits dest: rest debug_ascii_graphic assms intro: length_dropWhile_le dest!: rest [OF _ length_dropWhile_le])
  qed (use less.prems in \<open>simp add: debug_chars.simps\<close>)
qed

end
