(* ===== verification/WhatsappTests.thy ===== *)
theory WhatsappTests
  imports WhatsappServer WhatsappAnswers
begin

text \<open>
  The unit tests of the WhatsApp example, the module \<open>tests\<close> of \<open>src/examples/whatsapp_demoscene.rs\<close>, run on the
  model: each test is a predicate with the test's inputs and assertions (a panic is \<open>False\<close>), and a lemma that
  it passes. They check the definitions of the library against the authors' own examples.
\<close>

section \<open>Drafts\<close>

text \<open>What a test looks at in an interactive message: the calls that made it, in the order of the list.\<close>

definition cta_url :: "draft \<Rightarrow> rstr option" where
  "cta_url d =
     (case List.map_filter (\<lambda>c. case c of WithCtaUrl url _ \<Rightarrow> Some url | _ \<Rightarrow> None) (draft_calls d) of
        [] \<Rightarrow> None
      | urls \<Rightarrow> Some (last urls))"

text \<open>A section holds the options added after it; each option is given by its callback.\<close>

fun list_sections :: "draft_call list \<Rightarrow> rstr list list" where
  "list_sections [] = []"
| "list_sections (AddListSection _ # cs) =
     (List.map_filter (\<lambda>c. case c of AddListOption callback _ _ \<Rightarrow> Some callback | _ \<Rightarrow> None)
        (takeWhile (\<lambda>c. case c of AddListSection _ \<Rightarrow> False | _ \<Rightarrow> True) cs)) # list_sections cs"
| "list_sections (_ # cs) = list_sections cs"

definition is_option_list :: "draft \<Rightarrow> bool" where
  "is_option_list d \<longleftrightarrow> list_ex (\<lambda>c. case c of StartList _ \<Rightarrow> True | _ \<Rightarrow> False) (draft_calls d)"

definition all_demo_interactive_footers_fit_meta_limit :: "(draft \<Rightarrow> rstr option) \<Rightarrow> bool" where
  "all_demo_interactive_footers_fit_meta_limit footer_of \<longleftrightarrow>
     list_all (\<lambda>d. validate_demo_draft footer_of d = Inr ())
       [menu_draft, list_draft, database_benchmarks_draft, cta_draft, location_request_draft]"

definition cta_opens_the_bot_starter_kit_repository :: bool where
  "cta_opens_the_bot_starter_kit_repository \<longleftrightarrow>
     (case cta_url cta_draft of None \<Rightarrow> False | Some url \<Rightarrow> contains url ''bot-starter-kit'')"

definition overlong_draft :: draft where
  "overlong_draft =
     Draft NewDraft [Body ''Body'', Footer (replicate (interactive_footer_max_chars + 1) (CHR ''x'')), AddReplyButton ''ok'' ''OK'']"

definition overlong_interactive_footer_is_rejected_before_meta :: "(draft \<Rightarrow> rstr option) \<Rightarrow> bool" where
  "overlong_interactive_footer_is_rejected_before_meta footer_of \<longleftrightarrow>
     (case validate_demo_draft footer_of overlong_draft of
        Inl err \<Rightarrow> contains err ''61 characters'' \<and> contains err ''at most 60''
      | Inr _ \<Rightarrow> False)"

definition feature_list_uses_all_ten_rows_across_three_sections :: bool where
  "feature_list_uses_all_ten_rows_across_three_sections \<longleftrightarrow>
     is_option_list list_draft \<and>
     (let sections = list_sections (draft_calls list_draft) in
      length sections = 3 \<and> sum_list (map length sections) = 10)"

definition database_benchmark_list_exposes_three_engines_and_back_navigation :: bool where
  "database_benchmark_list_exposes_three_engines_and_back_navigation \<longleftrightarrow>
     is_option_list database_benchmarks_draft \<and>
     (let sections = list_sections (draft_calls database_benchmarks_draft) in
      length sections = 2 \<and> sum_list (map length sections) = 4 \<and>
      sections ! 0 = [''demo:benchmark:sqlite'', ''demo:benchmark:redb'', ''demo:benchmark:heed''])"

lemma footer_law_eq: "footer_law footer_of \<Longrightarrow> footer_of = given_footer"
  by (simp add: footer_law_def fun_eq_iff)

lemma draft_tests_pass:
  "footer_law footer_of \<Longrightarrow> all_demo_interactive_footers_fit_meta_limit footer_of"
  "footer_law footer_of \<Longrightarrow> overlong_interactive_footer_is_rejected_before_meta footer_of"
  cta_opens_the_bot_starter_kit_repository
  feature_list_uses_all_ten_rows_across_three_sections
  database_benchmark_list_exposes_three_engines_and_back_navigation
proof -
  have "all_demo_interactive_footers_fit_meta_limit given_footer" by code_simp
  moreover have "overlong_interactive_footer_is_rejected_before_meta given_footer" by code_simp
  ultimately show "footer_law footer_of \<Longrightarrow> all_demo_interactive_footers_fit_meta_limit footer_of"
    "footer_law footer_of \<Longrightarrow> overlong_interactive_footer_is_rejected_before_meta footer_of"
    by (auto dest!: footer_law_eq)
  show cta_opens_the_bot_starter_kit_repository by code_simp
  show feature_list_uses_all_ten_rows_across_three_sections by code_simp
  show database_benchmark_list_exposes_three_engines_and_back_navigation by code_simp
qed

section \<open>The shifted location\<close>

text \<open>\<open>f64::to_radians\<close> multiplies by \<open>PI / 180.0\<close>; \<open>PI\<close> is the constant of the standard library.\<close>

definition to_radians :: "f64 \<Rightarrow> f64" where
  "to_radians x = f_mul x (f_div (to_f64 (314159265358979323846264338327950288 / 10 ^ 35)) (Fin 180))"

definition sao_paulo :: location where
  "sao_paulo = \<lparr>latitude = to_f64 (- (2355052 / 100000)), longitude = to_f64 (- (46633308 / 1000000))\<rparr>"

definition north_south_distance :: "f64 \<Rightarrow> f64 \<Rightarrow> f64" where
  "north_south_distance from to = f_mul (to_radians (f_sub from to)) (Fin 1)"

definition inbound_location_is_returned_about_one_hundred_meters_south :: bool where
  "inbound_location_is_returned_about_one_hundred_meters_south \<longleftrightarrow>
     (case shifted_location_draft sao_paulo of
        Inr (Draft (LocationDraft lat lon) calls) \<Rightarrow>
          f_less (f_abs (north_south_distance (latitude sao_paulo) lat)) (to_f64 (1 / 1000)) \<and>
          lon = longitude sao_paulo \<and>
          List.map_filter (\<lambda>c. case c of LocationName s \<Rightarrow> Some s | _ \<Rightarrow> None) calls = [''About 100 m south of your location''] \<and>
          List.map_filter (\<lambda>c. case c of LocationAddress s \<Rightarrow> Some s | _ \<Rightarrow> None) calls = [''Original: -23.550520, -46.633308'']
      | _ \<Rightarrow> False) \<and>
     isl (shifted_location_draft \<lparr>latitude = Fin 91, longitude = Fin 0\<rparr>)"

text \<open>The coordinates, as doubles, to 30 binary places.\<close>

lemma sao_paulo_value:
  obtains x y where "sao_paulo = \<lparr>latitude = Fin x, longitude = Fin y\<rparr>"
    "- 25287178301 / 2 ^ 30 \<le> x" "x \<le> - 25287178300 / 2 ^ 30"
    "- 50072133192 / 2 ^ 30 \<le> y" "y \<le> - 50072133191 / 2 ^ 30"
proof -
  let ?x = "- (2355052 / 100000) :: rat" and ?y = "- (46633308 / 1000000) :: rat"
  have "to_f64 ?x = Fin (rnd ?x)" "to_f64 ?y = Fin (rnd ?y)"
    using to_f64_le [of ?x 24] to_f64_le [of ?y 47] by simp_all
  with rnd_dyadic [of "- 25287178301" 30 ?x "- 25287178300"] rnd_dyadic [of "- 50072133192" 30 ?y "- 50072133191"] that
  show ?thesis by (simp add: sao_paulo_def)
qed

lemma fmt_dec_6:
  assumes "a < 0" "of_nat (n * 10 ^ 6 + k) - 1 / 2 < - a * 10 ^ 6" "- a * 10 ^ 6 < of_nat (n * 10 ^ 6 + k) + 1 / 2" "k < 10 ^ 6"
  shows "fmt_dec 6 (Fin a) = ''-'' @ show_nat n @ ''.'' @ pad_left (CHR ''0'') 6 (show_nat k)"
proof -
  have "round_half_even (\<bar>a\<bar> * 10 ^ 6) = int (n * 10 ^ 6 + k)"
    by (rule round_half_even_eqI) (use assms(1-3) in \<open>simp add: abs_if\<close>)
  with assms show ?thesis by (simp add: Let_def nat_add_distrib nat_mult_distrib)
qed

lemma sao_paulo_address:
  assumes "- 25287178301 / 2 ^ 30 \<le> x" "x \<le> - 25287178300 / 2 ^ 30"
    "- 50072133192 / 2 ^ 30 \<le> y" "y \<le> - 50072133191 / 2 ^ 30"
  shows "fmt_dec 6 (Fin x) = ''-23.550520''" "fmt_dec 6 (Fin y) = ''-46.633308''"
proof -
  have "x < 0" "of_nat (23 * 10 ^ 6 + 550520) - 1 / 2 < - x * 10 ^ 6" "- x * 10 ^ 6 < of_nat (23 * 10 ^ 6 + 550520) + 1 / 2"
    "y < 0" "of_nat (46 * 10 ^ 6 + 633308) - 1 / 2 < - y * 10 ^ 6" "- y * 10 ^ 6 < of_nat (46 * 10 ^ 6 + 633308) + 1 / 2"
    using assms by simp_all
  then show "fmt_dec 6 (Fin x) = ''-23.550520''" "fmt_dec 6 (Fin y) = ''-46.633308''"
    using fmt_dec_6 [of x 23 550520] fmt_dec_6 [of y 46 633308] by (simp_all add: pad_left_def show_nat_eval del: fmt_dec.simps)
qed

text \<open>A difference of at most a thousandth of a degree is less than a thousandth in radians.\<close>

lemma small_distance:
  assumes "0 \<le> d" "d \<le> 1 / 2 ^ 10" "f_sub a b = Fin d"
  shows "f_less (f_abs (north_south_distance a b)) (to_f64 (1 / 1000))"
proof -
  let ?pi = "314159265358979323846264338327950288 / 10 ^ 35 :: rat"
  have pi: "to_f64 ?pi = Fin (rnd ?pi)" "3 \<le> rnd ?pi" "rnd ?pi \<le> 4"
    using to_f64_le [of ?pi 4] rnd_dyadic [of 3 0 ?pi 4] by simp_all
  define r where "r = rnd (rnd ?pi / 180)"
  have r: "to_f64 (rnd ?pi / 180) = Fin r" "0 \<le> r" "r \<le> 1 / 2 ^ 5"
    using pi(2,3) to_f64_le [of "rnd ?pi / 180" 1] rnd_dyadic [of 0 5 "rnd ?pi / 180" 1] by (simp_all add: r_def)
  have "d * r \<le> (1 / 2 ^ 10) * (1 / 2 ^ 5)"
    using assms(1,2) r(2,3) by (intro mult_mono; simp)
  moreover have "0 \<le> d * r" using assms(1) r(2) by simp
  ultimately have dr: "0 \<le> d * r" "d * r \<le> 1 / 2 ^ 15" by simp_all
  define e where "e = rnd (d * r)"
  have e: "to_f64 (d * r) = Fin e" "0 \<le> e" "e \<le> 1 / 2 ^ 15"
    using dr to_f64_le [of "d * r" 1] rnd_dyadic [of 0 15 "d * r" 1] by (simp_all add: e_def)
  then have e1: "to_f64 e = Fin (rnd e)" "0 \<le> rnd e" "rnd e \<le> 1 / 2 ^ 15"
    using to_f64_le [of e 1] rnd_dyadic [of 0 15 e 1] by simp_all
  have "to_f64 (1 / 1000) = Fin (rnd (1 / 1000))" "1 / 2 ^ 14 \<le> rnd (1 / 1000 :: rat)"
    using to_f64_le [of "1 / 1000" 1] rnd_dyadic [of 1 14 "1 / 1000" 17] by simp_all
  moreover have "f_div (Fin p) (Fin 180) = to_f64 (p / 180)" for p by simp
  then have "to_radians (Fin d) = Fin e"
    by (simp only: to_radians_def pi(1) f_mul.simps r(1) e(1))
  ultimately show ?thesis
    using e1 by (simp add: north_south_distance_def assms(3))
qed

lemma shifted_sao_paulo:
  obtains lat where
    "shifted_location_draft sao_paulo = Inr (Draft (LocationDraft lat (longitude sao_paulo))
       [LocationName ''About 100 m south of your location'',
        LocationAddress ''Original: -23.550520, -46.633308'',
        BizOpaqueCallbackData ''whatsapp-demoscene:location-shifted-south''])"
    "f_less (f_abs (north_south_distance (latitude sao_paulo) lat)) (to_f64 (1 / 1000))"
proof -
  obtain x y where l: "sao_paulo = \<lparr>latitude = Fin x, longitude = Fin y\<rparr>"
    "- 25287178301 / 2 ^ 30 \<le> x" "x \<le> - 25287178300 / 2 ^ 30"
    "- 50072133192 / 2 ^ 30 \<le> y" "y \<le> - 50072133191 / 2 ^ 30"
    by (rule sao_paulo_value)
  obtain d where d: "latitude_shift = Fin d" "965637 / 2 ^ 30 \<le> d" "d \<le> 965639 / 2 ^ 30"
    by (rule latitude_shift_value)
  define z where "z = rnd (x - d)"
  have z: "to_f64 (x - d) = Fin z" "- 25288143940 / 2 ^ 30 \<le> z" "z \<le> - 25288143937 / 2 ^ 30"
    using l(2,3) d(2,3) to_f64_le [of "x - d" 24] rnd_dyadic [of "- 25288143940" 30 "x - d" "- 25288143937"]
    by (simp_all add: z_def)
  have south: "f_max (f_sub (Fin x) latitude_shift) (Fin (- 90)) = Fin z"
    using z by (simp add: d(1) f_sub_def f_max_def)
  define e where "e = rnd (x - z)"
  have e: "to_f64 (x - z) = Fin e" "0 \<le> e" "e \<le> 1 / 2 ^ 10"
    using l(2,3) z(2,3) to_f64_le [of "x - z" 1] rnd_dyadic [of 0 10 "x - z" 1] by (simp_all add: e_def)
  have "f_less (f_abs (north_south_distance (Fin x) (Fin z))) (to_f64 (1 / 1000))"
    by (rule small_distance [OF e(2,3)]) (simp add: f_sub_def e(1))
  moreover have "shifted_location_draft sao_paulo = Inr (Draft (LocationDraft (Fin z) (longitude sao_paulo))
       [LocationName ''About 100 m south of your location'',
        LocationAddress ''Original: -23.550520, -46.633308'',
        BizOpaqueCallbackData ''whatsapp-demoscene:location-shifted-south''])"
    using l(2-5) by (simp add: l(1) shifted_location_draft_def in_closed_def south sao_paulo_address [OF l(2-5)] del: fmt_dec.simps)
  ultimately show ?thesis using that [of "Fin z"] by (simp add: l(1))
qed

lemma location_test_passes: inbound_location_is_returned_about_one_hundred_meters_south
proof -
  obtain lat where "shifted_location_draft sao_paulo = Inr (Draft (LocationDraft lat (longitude sao_paulo))
       [LocationName ''About 100 m south of your location'',
        LocationAddress ''Original: -23.550520, -46.633308'',
        BizOpaqueCallbackData ''whatsapp-demoscene:location-shifted-south''])"
    "f_less (f_abs (north_south_distance (latitude sao_paulo) lat)) (to_f64 (1 / 1000))"
    by (rule shifted_sao_paulo)
  moreover have "isl (shifted_location_draft \<lparr>latitude = Fin 91, longitude = Fin 0\<rparr>)"
    by (simp add: shifted_location_draft_def in_closed_def)
  ultimately show ?thesis
    by (simp add: inbound_location_is_returned_about_one_hundred_meters_south_def List.map_filter_simps)
qed

section \<open>Progress and media\<close>

text \<open>\<open>started\<close> is the instant \<open>Instant::now()\<close> gave; instants are milliseconds.\<close>

definition benchmark_progress_keeps_latest_and_samples_at_most_once_per_minute :: "nat \<Rightarrow> bool" where
  "benchmark_progress_keeps_latest_and_samples_at_most_once_per_minute started \<longleftrightarrow>
     (case observe started ''first'' progress_default of (first, st1) \<Rightarrow>
      let st2 = record_sent started ''first'' (record_sampled started st1) in
      case observe (started + 30000) ''middle'' st2 of (middle, st3) \<Rightarrow>
      let unsent = latest_unsent st3 in
      case observe (started + 60000) ''minute'' st3 of (minute, st4) \<Rightarrow>
      let st5 = record_sent (started + 60000) ''minute'' (record_sampled (started + 60000) st4) in
      first \<and> \<not> middle \<and> unsent = Some ''middle'' \<and> minute \<and> latest_unsent st5 = None \<and>
      pair_send_delay (started + 62000) st5 = 4000)"

lemma progress_test_passes: "benchmark_progress_keeps_latest_and_samples_at_most_once_per_minute started"
  by (simp add: benchmark_progress_keeps_latest_and_samples_at_most_once_per_minute_def Let_def case_prod_beta
      observe_def record_sent_def record_sampled_def latest_unsent_def pair_send_delay_def progress_default_def
      progress_interval_def pair_send_interval_def)

text \<open>How the crate classifies a media draft by its type.\<close>

record media_kinds =
  is_image :: "wa_media \<Rightarrow> bool"
  is_audio :: "wa_media \<Rightarrow> bool"
  is_video :: "wa_media \<Rightarrow> bool"
  is_sticker :: "wa_media \<Rightarrow> bool"

definition media_sample_ok :: "media_kinds \<Rightarrow> rstr \<times> draft \<Rightarrow> bool" where
  "media_sample_ok kinds sample =
     (case sample of (sample_label, d) \<Rightarrow>
      case draft_start d of
        MediaDraft m \<Rightarrow>
          if sample_label = ''image'' then is_image kinds m
          else if sample_label = ''MP3 audio'' \<or> sample_label = ''OGG/Opus audio'' then is_audio kinds m
          else if sample_label = ''MP4 video'' then is_video kinds m
          else if sample_label = ''WebP sticker'' then is_sticker kinds m
          else False
      | _ \<Rightarrow> False)"

definition embedded_media_builds_five_outbound_drafts :: "(rstr \<Rightarrow> (rstr, rstr) result) \<Rightarrow> media_kinds \<Rightarrow> bool" where
  "embedded_media_builds_five_outbound_drafts parse_mime kinds \<longleftrightarrow>
     (case embedded_media_drafts parse_mime of
        Inl _ \<Rightarrow> False
      | Inr samples \<Rightarrow>
          map fst samples = [''image'', ''MP3 audio'', ''OGG/Opus audio'', ''MP4 video'', ''WebP sticker''] \<and>
          list_all (media_sample_ok kinds) samples)"

text \<open>The MIME types of the resources are accepted, and WebP is the type of stickers.\<close>

definition mime_law :: "(rstr \<Rightarrow> (rstr, rstr) result) \<Rightarrow> media_kinds \<Rightarrow> bool" where
  "mime_law parse_mime kinds \<longleftrightarrow>
     (\<forall>t\<in>{''image/png'', ''audio/mpeg'', ''audio/ogg'', ''video/mp4'', ''image/webp''}. parse_mime t = Inr t) \<and>
     (\<forall>m. (wm_mime m = ''image/png'' \<longrightarrow> is_image kinds m) \<and>
        (wm_mime m = ''audio/mpeg'' \<or> wm_mime m = ''audio/ogg'' \<longrightarrow> is_audio kinds m) \<and>
        (wm_mime m = ''video/mp4'' \<longrightarrow> is_video kinds m) \<and> (wm_mime m = ''image/webp'' \<longrightarrow> is_sticker kinds m))"

lemma media_test_passes:
  assumes "mime_law parse_mime kinds"
  shows "embedded_media_builds_five_outbound_drafts parse_mime kinds"
  using assms
  by (simp add: mime_law_def embedded_media_builds_five_outbound_drafts_def embedded_media_drafts_def
      embedded_media_draft_def media_sample_ok_def demo_image_def demo_audio_def demo_voice_def demo_video_def
      demo_sticker_def)

section \<open>Templates and their clicks\<close>

text \<open>\<open>Value::pointer\<close>, its text already split.\<close>

datatype pointer_token = Key rstr | Index nat

fun pointer :: "pointer_token list \<Rightarrow> json \<Rightarrow> json option" where
  "pointer [] v = Some v"
| "pointer (Key k # ts) v = Option.bind (get_field k v) (pointer ts)"
| "pointer (Index i # ts) v =
     (case v of JArray vs \<Rightarrow> if i < length vs then pointer ts (vs ! i) else None | _ \<Rightarrow> None)"

definition text_at :: "pointer_token list \<Rightarrow> json \<Rightarrow> rstr option" where
  "text_at path v = Option.bind (pointer path v) as_str"

definition approved_template_payload_binds_each_static_button_to_a_demo_action :: bool where
  "approved_template_payload_binds_each_static_button_to_a_demo_action \<longleftrightarrow>
     (let out = \<lparr>out_phone_number_id = ''sender-id'', out_recipient = ''+15551234567''\<rparr>;
          template = \<lparr>tpl_name = ''ogrerobot_features'', tpl_language = ''pt_BR''\<rparr>;
          payload = template_demo_payload out template;
          button = (\<lambda>i. [Key ''template'', Key ''components'', Index i, Key ''parameters'', Index 0, Key ''payload''])
      in text_at [Key ''template'', Key ''name''] payload = Some ''ogrerobot_features'' \<and>
         text_at [Key ''template'', Key ''language'', Key ''code''] payload = Some ''pt_BR'' \<and>
         text_at (button 0) payload = Some ''demo:list'' \<and>
         text_at (button 1) payload = Some ''demo:location'' \<and>
         text_at (button 2) payload = Some ''demo:inspect'')"

text \<open>The value of a body literal; the fields of an object are in the order of their names.\<close>

definition around :: "json \<Rightarrow> json" where
  "around value =
     JObject [(''entry'', JArray [JObject [(''changes'', JArray [JObject [(''value'', value)]])]]),
       (''object'', JString ''whatsapp_business_account'')]"

definition template_click :: json where
  "template_click =
     around (JObject [(''messages'', JArray [JObject
       [(''button'', JObject [(''payload'', JString ''demo:list''), (''text'', JString ''List'')]),
        (''from'', JString ''15551234567''),
        (''id'', JString ''wamid.template-button''),
        (''timestamp'', JString ''17893000''),
        (''type'', JString ''button'')]])])"

definition template_quick_reply_is_adapted_to_the_crates_interactive_shape :: "json_ops \<Rightarrow> rstr \<Rightarrow> bool" where
  "template_quick_reply_is_adapted_to_the_crates_interactive_shape js body \<longleftrightarrow>
     (case normalize_template_quick_reply_callbacks js body of
        Inr (Some normalized) \<Rightarrow>
          (case from_slice js normalized of
             Inl _ \<Rightarrow> False
           | Inr v \<Rightarrow>
               (case pointer [Key ''entry'', Index 0, Key ''changes'', Index 0, Key ''value'', Key ''messages'', Index 0] v of
                  None \<Rightarrow> False
                | Some message \<Rightarrow>
                    text_at [Key ''type''] message = Some ''interactive'' \<and>
                    text_at [Key ''interactive'', Key ''type''] message = Some ''button_reply'' \<and>
                    text_at [Key ''interactive'', Key ''button_reply'', Key ''id''] message = Some ''demo:list'' \<and>
                    text_at [Key ''interactive'', Key ''button_reply'', Key ''title''] message = Some ''List'' \<and>
                    get_field ''button'' message = None))
      | _ \<Rightarrow> False)"

definition text_message :: json where
  "text_message =
     JObject [(''entry'', JArray [JObject [(''changes'', JArray [JObject [(''value'', JObject [(''messages'', JArray
       [JObject [(''text'', JObject [(''body'', JString ''hi'')]), (''type'', JString ''text'')]])])]])]])]"

definition unrelated_message_payload_is_not_rewritten :: "json_ops \<Rightarrow> rstr \<Rightarrow> bool" where
  "unrelated_message_payload_is_not_rewritten js body \<longleftrightarrow> normalize_template_quick_reply_callbacks js body = Inr None"

text \<open>\<open>body\<close> is the text of the literal. A value without numbers whose names are in order is read back
  as it was written.\<close>

fun plain :: "json \<Rightarrow> bool" where
  "plain JNull = True"
| "plain (JBool _) = True"
| "plain (JNumber _) = False"
| "plain (JString _) = True"
| "plain (JArray vs) = list_all plain vs"
| "plain (JObject fs) = (sorted_wrt name_less (map fst fs) \<and> list_all (\<lambda>(_, v). plain v) fs)"

definition json_law :: "json_ops \<Rightarrow> bool" where
  "json_law js \<longleftrightarrow> (\<forall>v. plain v \<longrightarrow> (case to_vec js v of Inl _ \<Rightarrow> False | Inr b \<Rightarrow> from_slice js b = Inr v))"

lemma json_tests_pass:
  approved_template_payload_binds_each_static_button_to_a_demo_action
  "json_law js \<Longrightarrow> from_slice js body = Inr template_click \<Longrightarrow>
     template_quick_reply_is_adapted_to_the_crates_interactive_shape js body"
  "from_slice js body = Inr text_message \<Longrightarrow> unrelated_message_payload_is_not_rewritten js body"
proof -
  show approved_template_payload_binds_each_static_button_to_a_demo_action by code_simp
  show "unrelated_message_payload_is_not_rewritten js body" if "from_slice js body = Inr text_message"
  proof -
    have "normalize_envelope text_message = Inr (False, text_message)" by code_simp
    with that show ?thesis
      by (simp add: unrelated_message_payload_is_not_rewritten_def normalize_template_quick_reply_callbacks_def)
  qed
  show "template_quick_reply_is_adapted_to_the_crates_interactive_shape js body"
    if "json_law js" "from_slice js body = Inr template_click"
  proof -
    define adapted where "adapted = around (JObject [(''messages'', JArray [JObject
       [(''from'', JString ''15551234567''),
        (''id'', JString ''wamid.template-button''),
        (''interactive'', button_reply ''demo:list'' ''List''),
        (''timestamp'', JString ''17893000''),
        (''type'', JString ''interactive'')]])])"
    have "normalize_envelope template_click = Inr (True, adapted)" unfolding adapted_def by code_simp
    moreover have "plain adapted" unfolding adapted_def by code_simp
    with that(1) obtain b where "to_vec js adapted = Inr b" "from_slice js b = Inr adapted"
      by (cases "to_vec js adapted") (auto simp: json_law_def split: sum.splits)
    ultimately show ?thesis using that(2)
      by (simp add: template_quick_reply_is_adapted_to_the_crates_interactive_shape_def
          normalize_template_quick_reply_callbacks_def adapted_def around_def button_reply_def text_at_def)
  qed
qed

section \<open>The webhook\<close>

definition webhook_challenge_accepts_only_the_configured_token :: bool where
  "webhook_challenge_accepts_only_the_configured_token \<longleftrightarrow>
     verify_webhook_challenge ''expected''
       \<lparr>hub_mode = Some ''subscribe'', hub_verify_token = Some ''expected'', hub_challenge = Some ''challenge''\<rparr> =
       respond 200 ''challenge'' \<and>
     (let rejected = verify_webhook_challenge ''expected''
        \<lparr>hub_mode = Some ''subscribe'', hub_verify_token = Some ''wrong'', hub_challenge = Some ''challenge''\<rparr>
      in rs_status rejected = 403 \<and> \<not> contains (rs_body rejected) ''expected'')"

text \<open>\<open>hmac\<close> computes the tag and \<open>hex_encode\<close> its text, as the test does.\<close>

definition test_signature :: "(rstr \<Rightarrow> rstr \<Rightarrow> rstr) \<Rightarrow> (rstr \<Rightarrow> rstr) \<Rightarrow> rstr \<Rightarrow> rstr \<Rightarrow> rstr" where
  "test_signature hmac hex_encode secret body = ''sha256='' @ hex_encode (hmac secret body)"

definition meta_signature_verification_accepts_matching_body_only ::
  "mac_ops \<Rightarrow> (rstr \<Rightarrow> rstr \<Rightarrow> rstr) \<Rightarrow> (rstr \<Rightarrow> rstr) \<Rightarrow> rstr \<Rightarrow> bool" where
  "meta_signature_verification_accepts_matching_body_only ops hmac hex_encode body \<longleftrightarrow>
     (let secret = ''app-secret'';
          headers = [(''x-hub-signature-256'', test_signature hmac hex_encode secret body)]
      in verify_meta_signature ops secret headers body = Inr () \<and>
         isl (verify_meta_signature ops secret headers ''different body''))"

text \<open>Keys of any length are accepted, the header is ASCII, and hexadecimal is read back.\<close>

definition mac_law :: "mac_ops \<Rightarrow> (rstr \<Rightarrow> rstr \<Rightarrow> rstr) \<Rightarrow> (rstr \<Rightarrow> rstr) \<Rightarrow> bool" where
  "mac_law ops hmac hex_encode \<longleftrightarrow>
     hmac_law ops hmac \<and> (\<forall>k. mac_new ops k) \<and>
     (\<forall>t. hex_decode ops (hex_encode t) = Some t \<and> hdr_str ops (''sha256='' @ hex_encode t) = Some (''sha256='' @ hex_encode t))"

lemma test_signature_ok:
  "mac_law ops hmac hex_encode \<Longrightarrow>
     verify_meta_signature ops secret [(''x-hub-signature-256'', test_signature hmac hex_encode secret body)] body' =
       (if hmac secret body = hmac secret body' then Inr () else Inl ''signature does not match the request body'')"
  by (simp add: mac_law_def hmac_law_def verify_meta_signature_def signature_header_def test_signature_def strip_pre_def)

lemma challenge_test_passes: webhook_challenge_accepts_only_the_configured_token
  by code_simp

text \<open>The tags of the two bodies differ: the one fact about HMAC-SHA256 itself that the test needs.\<close>

lemma signature_test_passes:
  assumes "mac_law ops hmac hex_encode" "hmac ''app-secret'' body \<noteq> hmac ''app-secret'' ''different body''"
  shows "meta_signature_verification_accepts_matching_body_only ops hmac hex_encode body"
  using assms
  by (simp add: meta_signature_verification_accepts_matching_body_only_def Let_def test_signature_ok)

text \<open>What serde makes of the three status bodies.\<close>

definition one_status :: "status_update list option \<Rightarrow> json option \<Rightarrow> status_envelope" where
  "one_status statuses messages =
     \<lparr>env_object = ''whatsapp_business_account'',
      env_entry = [\<lparr>se_changes = [\<lparr>sc_value = \<lparr>sv_statuses = statuses, sv_messages = messages\<rparr>\<rparr>]\<rparr>]\<rparr>"

definition failed_status :: status_envelope where
  "failed_status =
     one_status (Some [\<lparr>su_id = ''wamid.status'', su_status = ''failed'', su_callback = None,
       su_errors = [\<lparr>se_code = Some 131009, se_title = Some ''Parameter value is not valid'', se_message = None\<rparr>]\<rparr>]) None"

definition delivered_status :: status_envelope where
  "delivered_status =
     one_status (Some [\<lparr>su_id = ''wamid.status'', su_status = ''delivered'', su_callback = None, su_errors = []\<rparr>]) None"

definition message_only :: status_envelope where
  "message_only = one_status None (Some (JArray [JObject [(''id'', JString ''wamid.message'')]]))"

definition status_only_payload_does_not_require_message_context_fields ::
  "(rstr \<Rightarrow> (rstr, status_envelope) result) \<Rightarrow> rstr \<Rightarrow> bool" where
  "status_only_payload_does_not_require_message_context_fields envelope_of body \<longleftrightarrow>
     (case status_updates_if_only envelope_of body of
        None \<Rightarrow> False
      | Some updates \<Rightarrow>
          length updates = 1 \<and> su_id (updates ! 0) = ''wamid.status'' \<and> su_status (updates ! 0) = ''failed'' \<and>
          (case su_errors (updates ! 0) of [] \<Rightarrow> False | e # _ \<Rightarrow> se_code e = Some 131009))"

definition message_payload_is_left_for_the_sdk_parser ::
  "(rstr \<Rightarrow> (rstr, status_envelope) result) \<Rightarrow> rstr \<Rightarrow> bool" where
  "message_payload_is_left_for_the_sdk_parser envelope_of body \<longleftrightarrow> status_updates_if_only envelope_of body = None"

text \<open>The service of the test is built on a client that is never used: any service will do.\<close>

definition signed_status_callback_returns_ok_without_sdk_status_parser ::
  "webhook_crates \<Rightarrow> (rstr \<Rightarrow> rstr \<Rightarrow> rstr) \<Rightarrow> (rstr \<Rightarrow> rstr) \<Rightarrow> 's service \<Rightarrow> rstr \<Rightarrow> 's \<Rightarrow> bool" where
  "signed_status_callback_returns_ok_without_sdk_status_parser crates hmac hex_encode serve body s \<longleftrightarrow>
     (let secret = ''app-secret'';
          request = \<lparr>rq_method = ''POST'', rq_path = ''/whatsapp'',
            rq_headers = [(''x-hub-signature-256'', test_signature hmac hex_encode secret body)], rq_body = Readable body\<rparr>
      in rs_status (fst (handle_signed_webhook crates secret serve request s)) = 200)"

lemma status_tests_pass:
  "envelope_of body = Inr failed_status \<Longrightarrow> status_only_payload_does_not_require_message_context_fields envelope_of body"
  "envelope_of body = Inr message_only \<Longrightarrow> message_payload_is_left_for_the_sdk_parser envelope_of body"
  by (simp_all add: status_only_payload_does_not_require_message_context_fields_def
      message_payload_is_left_for_the_sdk_parser_def status_updates_if_only_def failed_status_def message_only_def one_status_def)

lemma signed_status_test_passes:
  assumes "mac_law (wc_mac crates) hmac hex_encode" "wc_envelope crates body = Inr delivered_status"
    and "length body \<le> max_webhook_body_bytes"
  shows "signed_status_callback_returns_ok_without_sdk_status_parser crates hmac hex_encode serve body s"
  using assms test_signature_ok [OF assms(1), of "''app-secret''" body body]
  by (simp add: signed_status_callback_returns_ok_without_sdk_status_parser_def Let_def handle_signed_webhook_def
      to_bytes_def status_updates_if_only_def delivered_status_def one_status_def respond_def)

end
