(* ===== verification/BroadcastTests.thy ===== *)
theory BroadcastTests
  imports BroadcastBuilder
begin

text \<open>
  The unit tests of the broadcast builder, the module \<open>tests\<close> of \<open>src/examples/broadcast_builder.rs\<close>, run on the
  model: each test is a predicate with its inputs and assertions, and a lemma that it passes. Serde's reading of the
  analysis and ammonia's cleaning are what the tests themselves examine of those crates: they are arguments.
\<close>

definition model_parser_accepts_full_and_short_names :: bool where
  "model_parser_accepts_full_and_short_names \<longleftrightarrow>
     parse_model ''gemini-3.5-flash'' = Inr Gemini35Flash \<and> parse_model ''3.1-flash-lite'' = Inr Gemini31FlashLite"

lemma model_parser_test_passes: model_parser_accepts_full_and_short_names
  by code_simp

definition neutral_market_value :: json where
  "neutral_market_value =
     JObject
       [(''market_analysis'', JObject
          [(''derivatives_market'', JObject [(''liquidity'', JNumber ''0.7''), (''risk'', JNumber ''0.6'')]),
           (''overall_rating'', JString ''neutral_expectations''),
           (''spot_market'', JObject [(''liquidity'', JNumber ''0.5''), (''risk'', JNumber ''0.5'')])]),
        (''summary_html'', JString ''<p><b>Mercado neutro.</b></p>'')]"

definition typed_output_deserializes_and_validates ::
  "html_cleaner \<Rightarrow> (json \<Rightarrow> (rstr, report_analysis) result) \<Rightarrow> bool" where
  "typed_output_deserializes_and_validates clean from_value \<longleftrightarrow>
     (case from_value neutral_market_value of
        Inl _ \<Rightarrow> False
      | Inr result \<Rightarrow> validate clean result = Inr () \<and> overall_rating (analysis result) = NeutralExpectations)"

text \<open>What serde makes of the value: the numbers are the nearest doubles.\<close>

definition neutral_market :: report_analysis where
  "neutral_market =
     \<lparr>summary_html = ''<p><b>Mercado neutro.</b></p>'',
      analysis = \<lparr>overall_rating = NeutralExpectations,
        derivatives_market = \<lparr>liquidity = to_f64 (7 / 10), risk = to_f64 (6 / 10)\<rparr>,
        spot_market = \<lparr>liquidity = to_f64 (1 / 2), risk = to_f64 (1 / 2)\<rparr>\<rparr>\<rparr>"

definition validation_rejects_out_of_range_score :: "html_cleaner \<Rightarrow> bool" where
  "validation_rejects_out_of_range_score clean \<longleftrightarrow>
     isl (validate clean
       \<lparr>summary_html = ''<p>Test</p>'',
        analysis = \<lparr>overall_rating = NeutralExpectations,
          derivatives_market = \<lparr>liquidity = to_f64 (11 / 10), risk = to_f64 (1 / 2)\<rparr>,
          spot_market = \<lparr>liquidity = to_f64 (1 / 2), risk = to_f64 (1 / 2)\<rparr>\<rparr>\<rparr>)"

definition html_sanitizer_removes_attributes_and_mismatched_tags :: "html_cleaner \<Rightarrow> bool" where
  "html_sanitizer_removes_attributes_and_mismatched_tags clean \<longleftrightarrow>
     sanitize_html_fragment clean (''<p class='' @ [CHR 0x22] @ ''x'' @ [CHR 0x22] @ ''>text</p>'') = Inr ''<p>text</p>'' \<and>
     sanitize_html_fragment clean ''<p><b>text</p></b>'' = Inr ''<p><b>text</b></p>'' \<and>
     sanitize_html_fragment clean ''<p><script>x</script></p>'' = Inr ''<p></p>''"

text \<open>A part with the opening of an object, and one with its end.\<close>

definition opening_part :: rstr where
  "opening_part = ''{'' @ [CHR 0x22] @ ''summary_html'' @ [CHR 0x22, CHR 0x3A, CHR 0x22]"

definition closing_part :: rstr where
  "closing_part = ''<p>x</p>'' @ [CHR 0x22] @ ''}''"

definition parts_envelope :: json where
  "parts_envelope =
     JObject [(''candidates'', JArray [JObject
       [(''content'', JObject [(''parts'', JArray
          [JObject [(''text'', JString ''internal''), (''thought'', JBool True)],
           JObject [(''text'', JString opening_part)],
           JObject [(''text'', JString closing_part)]])]),
        (''finishReason'', JString ''STOP'')]])]"

definition parser_ignores_thought_parts_and_concatenates_text_parts :: "(json \<Rightarrow> rstr) \<Rightarrow> bool" where
  "parser_ignores_thought_parts_and_concatenates_text_parts show_json \<longleftrightarrow>
     extract_generated_text show_json parts_envelope = Inr (opening_part @ closing_part)"

lemma broadcast_parser_test_passes: "parser_ignores_thought_parts_and_concatenates_text_parts show_json"
proof -
  have "candidate_text (JObject
       [(''content'', JObject [(''parts'', JArray
          [JObject [(''text'', JString ''internal''), (''thought'', JBool True)],
           JObject [(''text'', JString opening_part)],
           JObject [(''text'', JString closing_part)]])]),
        (''finishReason'', JString ''STOP'')]) = opening_part @ closing_part" by code_simp
  moreover have "\<not> is_blank (opening_part @ closing_part)" by code_simp
  ultimately show ?thesis
    by (simp add: parser_ignores_thought_parts_and_concatenates_text_parts_def parts_envelope_def extract_generated_text_def)
qed

definition is_score :: "f64 \<Rightarrow> bool" where
  "is_score v \<longleftrightarrow> f_finite v \<and> f_le (Fin 0) v \<and> f_le v (Fin 1)"

lemma is_score_rounded: "0 \<le> x \<Longrightarrow> x \<le> 1 \<Longrightarrow> is_score (to_f64 x)"
  using to_f64_le [of x 1] rnd_dyadic [of 0 0 x 1] by (simp add: is_score_def)

lemma not_score_rounded: "17 / 16 \<le> x \<Longrightarrow> x \<le> 2 \<Longrightarrow> \<not> is_score (to_f64 x)"
  using to_f64_le [of x 2] rnd_dyadic [of 17 4 x 32] by (simp add: is_score_def)

lemma validate_segment_scores:
  "is_score a \<Longrightarrow> is_score b \<Longrightarrow> validate_segment name \<lparr>liquidity = a, risk = b\<rparr> = Inr ()"
  "\<not> is_score a \<Longrightarrow> validate_segment name \<lparr>liquidity = a, risk = b\<rparr> = Inl (InvalidScore name ''liquidity'' a)"
  by (auto simp: is_score_def validate_segment_def validate_score_def)

lemma validate_short:
  assumes "\<not> contains html (replicate 3 (CHR 0x60))" "chars_count html \<le> 4096"
  shows "validate clean \<lparr>summary_html = html, analysis = m\<rparr> =
    bind_res (validate_segment ''derivatives_market'' (derivatives_market m)) (\<lambda>_.
      validate_segment ''spot_market'' (spot_market m))"
  using assms by (simp add: validate_def sanitize_html_fragment_def Let_def max_summary_characters_def)

text \<open>Validation looks at the cleaned summary only to see whether there is one, so any cleaner will do.\<close>

lemma validation_tests_pass:
  "from_value neutral_market_value = Inr neutral_market \<Longrightarrow> typed_output_deserializes_and_validates clean from_value"
  "validation_rejects_out_of_range_score clean"
proof -
  have scores: "is_score (to_f64 (7 / 10))" "is_score (to_f64 (6 / 10))" "is_score (to_f64 (1 / 2))"
    "\<not> is_score (to_f64 (11 / 10))"
    using not_score_rounded [of "11 / 10"] by (simp_all add: is_score_rounded)
  have html: "\<not> contains ''<p><b>Mercado neutro.</b></p>'' (replicate 3 (CHR 0x60))"
    "\<not> contains ''<p>Test</p>'' (replicate 3 (CHR 0x60))" by code_simp+
  have len: "chars_count ''<p><b>Mercado neutro.</b></p>'' = 29" "chars_count ''<p>Test</p>'' = 11" by code_simp+
  have "validate clean neutral_market = Inr ()"
    unfolding neutral_market_def by (subst validate_short) (simp_all only: html len validate_segment_scores scores
      market_analysis.simps bind_res_simps, simp_all)
  then show "from_value neutral_market_value = Inr neutral_market \<Longrightarrow> typed_output_deserializes_and_validates clean from_value"
    by (simp add: typed_output_deserializes_and_validates_def) (simp add: neutral_market_def)
  show "validation_rejects_out_of_range_score clean"
    unfolding validation_rejects_out_of_range_score_def by (subst validate_short) (simp_all only: html len validate_segment_scores scores
      market_analysis.simps bind_res_simps simp_thms, simp_all)
qed

text \<open>The test of the sanitizer is one of the cleaner: it passes exactly if the cleaner keeps the eight tags,
  drops attributes and scripts, and closes what is open.\<close>

lemma sanitizer_test_is_about_the_cleaner:
  "html_sanitizer_removes_attributes_and_mismatched_tags clean \<longleftrightarrow>
     clean sanitized_tags (''<p class='' @ [CHR 0x22] @ ''x'' @ [CHR 0x22] @ ''>text</p>'') = ''<p>text</p>'' \<and>
     clean sanitized_tags ''<p><b>text</p></b>'' = ''<p><b>text</b></p>'' \<and>
     clean sanitized_tags ''<p><script>x</script></p>'' = ''<p></p>''"
proof -
  have "list_all (\<lambda>s. \<not> contains s (replicate 3 (CHR 0x60)))
    [''<p class='' @ [CHR 0x22] @ ''x'' @ [CHR 0x22] @ ''>text</p>'', ''<p><b>text</p></b>'', ''<p><script>x</script></p>'']"
    by code_simp
  then show ?thesis
    by (simp add: html_sanitizer_removes_attributes_and_mismatched_tags_def sanitize_html_fragment_def)
qed

end
