(* ===== verification/LibraryTests.thy ===== *)
theory LibraryTests
  imports RouterGuarantees TelegramGateway Demoscene Config Repository
begin

text \<open>
  Unit tests of the library and of the bot, run on the model: those of \<open>messaging.rs\<close>, \<open>user_router.rs\<close>,
  \<open>telegram_gateway.rs\<close>, \<open>telegram_demoscene.rs\<close>, \<open>telegram_models.rs\<close> and \<open>cli.rs\<close>. Each test is a predicate with
  the test's inputs and assertions (a panic is \<open>False\<close>), and a lemma that it passes. A test that lets the
  router's tasks run is a schedule of them.
\<close>

section \<open>Parties\<close>

definition party_initialization :: bool where
  "party_initialization \<longleftrightarrow>
     (let party = with_name ''Luiz Silveira'' (with_address ''dom'' (party_new 1 ())) in
      address party = Some ''dom'' \<and> party_name party = Some ''Luiz Silveira'')"

lemma party_test_passes: party_initialization
  by code_simp

section \<open>The command line\<close>

definition merge_dialog_processor :: bool where
  "merge_dialog_processor \<longleftrightarrow>
     (case merge_with_config
        (no_options\<lparr>dialog_idle_timeout_secs := Some 7, per_user_mo_throttle_interval_secs := Some 6,
           shutdown_grace_period_secs := Some 8\<rparr>) const_default of
        Inl _ \<Rightarrow> False
      | Inr config \<Rightarrow>
          dialog_processor_idle_timeout (dialog_processor config) = from_secs 7 \<and>
          per_user_mo_throttle_interval (dialog_processor config) = from_secs 6 \<and>
          shutdown_grace_period (dialog_processor config) = from_secs 8)"

definition merge_telegram_webhook_options :: bool where
  "merge_telegram_webhook_options \<longleftrightarrow>
     (case merge_with_config
        (no_options\<lparr>telegram_webhook_url := Some ''https://1.2.3.4:8443/'', telegram_webhook_secret := Some ''my own secret'',
           telegram_webhook_certificate_file := Some ''certs/public.pem'',
           telegram_webhook_private_key_file := Some ''certs/private.key''\<rparr>) const_default of
        Inl _ \<Rightarrow> False
      | Inr config \<Rightarrow>
          (case integration_mode (telegram config) of
             Polling \<Rightarrow> False
           | WebHook url secret cert key \<Rightarrow>
               url = ''https://1.2.3.4:8443/'' \<and> secret = ''my own secret'' \<and> cert = ''certs/public.pem'' \<and>
               key = ''certs/private.key''))"

definition merging_preserves_webhook_mode :: bool where
  "merging_preserves_webhook_mode \<longleftrightarrow>
     (let config_from_file = const_default\<lparr>telegram :=
        \<lparr>teloxide_token = ''my-secret-token'',
         integration_mode = WebHook ''my-url'' ''really-a-secret'' ''/a/b/c'' ''/a/b/c/d''\<rparr>\<rparr>
      in case merge_with_config no_options config_from_file of
           Inl _ \<Rightarrow> False
         | Inr config \<Rightarrow> (case integration_mode (telegram config) of WebHook _ _ _ _ \<Rightarrow> True | Polling \<Rightarrow> False))"

lemma is_blank_nonspace: "\<not> is_blank ''https://1.2.3.4:8443/''" "\<not> is_blank ''my own secret''"
  "\<not> is_blank ''certs/public.pem''" "\<not> is_blank ''certs/private.key''"
  by code_simp+

lemma cli_tests_pass: merge_dialog_processor merge_telegram_webhook_options merging_preserves_webhook_mode
  by (simp_all add: merge_dialog_processor_def merge_telegram_webhook_options_def merging_preserves_webhook_mode_def
      merge_with_config_def merge_scalars_def merge_webhook_def no_options_def const_default_def is_blank_nonspace)

section \<open>Webhook addresses\<close>

text \<open>\<open>ops\<close> parses URLs; the premises of the lemma say what it makes of the four texts.\<close>

definition webhook_port :: "'u url_ops \<Rightarrow> rstr \<Rightarrow> nat option" where
  "webhook_port ops s =
     (case bind_res (parse_webhook_url ops s) (webhook_bind_addr ops) of Inl _ \<Rightarrow> None | Inr (_, port) \<Rightarrow> Some port)"

definition webhook_bind_addr_uses_explicit_url_port :: "'u url_ops \<Rightarrow> bool" where
  "webhook_bind_addr_uses_explicit_url_port ops \<longleftrightarrow> webhook_port ops ''https://bot.example.com:8443/webhook'' = Some 8443"

definition webhook_bind_addr_uses_https_default_port :: "'u url_ops \<Rightarrow> bool" where
  "webhook_bind_addr_uses_https_default_port ops \<longleftrightarrow> webhook_port ops ''https://bot.example.com/webhook'' = Some 443"

text \<open>The errors of the model stand for the two messages the tests look for.\<close>

definition webhook_url_rejects_unsupported_port :: "'u url_ops \<Rightarrow> bool" where
  "webhook_url_rejects_unsupported_port ops \<longleftrightarrow>
     (case parse_webhook_url ops ''https://bot.example.com:3000/webhook'' of Inl (UrlPortUnsupported _) \<Rightarrow> True | _ \<Rightarrow> False)"

definition webhook_url_rejects_plain_http :: "'u url_ops \<Rightarrow> bool" where
  "webhook_url_rejects_plain_http ops \<longleftrightarrow>
     (case parse_webhook_url ops ''http://bot.example.com:8443/webhook'' of Inl UrlNotHttps \<Rightarrow> True | _ \<Rightarrow> False)"

lemma is_blank_urls: "\<not> is_blank ''https://bot.example.com:8443/webhook''" "\<not> is_blank ''https://bot.example.com/webhook''"
  "\<not> is_blank ''https://bot.example.com:3000/webhook''" "\<not> is_blank ''http://bot.example.com:8443/webhook''"
  by code_simp+

definition parses_to :: "'u url_ops \<Rightarrow> rstr \<Rightarrow> rstr \<Rightarrow> nat \<Rightarrow> bool" where
  "parses_to ops s scheme port \<longleftrightarrow>
     (case url_parse ops s of Inl _ \<Rightarrow> False | Inr u \<Rightarrow> url_scheme ops u = scheme \<and> url_port ops u = Some port)"

lemma webhook_tests_pass:
  "parses_to ops ''https://bot.example.com:8443/webhook'' ''https'' 8443 \<Longrightarrow> webhook_bind_addr_uses_explicit_url_port ops"
  "parses_to ops ''https://bot.example.com/webhook'' ''https'' 443 \<Longrightarrow> webhook_bind_addr_uses_https_default_port ops"
  "parses_to ops ''https://bot.example.com:3000/webhook'' ''https'' 3000 \<Longrightarrow> webhook_url_rejects_unsupported_port ops"
  "parses_to ops ''http://bot.example.com:8443/webhook'' ''http'' 8443 \<Longrightarrow> webhook_url_rejects_plain_http ops"
  by (auto simp: parses_to_def webhook_bind_addr_uses_explicit_url_port_def webhook_bind_addr_uses_https_default_port_def
      webhook_url_rejects_unsupported_port_def webhook_url_rejects_plain_http_def webhook_port_def parse_webhook_url_def
      webhook_bind_addr_def is_blank_urls split: sum.splits)

section \<open>The menu and the stored models\<close>

definition additional_media_has_text_and_menu_commands :: "(rstr \<Rightarrow> rstr \<Rightarrow> cmd option) \<Rightarrow> bool" where
  "additional_media_has_text_and_menu_commands parse_cmd \<longleftrightarrow>
     parse_cmd ''/additionalmedia'' ''telegram_demoscene'' = Some AdditionalMedia \<and>
     list_ex (\<lambda>b. case b of Callback text d \<Rightarrow> contains text ''Additional Media'' \<and> d = cb_additional_media)
       (concat main_menu)"

lemma menu_test_passes:
  assumes "parse_cmd ''/additionalmedia'' ''telegram_demoscene'' = Some AdditionalMedia"
  shows "additional_media_has_text_and_menu_commands parse_cmd"
proof -
  have "list_ex (\<lambda>b. case b of Callback text d \<Rightarrow> contains text ''Additional Media'' \<and> d = cb_additional_media)
       (concat main_menu)" by code_simp
  with assms show ?thesis by (simp add: additional_media_has_text_and_menu_commands_def)
qed

text \<open>The counters of the test's helpers are the arguments \<open>next_user\<close> and \<open>next_chat\<close>.\<close>

definition new_telegram_user :: "u64 \<Rightarrow> rstr \<Rightarrow> rstr \<Rightarrow> rstr \<Rightarrow> rstr \<Rightarrow> user \<times> stored_telegram_user" where
  "new_telegram_user next_user user_name given family code1 =
     (TelegramUserId next_user,
      \<lparr>st_user_id = next_user, st_user_name = user_name, st_first_name = given, st_last_name = family,
       st_language_code = code1, st_is_bot = False\<rparr>)"

definition new_private_chat :: "u64 \<Rightarrow> user \<Rightarrow> telegram_user_chat" where
  "new_private_chat next_chat u = PrivateUserChat next_chat (user_id u)"

definition new_mo_message :: "telegram_user_chat \<Rightarrow> rstr \<Rightarrow> telegram_message" where
  "new_mo_message chat plain_text = MobileOriginated (chat_chat_id chat) (PlainText plain_text)"

definition new_mt_message :: "telegram_user_chat \<Rightarrow> rstr \<Rightarrow> telegram_message" where
  "new_mt_message chat plain_text = MobileTerminated (chat_chat_id chat) (PlainText plain_text)"

text \<open>What the helpers build fits together: \<open>hello_world\<close> only checks that it can be built.\<close>

lemma stored_models_fit:
  assumes "new_telegram_user i a b c d = (u, stored)"
  shows "user_id u = st_user_id stored" "chat_user_id (new_private_chat j u) = i"
    "tm_chat_id (new_mo_message (new_private_chat j u) t) = j" "tm_chat_id (new_mt_message (new_private_chat j u) t) = j"
  using assms by (auto simp: new_telegram_user_def new_private_chat_def new_mo_message_def new_mt_message_def)

section \<open>The router\<close>

text \<open>The processor of the tests answers the i-th message with its number.\<close>

definition test_mo_processor :: "('p, 'm) mo list \<Rightarrow> rstr list" where
  "test_mo_processor mos = map (\<lambda>i. ''response #'' @ show_nat i @ '' was produced'') [0..<length mos]"

lemma causal_test_processor: "causal test_mo_processor"
  by (simp add: causal_def test_mo_processor_def upt_add_eq_append [of 0])

definition routing_on_first_user_message :: "('c, (unit, unit) mo) chan_ops \<Rightarrow> bool" where
  "routing_on_first_user_message ops \<longleftrightarrow>
     (let instance1 = router_new (ch_new ops);
          (first_routing, instance2) = route_mo ops (test_mo 97 1) instance1;
          (second_routing, _) = route_mo ops (test_mo 97 1) instance2
      in first_routing \<noteq> None \<and> second_routing = None)"

lemma routing_test_passes: "routing_on_first_user_message ops"
proof -
  obtain d r where first: "route_mo ops (test_mo 97 1) (router_new (ch_new ops)) = (d, r)"
    by (cases "route_mo ops (test_mo 97 1) (router_new (ch_new ops))")
  have "fst (route_mo ops (test_mo 97 1) (router_new (ch_new ops))) \<noteq> None"
    using table.enter_opens [of ops "test_mo 97 1" "router_new (ch_new ops)"] by (simp add: route_of_def router_new_def)
  moreover have "97 \<in> dom (route_of r)"
    using table.enter_dom [of ops "test_mo 97 1" "router_new (ch_new ops)"] first by simp
  then have "fst (route_mo ops (test_mo 97 1) r) = None"
    using table.enter_opens [of ops "test_mo 97 1" r] by (simp add: dom_def)
  ultimately show ?thesis
    using first by (simp add: routing_on_first_user_message_def case_prod_beta)
qed

text \<open>
  The tests that start the router let its tasks run until something is observed. Here each is a
  schedule that ends in the observation: the state it leads to from the messages that were sent. \<open>list_chan\<close> are
  the channels.
\<close>

type_synonym test_system = "((unit, unit) mo list \<times> bool, rstr list \<times> bool, unit, unit, rstr) system"

definition run_test :: "(unit, unit) mo list \<Rightarrow> action list \<Rightarrow> test_system option" where
  "run_test mos schedule = perform_all list_chan list_chan test_mo_processor schedule (start_system list_chan list_chan mos)"

definition contains_user_dialog :: "test_system \<Rightarrow> bool" where
  "contains_user_dialog s \<longleftrightarrow> 97 \<in> set (map fst (per_user_mo_tx (sys_router s)))"

text \<open>One message from its arrival to the MT that is read.\<close>

definition one_answer :: "action list" where
  "one_answer = [Lookup, Send, Receive 0, Forward 0, ConsumeMt]"

definition single_user_concurrency :: "nat \<Rightarrow> bool" where
  "single_user_concurrency routed_messages_count \<longleftrightarrow>
     (case run_test (map (\<lambda>i. test_mo 97 (word_of_nat i)) [0..<routed_messages_count])
        (concat (replicate routed_messages_count one_answer) @ [ShutDown]) of
        None \<Rightarrow> False
      | Some s \<Rightarrow>
          map dt_forwarded (tasks s) = [map (\<lambda>i. ''response #'' @ show_nat i @ '' was produced'') [0..<routed_messages_count]] \<and>
          ch_recv list_chan (mt_chan s) = None \<and> ch_closed list_chan (mt_chan s))"

definition idle_dialog_timeout :: bool where
  "idle_dialog_timeout \<longleftrightarrow>
     (case run_test [test_mo 97 1] [Lookup, Send, Receive 0, Forward 0, Idle 0, CloseIdle 0, DropReceiver 0, Finish 0] of
        None \<Rightarrow> False
      | Some s \<Rightarrow> \<not> contains_user_dialog s)"

lemma idle_test_passes: idle_dialog_timeout
  by code_simp

text \<open>
  The state after the answers to \<open>mos\<close>, with \<open>rest\<close> still to come: the dialog of the first message
  serves all others.
\<close>

definition answered :: "(unit, unit) mo list \<Rightarrow> (unit, unit) mo list \<Rightarrow> test_system" where
  "answered mos rest =
     \<lparr>sys_router = \<lparr>per_user_mo_tx = [(97, 0)], chan_store = (\<lambda>_. ([], False)), next_chan = Suc 0\<rparr>,
      inbox = rest, in_flight = None,
      tasks = [\<lparr>dt_user = party_new 97 (), dt_tx = 0, dt_phase = Running, dt_received = mos, dt_sent = length mos,
        dt_forwarded = test_mo_processor mos\<rparr>],
      mt_chan = ([], False), routed = mos, lost = []\<rparr>"

lemma first_answered:
  "perform_all list_chan list_chan test_mo_processor one_answer (start_system list_chan list_chan (test_mo 97 i # rest)) =
     Some (answered [test_mo 97 i] rest)"
  by (simp add: one_answer_def start_system_def answered_def lookup_route_def send_mo_def router_new_def route_of_def
      after_send_def task_new_def task_at_def task_chan_def set_task_def forward_mt_def test_mo_processor_def
      list_chan_def mt_capacity_def fun_eq_iff) (simp add: test_mo_def)

lemma next_answered:
  "perform_all list_chan list_chan test_mo_processor one_answer (answered mos (test_mo 97 i # rest)) =
     Some (answered (mos @ [test_mo 97 i]) rest)"
  by (simp add: one_answer_def answered_def lookup_route_def send_mo_def route_of_def
      after_send_def task_at_def task_chan_def set_task_def forward_mt_def test_mo_processor_def
      list_chan_def mt_capacity_def fun_eq_iff nth_append)

lemma perform_all_append:
  "perform_all ops mops proc (as @ bs) s = Option.bind (perform_all ops mops proc as s) (perform_all ops mops proc bs)"
  by (induction as arbitrary: s) (auto split: option.splits)

lemma all_answered:
  "perform_all list_chan list_chan test_mo_processor (concat (replicate (length is) one_answer))
     (answered mos (map (test_mo 97) is)) = Some (answered (mos @ map (test_mo 97) is) [])"
  by (induction "is" arbitrary: mos) (simp_all add: perform_all_append next_answered)

lemma surge_answered:
  assumes "is \<noteq> []"
  shows "run_test (map (test_mo 97) is) (concat (replicate (length is) one_answer) @ [ShutDown]) =
    perform list_chan list_chan test_mo_processor ShutDown (answered (map (test_mo 97) is) [])"
proof -
  obtain i js where "is = i # js" using assms by (cases "is") simp_all
  then show ?thesis
    using all_answered [of js "[test_mo 97 i]"]
    by (simp add: run_test_def perform_all_append first_answered del: perform.simps split: option.split)
qed

text \<open>However many messages the user sends, 128 in the test: one task, the answers in order, and at
  the end of the messages the end of the answers.\<close>

lemma single_user_test_passes:
  assumes "0 < n"
  shows "single_user_concurrency n"
proof -
  have "run_test (map (\<lambda>i. test_mo 97 (word_of_nat i)) [0..<n]) (concat (replicate n one_answer) @ [ShutDown]) =
      perform list_chan list_chan test_mo_processor ShutDown (answered (map (\<lambda>i. test_mo 97 (word_of_nat i)) [0..<n]) [])"
    using surge_answered [of "map word_of_nat [0..<n]"] assms by (simp add: comp_def del: perform.simps)
  then show ?thesis
    by (simp add: single_user_concurrency_def answered_def test_mo_processor_def list_chan_def)
qed

end
