(* ===== verification/Spec2Isabelle.thy ===== *)
theory Spec2Isabelle
  imports RouterGuarantees PlotDemo Gates WhatsappEngines WhatsappServing WhatsappPermit BroadcastGuarantees
    SqliteWrapper Encodings GatewayLifecycle ChannelThreads DatabaseBench Timings Repository WhatsappConsole
    WhatsappTests BroadcastTests LibraryTests
begin

text \<open>
  \<^bold>\<open>A verification development for bot-starter-kit.\<close>

  The repository is a Rust starter kit for chat bots: a messaging layer that gives every user a dialog of
  their own, a gateway that connects it to Telegram, a demo bot with an animated chart and database
  benchmarks, wrappers for three embedded databases, and two larger examples (a WhatsApp bot and a
  builder of daily broadcasts). Paths below are relative to the repository.

  \<^bold>\<open>How the parts interact.\<close> Telegram's updates go through a bounded channel (\<open>TelegramGateway\<close>), are mapped
  to platform-neutral messages (\<open>Messaging\<close>) and routed to one dialog task per user (\<open>Router\<close>, \<open>RouterSystem\<close>);
  the dialogs' answers share one bounded channel and are sent four at a time. The demo bot (\<open>Demoscene\<close>) is
  such a dialog; its long jobs are the benchmarks (\<open>Benchmarks\<close>), which load the databases through the stream
  loaders (\<open>Ingest\<close>) under the transaction gates (\<open>Gates\<close>), and the chart (\<open>PlotDemo\<close>), which fetches quotes
  and finds their moves (\<open>Quotes\<close>), lays the chart out (\<open>Metrics\<close>, \<open>Layout\<close>) and draws it (\<open>Render\<close>) with the
  theme of \<open>ChartTheme\<close>. The binary reads its configuration as \<open>Config\<close> says.

  \<^bold>\<open>How the code is modelled.\<close> Functions are functions, records are records with the source's fields, enums are
  datatypes. A string is the list of its UTF-8 bytes, a \<open>Result\<close> is a sum with the error on the left, an
  asynchronous function with effects is a \<open>job\<close> (\<open>Jobs\<close>): a function from the state of the world to a result
  and the next state, where \<open>?\<close> is \<open>job_bind\<close>. \<open>f64\<close> is IEEE double arithmetic on rationals
  (\<open>Float64\<close>), \<open>i32\<close> wraps around, \<open>u64\<close> keys are words. Tasks that run concurrently are step relations over
  arbitrary interleavings. Third-party crates are records of functions, with what the code relies on as
  named laws (\<open>chan_laws\<close>, \<open>hmac_law\<close>, \<open>footer_law\<close>, ...); each law is met by a concrete instance in a witness.

  \<^bold>\<open>Theories and sources.\<close>
  \<^item> \<open>Prelude\<close>, \<open>Jobs\<close>, \<open>Float64\<close>: what the components share. \<open>Jobs\<close> has three calculi for jobs: \<open>keeps\<close>
    (invariants of the world), \<open>triple\<close> (what holds at the end, what an error says) and \<open>emits\<close> (an ordered
    output of which a failure leaves a prefix).
  \<^item> \<open>Messaging\<close>: \<open>src/src/messaging/contracts\<close>. \<open>Router\<close>: the routing table of
    \<open>src/src/messaging/user_router.rs\<close> and its channels; \<open>RouterSystem\<close>: its tasks as the relation \<open>step\<close>,
    with the invariant \<open>sys_inv\<close>; \<open>RouterGuarantees\<close>: isolation, order, conservation, the shut-down, and
    the two schedules on which the code does less than it means to.
  \<^item> \<open>TelegramGateway\<close>, \<open>GatewayLifecycle\<close>: \<open>src/src/messaging/gateways/telegram_gateway.rs\<close>; the first has its
    operations, the second its tasks together, from \<open>new\<close> to \<open>await_termination\<close>, as the relation \<open>gateway_step\<close>.
  \<^item> \<open>Config\<close>: \<open>src/src/models/config.rs\<close>, \<open>src/src/bin/models/cli.rs\<close>, \<open>src/src/bin/bot_starter_kit.rs\<close>.
  \<^item> \<open>Gates\<close>, \<open>Ingest\<close>, \<open>SqliteWrapper\<close>, \<open>Encodings\<close>: \<open>src/src/db\<close>. The gates of both wrappers are instances of
    one contract (locale \<open>gated_store\<close>) over an abstract reader-writer view; the three loaders implement one
    all-or-nothing contract (locale \<open>bulk_loader\<close> and its interpretations).
  \<^item> \<open>Benchmarks\<close>: the three \<open>benchmark.rs\<close> of \<open>src/src/db\<close>. \<open>Demoscene\<close>:
    \<open>src/src/logic/telegram_demoscene.rs\<close> and \<open>src/src/resources.rs\<close>.
  \<^item> \<open>Quotes\<close>: \<open>src/src/plot/data.rs\<close>, \<open>moves.rs\<close>. \<open>ChartTheme\<close>: \<open>config.rs\<close>. \<open>Metrics\<close>, \<open>Layout\<close>, \<open>Render\<close>:
    \<open>src/src/plot/render\<close>. \<open>LayoutBounds\<close>: what a layout guarantees. \<open>PlotDemo\<close>: \<open>src/src/plot/demo.rs\<close>.
    \<open>Timings\<close>: \<open>src/src/plot/timing.rs\<close>. \<open>Repository\<close>: the models and errors of \<open>src/src/repository\<close>.
  \<^item> \<open>WhatsappConfig\<close>, \<open>WhatsappDrafts\<close>, \<open>WhatsappDemo\<close>, \<open>WhatsappJson\<close>, \<open>WhatsappWebhook\<close>, \<open>WhatsappServer\<close>:
    \<open>src/examples/whatsapp_demoscene.rs\<close>, in the order configuration, messages, answers and benchmark
    progress, the adapter of template clicks, the signed webhook, and the modes of the program.
    \<open>WhatsappAnswers\<close>, \<open>WhatsappPacing\<close>, \<open>WhatsappPermit\<close>, \<open>WhatsappServing\<close> prove what these guarantee;
    \<open>WhatsappEngines\<close> runs the three benchmarks of \<open>Benchmarks\<close> under the reporter, \<open>WhatsappConsole\<close> has what
    the program prints.
  \<^item> \<open>BroadcastBuilder\<close>, \<open>BroadcastGuarantees\<close>: \<open>src/examples/broadcast_builder.rs\<close>.
  \<^item> \<open>ChannelBench\<close>, \<open>ChannelThreads\<close>: \<open>src/benches/channels.rs\<close>, within one thread and between two (as step
    relations). \<open>DatabaseBench\<close>: \<open>src/benches/databases.rs\<close>.
  \<^item> \<open>WhatsappTests\<close>, \<open>BroadcastTests\<close>, \<open>LibraryTests\<close>: the unit tests of the repository, run on the model.

  \<^bold>\<open>What the lemmas show.\<close> For the router: invariants by induction over \<open>step\<close>, from which isolation, order and
  conservation follow, and concrete schedules evaluated step by step. For the gateway: an invariant of all its
  tasks, from which a clean end follows, and a measure by which it winds down. For the benchmark reporter: what
  was given to it is overheard (\<open>overhear\<close>), and an invariant relates that list to the messages sent. Two threads that must come to
  an end whatever was done before share the argument of the locale \<open>homing\<close> (a distance to the goal that some step
  always lessens), interpreted on the three benches between threads. For the chart: bounds from
  \<open>rnd_mono\<close> and exact anchors, through the triples of \<open>Layout\<close>, up to \<open>demo_plays_to_the_end\<close>. For the webhook: a
  request that Meta did not sign cannot be told from no request at all, and the adapter is a
  traversal (locale \<open>traversal\<close>, interpreted on the path to the messages) that changes nothing but template
  clicks. For the modes: nothing happens on an incomplete configuration, and no server is left running.

  \<^bold>\<open>Bounds and fuel.\<close> The loops of the code are structural recursions or have their measure, so no fuel is used
  except where the source counts itself: the Gemini retries are the recursion on the attempts that are left
  (eight in all), the tick loop of the layout is a partial function proved to return for every sane price
  range (and not to return at \<open>i32::MAX\<close>), the shut-down loop of the router one proved to return when waits are
  late by at most \<open>j\<close>, no later than a second and \<open>7 j\<close> after the grace period, and the listeners that wait for ever are \<open>None\<close> on a finite list of events. The loops of the benches that
  spin until a channel accepts are partial functions too, proved to return on channels that keep their laws. The
  gateway's 133 steps are two for each of 64 queued messages, one for each of 4 sends under way, and its end.

  \<^bold>\<open>Simplified.\<close> Atomics are sequentially consistent (\<open>ChannelThreads\<close>); the streams of benchmark events are made
  before they are loaded (\<open>Benchmarks\<close>); a panic inside a send of the gateway is not a step (\<open>GatewayLifecycle\<close>);
  the log of the reporter holds the replies that were sent, not those that failed (\<open>WhatsappPacing\<close>). Each is
  said again where the definition stands.

  \<^bold>\<open>Not modelled.\<close> What is logged for the operator with \<open>tracing\<close> and \<open>log\<close>, except where it is all the code does
  (\<open>Timings\<close>, the errors of the event loop); the crates themselves: teloxide's dispatcher, axum, the WhatsApp
  client, sqlx, LMDB and ReDB, bytemuck and rkyv, and Criterion with its clock; \<open>src/src/repository/contracts\<close>, traits
  that nothing implements or calls; \<open>src/src/bin/logging\<close> and the test helpers, which set up loggers and temporary
  paths; and the tests that open real database files, inspect the embedded media or measure time.
\<close>

end
